(* ===== verification/Prelude.thy ===== *)
theory Prelude
  imports Main "HOL-Library.Word" "HOL-Library.Monad_Syntax"
begin

unbundle bit_operations_syntax

text \<open>
  Shared vocabulary of the development: C's fixed-width integers as words, memory regions as
  byte lists with bounds-checked access, the byte order of the modelled host (little endian, as
  all targets of the build are), and the lemma collections the component theories use.

  An access outside a memory region is undefined behaviour in C. It is the value None
  of the access functions below and of everything that calls them, so a theorem that an
  operation returns Some is a theorem that it stays inside its buffers.
\<close>

section \<open>Integers and memory\<close>

type_synonym byte = "8 word"
type_synonym u16 = "16 word"
type_synonym u32 = "32 word"
type_synonym u64 = "64 word"
type_synonym memory = "byte list"
type_synonym 'a ub = "'a option"

named_theorems mem_simps "reading after writing a memory region"
named_theorems word_nat "words read as natural numbers"

definition peek :: "memory \<Rightarrow> nat \<Rightarrow> byte ub" where
  "peek m i = (if i < length m then Some (m ! i) else None)"

definition load :: "memory \<Rightarrow> nat \<Rightarrow> nat \<Rightarrow> memory ub" where
  "load m i n = (if i + n \<le> length m then Some (take n (drop i m)) else None)"

definition poke :: "memory \<Rightarrow> nat \<Rightarrow> memory \<Rightarrow> memory" where
  "poke m i bs = take i m @ bs @ drop (i + length bs) m"

definition store :: "memory \<Rightarrow> nat \<Rightarrow> memory \<Rightarrow> memory ub" where
  "store m i bs = (if i + length bs \<le> length m then Some (poke m i bs) else None)"

lemma length_poke [simp]: "i + length bs \<le> length m \<Longrightarrow> length (poke m i bs) = length m"
  by (simp add: poke_def)

lemma nth_poke_in: "i + length bs \<le> length m \<Longrightarrow> i \<le> j \<Longrightarrow> j < i + length bs \<Longrightarrow>
    poke m i bs ! j = bs ! (j - i)"
  by (auto simp: poke_def nth_append)

lemma nth_poke_out: "i + length bs \<le> length m \<Longrightarrow> j < length m \<Longrightarrow> j < i \<or> i + length bs \<le> j \<Longrightarrow>
    poke m i bs ! j = m ! j"
  by (auto simp: poke_def nth_append min_def)

lemma nth_poke: "i + length bs \<le> length m \<Longrightarrow> j < length m \<Longrightarrow>
    poke m i bs ! j = (if i \<le> j \<and> j < i + length bs then bs ! (j - i) else m ! j)"
  using nth_poke_in [of i bs m j] nth_poke_out [of i bs m j] by auto

lemma load_length: "load m i n = Some bs \<Longrightarrow> length bs = n"
  by (auto simp: load_def split: if_splits)

lemma store_length: "store m i bs = Some m' \<Longrightarrow> length m' = length m"
  by (auto simp: store_def split: if_splits)

lemma store_Some_iff: "(\<exists>m'. store m i bs = Some m') \<longleftrightarrow> i + length bs \<le> length m"
  by (auto simp: store_def)

lemma load_poke_same [mem_simps]:
  "i + length bs \<le> length m \<Longrightarrow> n = length bs \<Longrightarrow> load (poke m i bs) i n = Some bs"
  by (simp add: load_def) (simp add: poke_def)

lemma load_poke_disjoint [mem_simps]:
  assumes "i + length bs \<le> length m" and "j + n \<le> i \<or> i + length bs \<le> j"
  shows "load (poke m i bs) j n = load m j n"
proof (cases "j + n \<le> length m")
  case True
  have "take n (drop j (poke m i bs)) = take n (drop j m)"
    using assms True by (intro nth_equalityI) (auto simp: nth_poke)
  then show ?thesis
    using assms True by (simp add: load_def)
qed (use assms in \<open>simp add: load_def\<close>)

lemma peek_poke [mem_simps]:
  "i + length bs \<le> length m \<Longrightarrow>
    peek (poke m i bs) j = (if i \<le> j \<and> j < i + length bs then Some (bs ! (j - i)) else peek m j)"
  by (auto simp: peek_def nth_poke)

lemma poke_poke_commute:
  assumes "i + length a \<le> length m" "j + length b \<le> length m"
    and "i + length a \<le> j \<or> j + length b \<le> i"
  shows "poke (poke m i a) j b = poke (poke m j b) i a"
  by (rule nth_equalityI) (use assms in \<open>auto simp: nth_poke\<close>)

lemma poke_poke_same [simp]:
  "length bs = length cs \<Longrightarrow> i + length bs \<le> length m \<Longrightarrow> poke (poke m i cs) i bs = poke m i bs"
  by (simp add: poke_def)

lemma take_poke: "n \<le> i \<Longrightarrow> i + length bs \<le> length m \<Longrightarrow> take n (poke m i bs) = take n m"
  by (simp add: poke_def min_def)

lemma drop_poke: "i + length bs \<le> n \<Longrightarrow> i + length bs \<le> length m \<Longrightarrow> drop n (poke m i bs) = drop n m"
  by (simp add: poke_def)

lemma slice_poke_disjoint:
  "i + length bs \<le> length m \<Longrightarrow> j + n \<le> i \<or> i + length bs \<le> j \<Longrightarrow>
    take n (drop j (poke m i bs)) = take n (drop j m)"
  by (rule nth_equalityI) (auto simp: nth_poke)

lemma slice_poke_inside:
  "i \<le> j \<Longrightarrow> j + length bs \<le> i + n \<Longrightarrow> i + n \<le> length m \<Longrightarrow>
    take n (drop i (poke m j bs)) = poke (take n (drop i m)) (j - i) bs"
  by (rule nth_equalityI) (auto simp: nth_poke add.commute)

section \<open>Byte order\<close>

text \<open>
  A 16-bit load or store on the little-endian host, and the conversions \<open>htons\<close> and
  \<open>ntohs\<close> of the C library, which swap the two bytes there.
\<close>

definition hi16 :: "u16 \<Rightarrow> byte" where
  "hi16 w = ucast (drop_bit 8 w)"

definition lo16 :: "u16 \<Rightarrow> byte" where
  "lo16 w = ucast w"

definition mk16 :: "byte \<Rightarrow> byte \<Rightarrow> u16" where
  "mk16 h l = push_bit 8 (ucast h) OR ucast l"

definition bswap16 :: "u16 \<Rightarrow> u16" where
  "bswap16 w = mk16 (lo16 w) (hi16 w)"

abbreviation htons :: "u16 \<Rightarrow> u16" where "htons \<equiv> bswap16"
abbreviation ntohs :: "u16 \<Rightarrow> u16" where "ntohs \<equiv> bswap16"

definition load16 :: "memory \<Rightarrow> nat \<Rightarrow> u16 ub" where
  "load16 m i = do { l \<leftarrow> peek m i; h \<leftarrow> peek m (i + 1); Some (mk16 h l) }"

definition store16 :: "memory \<Rightarrow> nat \<Rightarrow> u16 \<Rightarrow> memory ub" where
  "store16 m i w = store m i [lo16 w, hi16 w]"

lemma byte_less: "unat (b :: byte) < 256"
  using unsigned_less [of b] by simp

lemma u16_less: "unat (w :: u16) < 65536"
  using unsigned_less [of w] by simp

lemma word_eq_of_nat: "unat x = k \<Longrightarrow> x = of_nat k"
  by auto

lemma unat_of_nat_small: "k < 2 ^ LENGTH('a) \<Longrightarrow> unat (of_nat k :: 'a::len word) = k"
  by (simp add: unsigned_of_nat take_bit_nat_eq_self)

lemma ucast_of_nat_32: "ucast (of_nat k :: u64) = (of_nat k :: u32)"
  by (rule bit_word_eqI) (simp add: bit_simps)

lemma hi16_mk16 [simp]: "hi16 (mk16 h l) = h"
  unfolding hi16_def mk16_def
  by (rule bit_word_eqI) (auto simp: bit_simps dest: bit_imp_le_length)

lemma lo16_mk16 [simp]: "lo16 (mk16 h l) = l"
  unfolding lo16_def mk16_def
  by (rule bit_word_eqI) (auto simp: bit_simps)

lemma mk16_hi_lo [simp]: "mk16 (hi16 w) (lo16 w) = w"
  unfolding hi16_def lo16_def mk16_def
  by (rule bit_word_eqI) (auto simp: bit_simps)

lemma bswap16_bswap16 [simp]: "bswap16 (bswap16 w) = w"
  by (simp add: bswap16_def)

lemma hi16_bswap16 [simp]: "hi16 (bswap16 w) = lo16 w"
  and lo16_bswap16 [simp]: "lo16 (bswap16 w) = hi16 w"
  by (simp_all add: bswap16_def)

lemma unat_mk16 [word_nat]: "unat (mk16 h l) = 256 * unat h + unat l"
proof -
  have "mk16 h l = push_bit 8 (ucast h) + ucast l"
    unfolding mk16_def
    by (rule disjunctive_add [symmetric]) (auto simp: bit_simps dest: bit_imp_le_length)
  moreover have "unat (ucast h :: u16) = unat h"
    using byte_less [of h] by (simp add: unsigned_ucast_eq take_bit_nat_eq_self)
  then have "unat (push_bit 8 (ucast h :: u16)) = 256 * unat h"
    using byte_less [of h]
    by (subst unsigned_push_bit_eq) (simp add: push_bit_eq_mult take_bit_nat_eq_self)
  moreover have "unat (ucast l :: u16) = unat l"
    using byte_less [of l] by (simp add: unsigned_ucast_eq take_bit_nat_eq_self)
  moreover have "256 * unat h + unat l < 2 ^ 16"
    using byte_less [of h] byte_less [of l] by simp
  ultimately show ?thesis
    by (simp add: unat_add_lem [THEN iffD1])
qed

lemma unat_hi16 [word_nat]: "unat (hi16 w) = unat w div 256"
  and unat_lo16 [word_nat]: "unat (lo16 w) = unat w mod 256"
proof -
  have "unat w = 256 * unat (hi16 w) + unat (lo16 w)"
    by (metis mk16_hi_lo unat_mk16)
  moreover have "unat (lo16 w) < 256"
    using byte_less [of "lo16 w"] by simp
  ultimately show "unat (hi16 w) = unat w div 256" and "unat (lo16 w) = unat w mod 256"
    by simp_all
qed

lemma unat_bswap16: "unat (bswap16 w) = 256 * (unat w mod 256) + unat w div 256"
  by (simp add: bswap16_def word_nat)

lemma bswap16_0 [simp]: "bswap16 0 = 0"
  by (simp add: bswap16_def mk16_def hi16_def lo16_def)

lemma bswap16_ones [simp]: "bswap16 0xFFFF = 0xFFFF"
  by (rule unsigned_word_eqI [where 'a = nat]) (simp add: unat_bswap16)

lemma bswap16_eq_iff [simp]: "bswap16 v = bswap16 w \<longleftrightarrow> v = w"
  by (metis bswap16_bswap16)

lemma NOT_bswap16: "NOT (bswap16 w) = bswap16 (NOT w)"
  unfolding bswap16_def mk16_def hi16_def lo16_def
  by (rule bit_word_eqI) (auto simp: bit_simps)

lemma store16_Some_iff: "(\<exists>m'. store16 m i w = Some m') \<longleftrightarrow> i + 2 \<le> length m"
  by (simp add: store16_def store_Some_iff)

lemma store16_eq [mem_simps]:
  "i + 2 \<le> length m \<Longrightarrow> store16 m i w = Some (poke m i [lo16 w, hi16 w])"
  by (simp add: store16_def store_def)

lemma load16_eq: "i + 2 \<le> length m \<Longrightarrow> load16 m i = Some (mk16 (m ! (i + 1)) (m ! i))"
  by (simp add: load16_def peek_def)

lemma load16_poke_same [mem_simps]:
  "i + 2 \<le> length m \<Longrightarrow> load16 (poke m i [lo16 w, hi16 w]) i = Some w"
  by (simp add: load16_def mem_simps)

lemma load16_poke_disjoint [mem_simps]:
  "i + length bs \<le> length m \<Longrightarrow> j + 2 \<le> i \<or> i + length bs \<le> j \<Longrightarrow>
    load16 (poke m i bs) j = load16 m j"
  by (auto simp: load16_def mem_simps)

section \<open>Error numbers\<close>

datatype errno = EINTR | EAGAIN | EWOULDBLOCK | Other_errno nat

section \<open>Event flags\<close>

text \<open>
  Both event machines of the program keep their pending events in a C enumeration used as a bit
  set: an event is raised with \<open>|=\<close>, cleared with \<open>&= ~\<close> and tested with \<open>&\<close>.
\<close>

definition raise_flag :: "u32 \<Rightarrow> u32 \<Rightarrow> u32" where
  "raise_flag e f = e OR f"

definition clear_flag :: "u32 \<Rightarrow> u32 \<Rightarrow> u32" where
  "clear_flag e f = e AND NOT f"

definition has_flag :: "u32 \<Rightarrow> u32 \<Rightarrow> bool" where
  "has_flag e f \<longleftrightarrow> e AND f \<noteq> 0"

text \<open>Flags are single bits, so two different flags do not interfere.\<close>

definition flag_bit :: "nat \<Rightarrow> u32" where
  "flag_bit k = push_bit k 1"

lemma has_flag_bit: "k < 32 \<Longrightarrow> has_flag e (flag_bit k) \<longleftrightarrow> bit e k"
proof -
  assume k: "k < 32"
  have "e AND push_bit k 1 = (if bit e k then push_bit k 1 else 0)"
    by (rule bit_word_eqI) (auto simp: bit_simps)
  moreover have "bit (push_bit k 1 :: u32) k"
    using k by (simp only: bit_push_bit_iff) simp
  then have "push_bit k 1 \<noteq> (0 :: u32)"
    by (metis bit_0_eq bot_apply bot_bool_def)
  ultimately show ?thesis
    by (simp add: has_flag_def flag_bit_def)
qed

lemma has_raise_flag [simp]:
  "j < 32 \<Longrightarrow> k < 32 \<Longrightarrow>
    has_flag (raise_flag e (flag_bit j)) (flag_bit k) \<longleftrightarrow> k = j \<or> has_flag e (flag_bit k)"
  by (auto simp: has_flag_bit raise_flag_def) (auto simp: flag_bit_def bit_simps)

lemma has_clear_flag [simp]:
  "j < 32 \<Longrightarrow> k < 32 \<Longrightarrow>
    has_flag (clear_flag e (flag_bit j)) (flag_bit k) \<longleftrightarrow> k \<noteq> j \<and> has_flag e (flag_bit k)"
  by (auto simp: has_flag_bit clear_flag_def) (auto simp: flag_bit_def bit_simps)

lemma has_flag_0 [simp]: "\<not> has_flag 0 f"
  by (simp add: has_flag_def)

end
