(* ===== verification/Net_Checksum.thy ===== *)
theory Net_Checksum
  imports Prelude
begin

text \<open>
  The Internet checksum (RFC 1071) as the two network libraries compute it. This theory holds
  the part they share: the specification of the sum of 16-bit words, the loop that folds the
  carries back, and the interface \<open>csum_acc\<close> of an accumulation loop over a buffer with its
  correctness proof, which the big-endian loop of \<open>libs/net/src/udp.c\<close> and the native
  (little-endian) loop of \<open>libs/commons/src/net_helper.c\<close> both instantiate.
\<close>

section \<open>Specification: the sum of the 16-bit words of a byte string\<close>

text \<open>
  \<open>w2\<close> reads a pair of bytes as a word and \<open>w1\<close> the odd trailing byte; big-endian words pad
  the trailing byte with a zero low byte.
\<close>

fun sum_words :: "(byte \<Rightarrow> byte \<Rightarrow> nat) \<Rightarrow> (byte \<Rightarrow> nat) \<Rightarrow> byte list \<Rightarrow> nat" where
  "sum_words w2 w1 (a # b # bs) = w2 a b + sum_words w2 w1 bs"
| "sum_words w2 w1 [a] = w1 a"
| "sum_words w2 w1 [] = 0"

definition be_word :: "byte \<Rightarrow> byte \<Rightarrow> nat" where
  "be_word a b = 256 * unat a + unat b"

definition le_word :: "byte \<Rightarrow> byte \<Rightarrow> nat" where
  "le_word a b = unat a + 256 * unat b"

abbreviation be_sum :: "byte list \<Rightarrow> nat" where
  "be_sum \<equiv> sum_words be_word (\<lambda>a. be_word a 0)"

abbreviation le_sum :: "byte list \<Rightarrow> nat" where
  "le_sum \<equiv> sum_words le_word (\<lambda>a. le_word a 0)"

lemma be_word_less: "be_word a b < 65536"
  and le_word_less: "le_word a b < 65536"
  using byte_less [of a] byte_less [of b] by (simp_all add: be_word_def le_word_def)

lemma sum_words_append:
  "even (length xs) \<Longrightarrow>
    sum_words w2 w1 (xs @ ys) = sum_words w2 w1 xs + sum_words w2 w1 ys"
  by (induction w2 w1 xs rule: sum_words.induct) auto

lemma sum_words_le:
  assumes "\<And>a b. w2 a b \<le> c" and "\<And>a. w1 a \<le> c"
  shows "sum_words w2 w1 bs \<le> c * length bs"
  using assms
proof (induction w2 w1 bs rule: sum_words.induct)
  case (1 w2 w1 a b bs)
  then have "w2 a b + sum_words w2 w1 bs \<le> c + c * length bs"
    by (intro add_mono) auto
  then show ?case by simp
qed auto

text \<open>
  Byte-order independence: reading every word the other way round multiplies the sum by 256,
  up to multiples of \<open>2 ^ 16 - 1\<close>.
\<close>

lemma le_word_cong: "le_word a b mod 65535 = 256 * be_word a b mod 65535"
proof -
  have "256 * be_word a b = le_word a b + 65535 * unat a"
    by (simp add: be_word_def le_word_def)
  then show ?thesis
    by (metis mod_mult_self2)
qed

lemma le_sum_cong: "le_sum bs mod 65535 = 256 * be_sum bs mod 65535"
proof (induction bs rule: induct_list012)
  case (3 a b bs)
  have "le_sum (a # b # bs) mod 65535 = (le_word a b mod 65535 + le_sum bs mod 65535) mod 65535"
    by (simp add: mod_simps)
  also have "\<dots> = (256 * be_word a b + 256 * be_sum bs) mod 65535"
    using 3 by (simp only: le_word_cong mod_add_eq)
  finally show ?case by (simp add: algebra_simps)
qed (simp_all add: le_word_cong)

lemma be_sum_0_iff: "be_sum bs = 0 \<longleftrightarrow> le_sum bs = 0"
  by (induction bs rule: induct_list012) (auto simp: be_word_def le_word_def)

section \<open>Folding the carries\<close>

lemma div_mod_65536: "n = 65535 * (n div 65536) + (n mod 65536 + n div 65536)" for n :: nat
  by simp

lemma fold_step_less: "\<not> n < 65536 \<Longrightarrow> n mod 65536 + n div 65536 < n" for n :: nat
proof -
  assume "\<not> n < 65536"
  then have "0 < n div 65536"
    by (simp add: div_greater_zero_iff)
  with div_mod_65536 [of n] show ?thesis
    by linarith
qed

text \<open>\<open>while (sum >> 16) sum = (sum & 0xFFFF) + (sum >> 16);\<close>\<close>

lemma unat_fold_step:
  "unat ((s AND 0xFFFF) + drop_bit 16 s :: u64) = unat s mod 65536 + unat s div 65536"
proof -
  have mask: "(0xFFFF :: u64) = mask 16"
    by (simp add: mask_eq_exp_minus_1)
  have lo: "unat (s AND 0xFFFF) = unat s mod 65536"
    by (simp only: mask flip: take_bit_eq_mask)
      (subst unsigned_take_bit_eq, simp add: take_bit_eq_mod)
  have hi: "unat (drop_bit 16 s) = unat s div 65536"
    by (subst unat_drop_bit_eq) (simp add: drop_bit_eq_div)
  have "unat s < 2 ^ 64"
    using unsigned_less [of s] by simp
  then have "unat s mod 65536 + unat s div 65536 < 2 ^ 64"
    by simp
  then show ?thesis
    using lo hi by (simp add: unat_word_ariths)
qed

lemma drop_bit_16_eq_0: "drop_bit 16 (s :: u64) = 0 \<longleftrightarrow> unat s < 65536"
proof -
  have "drop_bit 16 s = 0 \<longleftrightarrow> unat (drop_bit 16 s) = 0"
    by (simp add: unsigned_eq_0_iff)
  also have "\<dots> \<longleftrightarrow> unat s < 65536"
    by (subst unat_drop_bit_eq) (simp add: drop_bit_eq_div div_eq_0_iff)
  finally show ?thesis .
qed

function fold_carries :: "u64 \<Rightarrow> u64" where
  "fold_carries s = (if drop_bit 16 s \<noteq> 0 then fold_carries ((s AND 0xFFFF) + drop_bit 16 s) else s)"
  by pat_completeness auto
termination
  by (relation "measure unat") (auto simp: unat_fold_step drop_bit_16_eq_0 fold_step_less)

declare fold_carries.simps [simp del]

text \<open>The ones'-complement value of a sum: the representative of its class in 1..65535.\<close>

definition ones_value :: "nat \<Rightarrow> nat" where
  "ones_value n = (if n = 0 then 0 else (n - 1) mod 65535 + 1)"

lemma ones_value_less: "ones_value n < 65536"
  by (simp add: ones_value_def Suc_le_lessD)

lemma ones_value_small: "n < 65536 \<Longrightarrow> ones_value n = n"
  by (auto simp: ones_value_def)

lemma ones_value_cong: "ones_value n mod 65535 = n mod 65535"
  by (auto simp: ones_value_def mod_simps)

lemma mod_add_cancel_right_nat:
  "Suc m mod k = Suc n mod k \<Longrightarrow> m mod k = n mod k" for k :: nat
  by (simp add: mod_eq_iff_dvd_symdiff_nat)

lemma ones_value_unique:
  "0 < m \<Longrightarrow> m < 65536 \<Longrightarrow> 0 < n \<Longrightarrow> m mod 65535 = n mod 65535 \<Longrightarrow> ones_value n = m"
proof -
  assume "0 < m" "m < 65536" "0 < n" "m mod 65535 = n mod 65535"
  then have "(m - 1) mod 65535 = (n - 1) mod 65535"
    by (metis One_nat_def Suc_pred mod_add_cancel_right_nat)
  with \<open>0 < m\<close> \<open>m < 65536\<close> \<open>0 < n\<close> show "ones_value n = m"
    by (simp add: ones_value_def)
qed

lemma ones_value_step: "ones_value (n mod 65536 + n div 65536) = ones_value n"
proof (cases "n = 0")
  case False
  have "n mod 65536 + n div 65536 \<noteq> 0"
    using False div_mod_65536 [of n] by (metis add_is_0 mult_is_0)
  moreover have "(n mod 65536 + n div 65536) mod 65535 = n mod 65535"
    by (metis div_mod_65536 mod_mult_self4)
  ultimately show ?thesis
    using False ones_value_cong [of n] ones_value_less [of n]
    by (intro ones_value_unique) (auto simp: ones_value_def)
qed (simp add: ones_value_def)

lemma unat_fold_carries: "unat (fold_carries s) = ones_value (unat s)"
proof (induction s rule: fold_carries.induct)
  case (1 s)
  show ?case
  proof (cases "drop_bit 16 s = 0")
    case True
    then show ?thesis
      by (simp add: fold_carries.simps [of s] drop_bit_16_eq_0 ones_value_small)
  next
    case False
    with 1 show ?thesis
      by (simp add: fold_carries.simps [of s] unat_fold_step ones_value_step)
  qed
qed

lemma unat_NOT_u16: "unat (NOT w) = 65535 - unat w" for w :: u16
proof -
  have "w + NOT w = - 1"
    by (simp add: not_eq_complement)
  then have "unat (w + NOT w) = 65535"
    by (simp only: unsigned_minus_1_eq_mask) (simp add: mask_eq_exp_minus_1)
  then have "(unat w + unat (NOT w)) mod 2 ^ LENGTH(16) = 65535"
    by (simp only: unat_word_ariths)
  then have "(unat w + unat (NOT w)) mod 65536 = 65535"
    by simp
  moreover have "unat w + unat (NOT w) < 131072"
    using u16_less [of w] u16_less [of "NOT w"] by simp
  ultimately show ?thesis
    using u16_less [of w] u16_less [of "NOT w"] by (simp add: mod_if split: if_splits)
qed

text \<open>The complement of the folded sum, truncated to 16 bits.\<close>

lemma unat_NOT_16: "unat (ucast (NOT s) :: u16) = 65535 - unat s" if "unat s < 65536" for s :: u64
proof -
  have s: "s = word_of_nat (unat s)"
    by simp
  have "unat (ucast s :: u16) = unat s"
    using that by (simp add: unsigned_ucast_eq take_bit_nat_eq_self)
  moreover have "ucast (NOT s) = NOT (ucast s :: u16)"
    by (rule bit_word_eqI) (simp add: bit_simps)
  ultimately show ?thesis
    by (simp add: unat_NOT_u16)
qed

section \<open>The interface of an accumulation loop\<close>

locale csum_acc =
  fixes w2 :: "byte \<Rightarrow> byte \<Rightarrow> nat" and w1 :: "byte \<Rightarrow> nat"
    and acc :: "u64 \<Rightarrow> memory \<Rightarrow> nat \<Rightarrow> u64 ub"
  assumes acc_done: "acc s m 0 = Some s"
    and acc_odd: "acc s (a # m) 1 = Some (s + of_nat (w1 a))"
    and acc_pair: "acc s (a # b # m) (Suc (Suc n)) = acc (s + of_nat (w2 a b)) m n"
    and acc_short1: "acc s [] (Suc n) = None"
    and acc_short2: "acc s [a] (Suc (Suc n)) = None"
    and w2_le: "w2 a b \<le> 65535"
    and w1_le: "w1 a \<le> 65535"
begin

lemma acc_sum: "n \<le> length m \<Longrightarrow> acc s m n = Some (s + of_nat (sum_words w2 w1 (take n m)))"
proof (induction n arbitrary: s m rule: induct_nat_012)
  case 0
  then show ?case by (simp add: acc_done)
next
  case 1
  then show ?case
    by (cases m) (use acc_odd in \<open>auto\<close>)
next
  case (ge2 n)
  then obtain a b m' where m: "m = a # b # m'" and "n \<le> length m'"
    by (cases m rule: remdups_adj.cases) auto
  then show ?case
    using ge2.IH(1) by (simp add: acc_pair add.assoc)
qed

lemma acc_fault: "length m < n \<Longrightarrow> acc s m n = None"
proof (induction n arbitrary: s m rule: induct_nat_012)
  case (ge2 n)
  then show ?case
    by (cases m rule: remdups_adj.cases) (auto simp: acc_short1 acc_short2 acc_pair)
qed (use acc_short1 [of _ 0] in auto)

lemma acc_Some_iff: "(\<exists>r. acc s m n = Some r) \<longleftrightarrow> n \<le> length m"
  using acc_sum [of n m s] acc_fault [of m n s] by (cases "n \<le> length m") auto

lemma sum_bound: "sum_words w2 w1 bs \<le> 65535 * length bs"
  by (rule sum_words_le) (simp_all add: w2_le w1_le)

end

end
