(* ===== verification/Net_Udp.thy ===== *)
theory Net_Udp
  imports Net_Checksum
begin

text \<open>
  The IPv6/UDP helpers of \<open>libs/net/src/udp.c\<close>: packet classification, the UDP checksum over
  the IPv6 pseudo-header, the length fields and the payload length. A packet is the memory
  region its pointer refers to; \<open>struct ip6_hdr\<close> and \<open>struct udphdr\<close> are the byte offsets of
  their fields (next header 6, payload length 4, source 8, destination 24; and, from offset 40,
  ports 40 and 42, length 44, checksum 46).
\<close>

section \<open>Definitions\<close>

definition IPv6_VERSION :: byte where "IPv6_VERSION = 6"
definition IPPROTO_UDP :: byte where "IPPROTO_UDP = 17"
definition sizeof_ip6_hdr :: nat where "sizeof_ip6_hdr = 40"
definition sizeof_udphdr :: nat where "sizeof_udphdr = 8"

lemmas header_sizes = sizeof_ip6_hdr_def sizeof_udphdr_def

text \<open>The packet pointer may be NULL, which is None here.\<close>

definition is_ipv6_udp_packet :: "memory option \<Rightarrow> nat \<Rightarrow> bool ub" where
  "is_ipv6_udp_packet packet packet_size =
     (case packet of
        None \<Rightarrow> Some False
      | Some p \<Rightarrow>
          if packet_size < sizeof_ip6_hdr + sizeof_udphdr then Some False
          else do {
            b0 \<leftarrow> peek p 0;
            if drop_bit 4 b0 \<noteq> IPv6_VERSION then Some False
            else do { nxt \<leftarrow> peek p 6; Some (nxt = IPPROTO_UDP) } })"

fun csum_add :: "u64 \<Rightarrow> memory \<Rightarrow> nat \<Rightarrow> u64 ub" where
  "csum_add s p n =
     (if n > 1 then
        do {
          b0 \<leftarrow> peek p 0;
          b1 \<leftarrow> peek p 1;
          csum_add (s + ucast (push_bit 8 (ucast b0 :: u32) OR ucast b1)) (drop 2 p) (n - 2)
        }
      else if n \<noteq> 0 then
        do { b0 \<leftarrow> peek p 0; Some (s + ucast (push_bit 8 (ucast b0 :: u32))) }
      else Some s)"

declare csum_add.simps [simp del]

definition udp_checksum :: "memory \<Rightarrow> u64 \<Rightarrow> memory \<Rightarrow> memory \<Rightarrow> u16 ub" where
  "udp_checksum packet sz src_addr dst_addr =
     do {
       s \<leftarrow> csum_add 0 src_addr 16;
       s \<leftarrow> csum_add s dst_addr 16;
       let s = s + ucast ((ucast (drop_bit 16 sz) :: u32) AND 0xFFFF);
       let s = s + ucast ((ucast sz :: u32) AND 0xFFFF);
       let s = s + ucast IPPROTO_UDP;
       s \<leftarrow> csum_add s packet (unat sz);
       let s = fold_carries s;
       let result = (ucast (NOT s) :: u16);
       let result = (if result = 0 then 0xFFFF else result);
       Some (htons result)
     }"

definition update_udp_checksum :: "memory \<Rightarrow> memory ub" where
  "update_udp_checksum packet =
     do {
       w \<leftarrow> load16 packet (sizeof_ip6_hdr + 4);
       let ulen = (ucast (ntohs w) :: u64);
       packet \<leftarrow> store16 packet (sizeof_ip6_hdr + 6) 0;
       csum \<leftarrow> udp_checksum (drop sizeof_ip6_hdr packet) ulen (drop 8 packet) (drop 24 packet);
       store16 packet (sizeof_ip6_hdr + 6) csum
     }"

definition update_ip6_udp_len :: "memory \<Rightarrow> u64 \<Rightarrow> memory ub" where
  "update_ip6_udp_len packet sz =
     do {
       packet \<leftarrow> store16 packet 4 (htons (ucast (of_nat sizeof_udphdr + sz)));
       store16 packet (sizeof_ip6_hdr + 4) (htons (ucast (of_nat sizeof_udphdr + sz)))
     }"

definition ipv6_udp_payload_len :: "memory \<Rightarrow> u16 ub" where
  "ipv6_udp_payload_len packet =
     do {
       w \<leftarrow> load16 packet (sizeof_ip6_hdr + 4);
       let udp_total_len = ntohs w;
       if unat udp_total_len < sizeof_udphdr then Some 0
       else Some (udp_total_len - of_nat sizeof_udphdr)
     }"

definition COAP_VERSION_MASK :: byte where "COAP_VERSION_MASK = 0xC0"
definition COAP_VERSION_1 :: byte where "COAP_VERSION_1 = 0x40"

definition is_coap_packet :: "memory \<Rightarrow> nat \<Rightarrow> bool ub" where
  "is_coap_packet raw_coap pkt_len =
     (if pkt_len < 1 then Some False
      else do { b0 \<leftarrow> peek raw_coap 0; Some (b0 AND COAP_VERSION_MASK = COAP_VERSION_1) })"

section \<open>The accumulation loop\<close>

lemma ucast_be_word:
  "(ucast (push_bit 8 (ucast a :: u32) OR ucast b) :: u64) = of_nat (be_word a b)"
proof -
  have "(ucast (push_bit 8 (ucast a :: u32) OR ucast b) :: u64) = ucast (mk16 a b)"
    unfolding mk16_def by (rule bit_word_eqI) (auto simp: bit_simps dest: bit_imp_le_length)
  also have "\<dots> = of_nat (unat (mk16 a b))"
    by simp
  finally show ?thesis
    by (simp add: unat_mk16 be_word_def)
qed

lemma ucast_be_byte: "(ucast (push_bit 8 (ucast a :: u32)) :: u64) = of_nat (be_word a 0)"
  using ucast_be_word [of a 0] by simp

interpretation be: csum_acc be_word "\<lambda>a. be_word a 0" csum_add
proof
  fix a b :: byte and s m n
  show "csum_add s m 0 = Some s"
    by (subst csum_add.simps) simp
  show "csum_add s (a # m) 1 = Some (s + of_nat (be_word a 0))"
    by (subst csum_add.simps) (simp add: peek_def ucast_be_byte)
  show "csum_add s (a # b # m) (Suc (Suc n)) = csum_add (s + of_nat (be_word a b)) m n"
    by (subst csum_add.simps) (simp add: peek_def ucast_be_word)
  show "csum_add s [] (Suc n) = None"
    by (subst csum_add.simps) (simp add: peek_def)
  show "csum_add s [a] (Suc (Suc n)) = None"
    by (subst csum_add.simps) (simp add: peek_def)
  show "be_word a b \<le> 65535" and "be_word a 0 \<le> 65535"
    using be_word_less [of a b] be_word_less [of a 0] by simp_all
qed


section \<open>The checksum against its specification\<close>

text \<open>
  The sum the receiver checks: the pseudo-header (addresses, upper-layer length, next header)
  and the UDP segment, as big-endian 16-bit words.
\<close>

definition pseudo_sum :: "memory \<Rightarrow> memory \<Rightarrow> nat \<Rightarrow> memory \<Rightarrow> nat" where
  "pseudo_sum src dst len seg =
     be_sum src + be_sum dst + len div 65536 + len mod 65536 + 17 + be_sum seg"

definition spec_checksum :: "nat \<Rightarrow> nat" where
  "spec_checksum n = (if ones_value n = 65535 then 65535 else 65535 - ones_value n)"

lemma udp_checksum_Some_iff:
  "(\<exists>r. udp_checksum packet sz src dst = Some r) \<longleftrightarrow>
    16 \<le> length src \<and> 16 \<le> length dst \<and> unat sz \<le> length packet"
  by (cases "16 \<le> length src"; cases "16 \<le> length dst"; cases "unat sz \<le> length packet")
    (simp_all add: udp_checksum_def Let_def be.acc_sum be.acc_fault)

lemma low_half: "ucast ((ucast (w :: u64) :: u32) AND 0xFFFF) = (of_nat (unat w mod 65536) :: u64)"
proof -
  have mask: "(0xFFFF :: u32) = mask 16"
    by (simp add: mask_eq_exp_minus_1)
  have "(ucast ((ucast w :: u32) AND 0xFFFF) :: u64) = take_bit 16 w"
    unfolding mask by (rule bit_word_eqI) (auto simp: bit_simps)
  moreover have "unat (take_bit 16 w) = unat w mod 65536"
    by (subst unsigned_take_bit_eq) (simp add: take_bit_eq_mod)
  ultimately show ?thesis
    by (metis word_eq_of_nat)
qed

lemma unat_drop_16: "unat (drop_bit 16 (w :: u64)) = unat w div 65536"
  by (subst unat_drop_bit_eq) (simp add: drop_bit_eq_div)

lemma ucast_17: "ucast (17 :: byte) = (17 :: u64)"
  by simp

lemma udp_checksum_eq:
  assumes len: "16 \<le> length src" "16 \<le> length dst" "unat sz \<le> length packet"
    and sz: "unat sz < 2 ^ 32"
  shows "\<exists>r. udp_checksum packet sz src dst = Some (htons r) \<and> unat r =
    spec_checksum (pseudo_sum (take 16 src) (take 16 dst) (unat sz) (take (unat sz) packet))"
proof -
  define n where "n = unat sz"
  define t where "t = pseudo_sum (take 16 src) (take 16 dst) n (take n packet)"
  define f where "f = fold_carries (of_nat t)"
  have n: "n < 4294967296"
    using sz by (simp add: n_def)
  have "t \<le> 65535 * 16 + 65535 * 16 + n div 65536 + n mod 65536 + 17 + 65535 * n"
    using be.sum_bound [of "take 16 src"] be.sum_bound [of "take 16 dst"]
      be.sum_bound [of "take n packet"] len
    unfolding t_def pseudo_sum_def by (simp add: n_def)
  with n have t: "t < 2 ^ 64"
    by simp
  have hi: "n div 65536 mod 65536 = n div 65536"
    using n by simp
  have total: "0 + of_nat (be_sum (take 16 src)) + of_nat (be_sum (take 16 dst))
      + of_nat (n div 65536) + of_nat (n mod 65536) + 17 + of_nat (be_sum (take n packet))
      = (of_nat t :: u64)"
    by (simp add: t_def pseudo_sum_def)
  have sum: "udp_checksum packet sz src dst =
      Some (htons (if ucast (NOT f) = (0 :: u16) then 0xFFFF else ucast (NOT f)))"
    using len unfolding udp_checksum_def Let_def n_def [symmetric]
    by (simp only: be.acc_sum Option.bind.bind_lunit low_half unat_drop_16 IPPROTO_UDP_def
        n_def [symmetric] hi total f_def [symmetric] ucast_17)
  have f: "unat f = ones_value t"
    using t by (simp add: f_def unat_fold_carries unat_of_nat_small)
  then have c: "unat (ucast (NOT f) :: u16) = 65535 - ones_value t"
    using ones_value_less [of t] by (simp add: unat_NOT_16)
  have "ucast (NOT f) = (0 :: u16) \<longleftrightarrow> unat (ucast (NOT f) :: u16) = 0"
    by (simp only: unsigned_eq_0_iff)
  also have "\<dots> \<longleftrightarrow> ones_value t = 65535"
    unfolding c using ones_value_less [of t] by auto
  finally have z: "ucast (NOT f) = (0 :: u16) \<longleftrightarrow> ones_value t = 65535" .
  show ?thesis
    unfolding sum
    by (intro exI [of _ "if ucast (NOT f) = (0 :: u16) then 0xFFFF else ucast (NOT f)"])
      (use c z in \<open>auto simp: spec_checksum_def t_def n_def\<close>)
qed

section \<open>The checksum of a packet\<close>

text \<open>The UDP length field and the 16-bit big-endian fields of a packet.\<close>

definition be16_at :: "memory \<Rightarrow> nat \<Rightarrow> nat" where
  "be16_at p i = be_word (p ! i) (p ! (i + 1))"

definition udp_segment :: "memory \<Rightarrow> memory" where
  "udp_segment p = take (be16_at p 44) (drop 40 p)"

definition packet_sum :: "memory \<Rightarrow> nat" where
  "packet_sum p = pseudo_sum (take 16 (drop 8 p)) (take 16 (drop 24 p)) (be16_at p 44) (udp_segment p)"

text \<open>What a receiver checks: the sum over the whole segment, checksum included, is all ones.\<close>

definition udp_checksum_ok :: "memory \<Rightarrow> bool" where
  "udp_checksum_ok p \<longleftrightarrow> ones_value (packet_sum p) = 65535"

lemma be16_at_less: "be16_at p i < 65536"
  by (simp add: be16_at_def be_word_less)

lemma ntohs_load16: "i + 2 \<le> length p \<Longrightarrow> load16 p i = Some w \<Longrightarrow> unat (ntohs w) = be16_at p i"
  by (auto simp: load16_eq be16_at_def be_word_def bswap16_def unat_mk16)

lemma be16_at_poke_same: "i + 2 \<le> length p \<Longrightarrow> be16_at (poke p i [a, b]) i = be_word a b"
  by (simp add: be16_at_def nth_poke)

lemma be16_at_poke_disjoint:
  "i + length bs \<le> length p \<Longrightarrow> j + 2 \<le> length p \<Longrightarrow> j + 2 \<le> i \<or> i + length bs \<le> j \<Longrightarrow>
    be16_at (poke p i bs) j = be16_at p j"
  by (auto simp: be16_at_def nth_poke)

lemma be_sum_poke:
  assumes "even i" and "i + 2 \<le> length m"
  shows "be_sum (poke m i [a, b]) + be16_at m i = be_sum m + be_word a b"
proof -
  have m: "m = take i m @ [m ! i, m ! (i + 1)] @ drop (i + 2) m"
    using assms(2) by (simp add: Cons_nth_drop_Suc)
  have "be_sum (poke m i [a, b]) = be_sum (take i m) + (be_word a b + be_sum (drop (i + 2) m))"
    using assms by (simp add: poke_def sum_words_append)
  moreover have "be_sum m = be_sum (take i m) + (be16_at m i + be_sum (drop (i + 2) m))"
    using assms by (subst m) (simp add: sum_words_append be16_at_def)
  ultimately show ?thesis
    by simp
qed

lemma spec_checksum_completes: "ones_value (n + spec_checksum n) = 65535" if "0 < n"
proof (rule ones_value_unique)
  have v: "ones_value n < 65536" "ones_value n mod 65535 = n mod 65535"
    by (simp_all add: ones_value_less ones_value_cong)
  show "(65535 :: nat) mod 65535 = (n + spec_checksum n) mod 65535"
  proof (cases "ones_value n = 65535")
    case True
    with v(2) show ?thesis by (simp add: spec_checksum_def)
  next
    case False
    then have "(ones_value n + (65535 - ones_value n)) mod 65535 = (n + spec_checksum n) mod 65535"
      using v by (metis mod_add_left_eq spec_checksum_def)
    moreover have "ones_value n + (65535 - ones_value n) = 65535"
      using v(1) by simp
    ultimately show ?thesis by simp
  qed
qed (use that in simp_all)

lemma spec_checksum_range: "0 < spec_checksum n \<and> spec_checksum n < 65536"
  using ones_value_less [of n] by (auto simp: spec_checksum_def)

lemma update_udp_checksum_shape:
  assumes len: "48 \<le> length p" "40 + be16_at p 44 \<le> length p"
  defines "q \<equiv> poke p 46 [0, 0]"
  shows "\<exists>r. update_udp_checksum p = Some (poke p 46 [hi16 r, lo16 r])
    \<and> unat r = spec_checksum (packet_sum q)"
proof -
  define w where "w = mk16 (p ! 45) (p ! 44)"
  define ulen where "ulen = (ucast (ntohs w) :: u64)"
  have load: "load16 p (40 + 4) = Some w"
    using len(1) by (simp add: load16_eq w_def)
  have "unat (ntohs w) = be16_at p 44"
    by (simp add: w_def be16_at_def be_word_def bswap16_def unat_mk16)
  then have ulen: "unat ulen = be16_at p 44"
    using be16_at_less [of p 44] by (simp add: ulen_def unsigned_ucast_eq take_bit_nat_eq_self)
  have zero: "store16 p (40 + 6) 0 = Some q"
    using len(1) by (simp add: store16_eq q_def lo16_def hi16_def)
  have q: "length q = length p" "be16_at q 44 = be16_at p 44"
    using len(1) by (simp_all add: q_def be16_at_poke_disjoint)
  obtain r where r: "udp_checksum (drop 40 q) ulen (drop 8 q) (drop 24 q) = Some (htons r)"
      "unat r = spec_checksum (packet_sum q)"
  proof -
    have "16 \<le> length (drop 8 q)" "16 \<le> length (drop 24 q)" "unat ulen \<le> length (drop 40 q)"
        "unat ulen < 2 ^ 32"
      using len q be16_at_less [of p 44] by (simp_all add: ulen)
    from udp_checksum_eq [OF this] show thesis
      using that q by (auto simp: ulen packet_sum_def udp_segment_def)
  qed
  have "update_udp_checksum p = store16 q (40 + 6) (htons r)"
    unfolding update_udp_checksum_def header_sizes
    by (simp only: load zero r(1) Option.bind.bind_lunit Let_def flip: ulen_def)
  also have "\<dots> = Some (poke p 46 [hi16 r, lo16 r])"
    using len(1) by (simp add: store16_eq q_def)
  finally show ?thesis
    using r(2) by blast
qed

lemma packet_sum_poke_checksum:
  assumes "48 \<le> length p" "8 \<le> be16_at p 44" "40 + be16_at p 44 \<le> length p"
  shows "packet_sum (poke p 46 [a, b]) + be16_at p 46 = packet_sum p + be_word a b"
proof -
  have "take (be16_at p 44) (drop 40 (poke p 46 [a, b])) = poke (udp_segment p) 6 [a, b]"
    using assms by (simp add: slice_poke_inside udp_segment_def)
  moreover have "be16_at (udp_segment p) 6 = be16_at p 46"
    using assms by (simp add: be16_at_def udp_segment_def)
  ultimately show ?thesis
    using assms be_sum_poke [of 6 "udp_segment p" a b]
    by (simp add: packet_sum_def pseudo_sum_def slice_poke_disjoint be16_at_poke_disjoint
        udp_segment_def)
qed

lemma update_udp_checksum_correct:
  assumes "48 \<le> length p" "8 \<le> be16_at p 44" "40 + be16_at p 44 \<le> length p"
  shows "\<exists>a b. update_udp_checksum p = Some (poke p 46 [a, b])
    \<and> udp_checksum_ok (poke p 46 [a, b]) \<and> be_word a b \<noteq> 0"
proof -
  define q where "q = poke p 46 [0, 0]"
  obtain r where r: "update_udp_checksum p = Some (poke p 46 [hi16 r, lo16 r])"
      "unat r = spec_checksum (packet_sum q)"
    using update_udp_checksum_shape assms unfolding q_def by blast
  have word: "be_word (hi16 r) (lo16 r) = unat r"
    by (simp add: be_word_def word_nat)
  have q: "length q = length p" "be16_at q 44 = be16_at p 44" "be16_at q 46 = 0"
    using assms by (simp_all add: q_def be16_at_poke_disjoint be16_at_poke_same be_word_def)
  have "poke p 46 [hi16 r, lo16 r] = poke q 46 [hi16 r, lo16 r]"
    using assms by (simp add: q_def)
  then have "packet_sum (poke p 46 [hi16 r, lo16 r]) = packet_sum q + spec_checksum (packet_sum q)"
    using packet_sum_poke_checksum [of q "hi16 r" "lo16 r"] assms q word r(2) by simp
  moreover have "0 < packet_sum q"
    by (simp add: packet_sum_def pseudo_sum_def)
  ultimately have "udp_checksum_ok (poke p 46 [hi16 r, lo16 r])"
    by (simp add: udp_checksum_ok_def spec_checksum_completes)
  then show ?thesis
    using r word spec_checksum_range [of "packet_sum q"] by (metis less_irrefl)
qed

lemma update_udp_checksum_Some_iff:
  "(\<exists>q. update_udp_checksum p = Some q) \<longleftrightarrow> 48 \<le> length p \<and> 40 + be16_at p 44 \<le> length p"
proof -
  have "update_udp_checksum p = None" if short: "length p < 48"
  proof (cases "length p < 46")
    case True
    then show ?thesis
      by (simp add: update_udp_checksum_def header_sizes load16_def peek_def)
  next
    case False
    with short show ?thesis
      by (simp add: update_udp_checksum_def header_sizes store16_def store_def split: Option.bind_split)
  qed
  moreover have "update_udp_checksum p = None" if long: "48 \<le> length p" "length p < 40 + be16_at p 44"
  proof -
    have "unat (ucast (ntohs (mk16 (p ! 45) (p ! 44))) :: u64) = be16_at p 44"
      using be16_at_less [of p 44]
      by (simp add: unsigned_ucast_eq take_bit_nat_eq_self be16_at_def be_word_def bswap16_def unat_mk16)
    moreover have "udp_checksum (drop 40 m) sz a b = None" if "length m = length p" "unat sz = be16_at p 44"
      for m sz a b
      using udp_checksum_Some_iff [of "drop 40 m" sz a b] that long by fastforce
    ultimately show ?thesis
      using long(1)
      by (simp add: update_udp_checksum_def header_sizes load16_eq store16_eq Let_def)
  qed
  ultimately show ?thesis
    using update_udp_checksum_shape [of p] by (metis not_le option.distinct(1))
qed

section \<open>Length fields and classification\<close>

lemma payload_len_eq: "48 \<le> length p \<Longrightarrow>
    \<exists>n. ipv6_udp_payload_len p = Some n \<and> unat n = be16_at p 44 - 8"
proof -
  assume len: "48 \<le> length p"
  define w where "w = ntohs (mk16 (p ! 45) (p ! 44))"
  have w: "unat w = be16_at p 44"
    by (simp add: w_def be16_at_def be_word_def bswap16_def unat_mk16)
  have "ipv6_udp_payload_len p = Some (if be16_at p 44 < 8 then 0 else w - 8)"
    using len w by (simp add: ipv6_udp_payload_len_def header_sizes load16_eq w_def [symmetric])
  moreover have "unat (w - 8) = be16_at p 44 - 8" if "8 \<le> be16_at p 44"
    using that w by (simp add: unat_sub word_le_nat_alt)
  ultimately show ?thesis
    by auto
qed

lemma be_word_htons: "be_word (lo16 (htons w)) (hi16 (htons w)) = unat w"
  by (simp add: be_word_def word_nat)

lemma update_len_eq:
  fixes n :: u64
  assumes "48 \<le> length p"
  defines "w \<equiv> ucast (8 + n) :: u16"
  shows "update_ip6_udp_len p n = Some (poke (poke p 4 [hi16 w, lo16 w]) 44 [hi16 w, lo16 w])"
  using assms by (simp add: update_ip6_udp_len_def header_sizes store16_eq)

lemma update_len_fields:
  assumes "48 \<le> length p" "unat n \<le> 65527" and "update_ip6_udp_len p n = Some q"
  shows "be16_at q 4 = 8 + unat n" and "be16_at q 44 = 8 + unat n" and "length q = length p"
    and "i < length p \<Longrightarrow> i \<notin> {4, 5, 44, 45} \<Longrightarrow> q ! i = p ! i"
proof -
  have "unat (ucast (8 + n) :: u16) = 8 + unat n"
    using assms(2)
    by (simp add: unsigned_ucast_eq unat_word_ariths take_bit_nat_eq_self)
  then show "be16_at q 4 = 8 + unat n" "be16_at q 44 = 8 + unat n" "length q = length p"
    using assms(1,3) be_word_htons [of "ucast (8 + n)"]
    by (auto simp: update_len_eq be16_at_poke_disjoint be16_at_poke_same)
  show "i < length p \<Longrightarrow> i \<notin> {4, 5, 44, 45} \<Longrightarrow> q ! i = p ! i"
    using assms(1,3) by (auto simp: update_len_eq nth_poke)
qed

lemma is_ipv6_udp_packet_eq:
  "n \<le> length p \<Longrightarrow> is_ipv6_udp_packet (Some p) n =
    Some (48 \<le> n \<and> drop_bit 4 (p ! 0) = IPv6_VERSION \<and> p ! 6 = IPPROTO_UDP)"
  by (auto simp: is_ipv6_udp_packet_def header_sizes peek_def)

section \<open>Rewriting lengths and checksum\<close>

text \<open>The receiver's check only reads the headers and the announced segment.\<close>

lemma udp_checksum_ok_take:
  assumes "48 \<le> k" "k \<le> length p" "40 + be16_at p 44 \<le> k"
  shows "udp_checksum_ok (take k p) = udp_checksum_ok p" and "be16_at (take k p) 44 = be16_at p 44"
proof -
  show f: "be16_at (take k p) 44 = be16_at p 44"
    using assms(1,2) by (simp add: be16_at_def)
  have "take 16 (drop 8 (take k p)) = take 16 (drop 8 p)" "take 16 (drop 24 (take k p)) = take 16 (drop 24 p)"
      "take (be16_at p 44) (drop 40 (take k p)) = take (be16_at p 44) (drop 40 p)"
    using assms by (simp_all add: drop_take min_def)
  with f show "udp_checksum_ok (take k p) = udp_checksum_ok p"
    by (simp add: udp_checksum_ok_def packet_sum_def udp_segment_def)
qed

text \<open>The two calls that follow every conversion of a payload, for a payload of \<open>n\<close> bytes.\<close>

lemma finish_packet:
  fixes n :: u64
  assumes len: "48 + unat n \<le> length p" and n: "unat n \<le> 65527"
    and hdr: "drop_bit 4 (p ! 0) = IPv6_VERSION" "p ! 6 = IPPROTO_UDP"
  shows "\<exists>p' q. update_ip6_udp_len p n = Some p' \<and> update_udp_checksum p' = Some q \<and> length q = length p
    \<and> (\<forall>i < length p. i \<notin> {4, 5, 44, 45, 46, 47} \<longrightarrow> q ! i = p ! i)
    \<and> be16_at q 4 = 8 + unat n \<and> be16_at q 44 = 8 + unat n
    \<and> udp_checksum_ok (take (48 + unat n) q)
    \<and> is_ipv6_udp_packet (Some (take (48 + unat n) q)) (48 + unat n) = Some True
    \<and> ipv6_udp_payload_len (take (48 + unat n) q) = Some (of_nat (unat n))"
proof -
  have 48: "48 \<le> length p"
    using len by simp
  obtain p' where p': "update_ip6_udp_len p n = Some p'"
    using update_len_eq [OF 48] by blast
  note fields = update_len_fields [OF 48 n p']
  obtain a b where q: "update_udp_checksum p' = Some (poke p' 46 [a, b])"
      "udp_checksum_ok (poke p' 46 [a, b])"
    using update_udp_checksum_correct [of p'] fields len by auto
  define q where "q = poke p' 46 [a, b]"
  have q_len: "length q = length p"
    using fields(3) 48 by (simp add: q_def)
  have q_bytes: "q ! i = p ! i" if "i < length p" "i \<notin> {4, 5, 44, 45, 46, 47}" for i
    using that fields(3) fields(4) [of i] 48 by (auto simp: q_def nth_poke)
  have q_fields: "be16_at q 4 = 8 + unat n" "be16_at q 44 = 8 + unat n"
    using fields 48 by (simp_all add: q_def be16_at_poke_disjoint)
  define t where "t = take (48 + unat n) q"
  have t: "udp_checksum_ok t" "be16_at t 44 = 8 + unat n" "length t = 48 + unat n"
    using udp_checksum_ok_take [of "48 + unat n" q] q(2) q_fields q_len len
    by (simp_all add: t_def flip: q_def)
  have "0 < length p" "6 < length p"
    using 48 by linarith+
  then have "q ! 0 = p ! 0" "q ! 6 = p ! 6"
    using q_bytes by simp_all
  then have "is_ipv6_udp_packet (Some t) (48 + unat n) = Some True"
    using t(3) hdr by (subst is_ipv6_udp_packet_eq) (simp_all add: t_def)
  moreover obtain m where "ipv6_udp_payload_len t = Some m" "unat m = be16_at t 44 - 8"
    using payload_len_eq [of t] t(3) by auto
  then have "ipv6_udp_payload_len t = Some (of_nat (unat n))"
    using t(2) word_eq_of_nat [of m "unat n"] by simp
  ultimately show ?thesis
    using p' q(1) q_len q_bytes q_fields t(1) by (auto simp flip: q_def t_def)
qed

section \<open>Properties\<close>

text \<open>C10: After \<open>update_udp_checksum\<close> on a packet whose UDP length field lies inside the buffer,
  only the two checksum bytes have changed and the receiver's check over pseudo-header and segment
  succeeds; the transmitted checksum is never the reserved value zero.\<close>

theorem update_udp_checksum_valid:
  assumes "48 \<le> length p" "8 \<le> be16_at p 44" "40 + be16_at p 44 \<le> length p"
  shows "\<exists>q. update_udp_checksum p = Some q \<and> length q = length p
    \<and> (\<forall>i < length p. i \<noteq> 46 \<and> i \<noteq> 47 \<longrightarrow> q ! i = p ! i)
    \<and> udp_checksum_ok q \<and> be16_at q 46 \<noteq> 0"
proof -
  obtain a b where "update_udp_checksum p = Some (poke p 46 [a, b])"
      "udp_checksum_ok (poke p 46 [a, b])" "be_word a b \<noteq> 0"
    using update_udp_checksum_correct [OF assms] by blast
  with assms(1) show ?thesis
    by (intro exI [of _ "poke p 46 [a, b]"]) (auto simp: nth_poke be16_at_poke_same)
qed

text \<open>A packet with a ten-byte UDP segment, for the witnesses below.\<close>

definition sample_packet :: memory where
  "sample_packet = [0x60, 0, 0, 0, 0, 10, 17, 64] @ replicate 15 0 @ [1] @ replicate 15 0 @ [2]
     @ [0x16, 0x33, 0x30, 0x39, 0, 10, 0, 0, 0x40, 0x01]"

theorem update_udp_checksum_valid_witness:
  "\<exists>q. update_udp_checksum sample_packet = Some q \<and> length q = length sample_packet
    \<and> (\<forall>i < length sample_packet. i \<noteq> 46 \<and> i \<noteq> 47 \<longrightarrow> q ! i = sample_packet ! i)
    \<and> udp_checksum_ok q \<and> be16_at q 46 \<noteq> 0"
  by (rule update_udp_checksum_valid)
    (simp_all add: sample_packet_def be16_at_def be_word_def nth_append)

text \<open>\<open>update_udp_checksum\<close> stays inside its buffer exactly when both headers and the
  segment announced by the UDP length field do; it never checks this itself.\<close>

lemma update_udp_checksum_in_bounds:
  "(\<exists>q. update_udp_checksum p = Some q) \<longleftrightarrow> 48 \<le> length p \<and> 40 + be16_at p 44 \<le> length p"
  by (rule update_udp_checksum_Some_iff)

text \<open>Writing the length fields for a payload of n bytes (at most 65527) and reading the
  payload length back gives n; both headers announce eight bytes more and no other byte
  changes.\<close>

lemma ip6_udp_len_roundtrip:
  assumes "48 \<le> length p" "unat n \<le> 65527"
  shows "\<exists>q. update_ip6_udp_len p n = Some q \<and> ipv6_udp_payload_len q = Some (ucast n)
    \<and> be16_at q 4 = 8 + unat n \<and> be16_at q 44 = 8 + unat n
    \<and> (\<forall>i < length p. i \<notin> {4, 5, 44, 45} \<longrightarrow> q ! i = p ! i)"
proof -
  obtain q where q: "update_ip6_udp_len p n = Some q"
    using update_len_eq [OF assms(1)] by blast
  note fields = update_len_fields [OF assms q]
  obtain m where m: "ipv6_udp_payload_len q = Some m" "unat m = be16_at q 44 - 8"
    using payload_len_eq [of q] assms(1) fields(3) by auto
  have "unat m = unat (ucast n :: u16)"
    using assms(2) fields(2) m(2) by (simp add: unsigned_ucast_eq take_bit_nat_eq_self)
  then have "m = ucast n"
    by (simp only: unsigned_word_eqI)
  with q m(1) fields show ?thesis
    by blast
qed

lemma ip6_udp_len_roundtrip_witness:
  "\<exists>q. update_ip6_udp_len sample_packet 2 = Some q \<and> ipv6_udp_payload_len q = Some (ucast (2 :: u64))
    \<and> be16_at q 4 = 8 + unat (2 :: u64) \<and> be16_at q 44 = 8 + unat (2 :: u64)
    \<and> (\<forall>i < length sample_packet. i \<notin> {4, 5, 44, 45} \<longrightarrow> q ! i = sample_packet ! i)"
  by (rule ip6_udp_len_roundtrip) (simp_all add: sample_packet_def)

end
