(* ===== verification/C_Lib.thy ===== *)
theory C_Lib
  imports Prelude "HOL-Library.Char_ord"
begin

text \<open>
  The functions of the C library that the program calls on strings: decimal conversion in both
  directions (\<open>atoi\<close>, \<open>%u\<close> and \<open>%lu\<close>), white space, and 32-bit network byte order. A C
  string is the character list before its terminating NUL.
\<close>

section \<open>Characters and decimal numbers\<close>

definition is_space :: "char \<Rightarrow> bool" where
  "is_space c \<longleftrightarrow> of_char c \<in> {9, 10, 11, 12, 13, 32 :: nat}"

definition is_digit :: "char \<Rightarrow> bool" where
  "is_digit c \<longleftrightarrow> 48 \<le> (of_char c :: nat) \<and> (of_char c :: nat) \<le> 57"

definition digit_val :: "char \<Rightarrow> nat" where
  "digit_val c = of_char c - 48"

definition digit_char :: "nat \<Rightarrow> char" where
  "digit_char d = char_of (48 + d)"

fun num_prefix :: "nat \<Rightarrow> string \<Rightarrow> nat" where
  "num_prefix n [] = n"
| "num_prefix n (c # cs) = (if is_digit c then num_prefix (10 * n + digit_val c) cs else n)"

text \<open>
  \<open>atoi\<close>: skip white space, an optional sign, then digits up to the first other character.
  The value is the mathematical one; C leaves values outside \<open>int\<close> undefined.
\<close>

definition atoi :: "string \<Rightarrow> int" where
  "atoi s =
     (case dropWhile is_space s of
        [] \<Rightarrow> 0
      | c # cs \<Rightarrow>
          if c = CHR ''-'' then - int (num_prefix 0 cs)
          else if c = CHR ''+'' then int (num_prefix 0 cs)
          else int (num_prefix 0 (c # cs)))"

text \<open>The decimal representation printed by \<open>%u\<close>, \<open>%lu\<close>: no leading zeros.\<close>

fun show_nat :: "nat \<Rightarrow> string" where
  "show_nat n = (if n < 10 then [digit_char n] else show_nat (n div 10) @ [digit_char (n mod 10)])"

declare show_nat.simps [simp del]

lemma of_char_digit_char: "d < 10 \<Longrightarrow> (of_char (digit_char d) :: nat) = 48 + d"
  by (simp add: digit_char_def of_char_of)

lemma digit_char_simps [simp]:
  "d < 10 \<Longrightarrow> is_digit (digit_char d)"
  "d < 10 \<Longrightarrow> digit_val (digit_char d) = d"
  "d < 10 \<Longrightarrow> \<not> is_space (digit_char d)"
  by (auto simp: is_digit_def digit_val_def is_space_def of_char_digit_char)

lemma digit_not_space: "is_digit c \<Longrightarrow> \<not> is_space c"
  by (auto simp: is_digit_def is_space_def)

lemma digit_not_sign: "is_digit c \<Longrightarrow> c \<noteq> CHR ''-'' \<and> c \<noteq> CHR ''+''"
  by (auto simp: is_digit_def)

lemma show_nat_digits: "c \<in> set (show_nat n) \<Longrightarrow> is_digit c"
proof (induction n rule: show_nat.induct)
  case (1 n)
  then show ?case
    by (subst (asm) (2) show_nat.simps) (auto split: if_splits)
qed

lemma show_nat_nonempty [simp]: "show_nat n \<noteq> []"
  by (subst show_nat.simps) simp

lemma num_prefix_append_digits:
  "(\<forall>c \<in> set ds. is_digit c) \<Longrightarrow> num_prefix k (ds @ rest) = num_prefix (num_prefix k ds) rest"
  by (induction ds arbitrary: k) auto

lemma num_prefix_show_nat: "num_prefix k (show_nat n) = k * 10 ^ length (show_nat n) + n"
proof (induction n arbitrary: k rule: show_nat.induct)
  case (1 n)
  show ?case
  proof (cases "n < 10")
    case True
    then show ?thesis by (simp add: show_nat.simps [of n])
  next
    case False
    then have "num_prefix k (show_nat n)
        = 10 * (k * 10 ^ length (show_nat (n div 10)) + n div 10) + n mod 10"
      using 1 show_nat_digits
      by (simp add: show_nat.simps [of n] num_prefix_append_digits)
    also have "\<dots> = k * 10 ^ length (show_nat n) + n"
      using False by (simp add: show_nat.simps [of n] algebra_simps)
    finally show ?thesis .
  qed
qed

lemma num_prefix_stop: "\<not> is_digit c \<Longrightarrow> num_prefix k (c # cs) = k"
  by simp

lemma atoi_show_nat: "atoi (show_nat n) = int n"
proof -
  obtain c cs where c: "show_nat n = c # cs"
    by (cases "show_nat n") auto
  then have "is_digit c"
    using show_nat_digits by (metis list.set_intros(1))
  then show ?thesis
    using c num_prefix_show_nat [of 0 n]
    by (simp add: atoi_def digit_not_space digit_not_sign del: num_prefix.simps)
qed

section \<open>32-bit network byte order\<close>

text \<open>The four bytes in memory of \<open>htonl(w)\<close>.\<close>

definition htonl_bytes :: "u32 \<Rightarrow> memory" where
  "htonl_bytes w = [ucast (drop_bit 24 w), ucast (drop_bit 16 w), ucast (drop_bit 8 w), ucast w]"

lemma length_htonl_bytes [simp]: "length (htonl_bytes w) = 4"
  by (simp add: htonl_bytes_def)

lemma unat_shifted_byte: "unat (ucast (drop_bit k (w :: u32)) :: byte) = unat w div 2 ^ k mod 256"
  by (simp only: unsigned_ucast_eq unat_drop_bit_eq) (simp add: drop_bit_eq_div take_bit_eq_mod)

lemma unat_low_byte: "unat (ucast (w :: u32) :: byte) = unat w mod 256"
  by (simp only: unsigned_ucast_eq) (simp add: take_bit_eq_mod)

end
