(* ===== verification/Net_Helper.thy ===== *)
theory Net_Helper
  imports Net_Udp C_Lib
begin

text \<open>
  The packet builder of \<open>libs/commons/src/net_helper.c\<close>: its own checksum over a pseudo-header
  copied into a temporary buffer, summed in the byte order of the host, and
  \<open>generate_ipv6_udp_packet\<close>. \<open>inet_pton\<close> is a parameter: None for a string it rejects (it then
  leaves the destination alone), otherwise the 16 address bytes.
\<close>

section \<open>Definitions\<close>

fun checksum_loop :: "u64 \<Rightarrow> memory \<Rightarrow> nat \<Rightarrow> u64 ub" where
  "checksum_loop s p n =
     (if n > 1 then
        do { w \<leftarrow> load16 p 0; checksum_loop (s + ucast w) (drop 2 p) (n - 2) }
      else if n > 0 then do { b \<leftarrow> peek p 0; Some (s + ucast b) }
      else Some s)"

declare checksum_loop.simps [simp del]

definition checksum :: "memory \<Rightarrow> int \<Rightarrow> u16 ub" where
  "checksum buffer len =
     do {
       s \<leftarrow> checksum_loop 0 buffer (nat len);
       let s = fold_carries s;
       Some (ucast (NOT s))
     }"

definition helper_udp_checksum ::
    "memory \<Rightarrow> memory \<Rightarrow> memory \<Rightarrow> memory \<Rightarrow> nat \<Rightarrow> u16 ub" where
  "helper_udp_checksum src dst udp payload payload_len =
     do {
       let pseudo_header = replicate (40 + sizeof_udphdr + payload_len) (0 :: byte);
       src16 \<leftarrow> load src 0 16;
       pseudo_header \<leftarrow> store pseudo_header 0 src16;
       dst16 \<leftarrow> load dst 0 16;
       pseudo_header \<leftarrow> store pseudo_header 16 dst16;
       pseudo_header \<leftarrow> store pseudo_header 32 (htonl_bytes (of_nat (sizeof_udphdr + payload_len)));
       pseudo_header \<leftarrow> store pseudo_header 39 [IPPROTO_UDP];
       udphdr \<leftarrow> load udp 0 sizeof_udphdr;
       pseudo_header \<leftarrow> store pseudo_header 40 udphdr;
       data \<leftarrow> load payload 0 payload_len;
       pseudo_header \<leftarrow> store pseudo_header (40 + sizeof_udphdr) data;
       checksum pseudo_header (int (40 + sizeof_udphdr + payload_len))
     }"

definition write_addr :: "memory \<Rightarrow> nat \<Rightarrow> memory option \<Rightarrow> memory ub" where
  "write_addr packet off addr =
     (case addr of None \<Rightarrow> Some packet | Some bs \<Rightarrow> store packet off bs)"

definition generate_ipv6_udp_packet ::
    "(string \<Rightarrow> memory option) \<Rightarrow> memory \<Rightarrow> string \<Rightarrow> string \<Rightarrow> string \<Rightarrow> string \<Rightarrow>
     memory \<Rightarrow> nat \<Rightarrow> (int \<times> memory) ub" where
  "generate_ipv6_udp_packet inet_pton packet src_addr src_port dst_addr dst_port payload payload_size =
     do {
       packet \<leftarrow> store packet 0 (replicate (40 + 8 + payload_size) 0);
       packet \<leftarrow> store packet 0 [push_bit 4 6];
       flow \<leftarrow> load packet 0 4;
       packet \<leftarrow> store packet 0 (map2 (OR) flow (htonl_bytes 0x6724d));
       packet \<leftarrow> store16 packet 4 (htons (of_nat (8 + payload_size)));
       packet \<leftarrow> store packet 6 [IPPROTO_UDP];
       packet \<leftarrow> store packet 7 [64];
       packet \<leftarrow> write_addr packet 8 (inet_pton src_addr);
       packet \<leftarrow> write_addr packet 24 (inet_pton dst_addr);
       packet \<leftarrow> store16 packet 40 (htons (of_int (atoi src_port)));
       packet \<leftarrow> store16 packet 42 (htons (of_int (atoi dst_port)));
       packet \<leftarrow> store16 packet 44 (htons (of_nat (8 + payload_size)));
       packet \<leftarrow> store16 packet 46 0;
       data \<leftarrow> load payload 0 payload_size;
       packet \<leftarrow> store packet (40 + 8) data;
       Some (0, packet)
     }"

section \<open>The native accumulation loop\<close>

lemma ucast_mk16: "(ucast (mk16 b a) :: u64) = of_nat (le_word a b)"
proof -
  have "(ucast (mk16 b a) :: u64) = of_nat (unat (mk16 b a))"
    by simp
  then show ?thesis
    by (simp add: unat_mk16 le_word_def add.commute)
qed

interpretation le: csum_acc le_word "\<lambda>a. le_word a 0" checksum_loop
proof
  fix a b :: byte and s m n
  show "checksum_loop s m 0 = Some s"
    by (subst checksum_loop.simps) simp
  show "checksum_loop s (a # m) 1 = Some (s + of_nat (le_word a 0))"
    by (subst checksum_loop.simps) (simp add: peek_def le_word_def)
  show "checksum_loop s (a # b # m) (Suc (Suc n)) = checksum_loop (s + of_nat (le_word a b)) m n"
    by (subst checksum_loop.simps) (simp add: load16_def peek_def ucast_mk16)
  show "checksum_loop s [] (Suc n) = None"
    by (subst checksum_loop.simps) (simp add: peek_def load16_def)
  show "checksum_loop s [a] (Suc (Suc n)) = None"
    by (subst checksum_loop.simps) (simp add: peek_def load16_def)
  show "le_word a b \<le> 65535" and "le_word a 0 \<le> 65535"
    using le_word_less [of a b] le_word_less [of a 0] by simp_all
qed

text \<open>Swapping the bytes of the big-endian result gives the native one.\<close>

lemma ones_value_bswap: "ones_value (le_sum bs) = unat (bswap16 (of_nat (ones_value (be_sum bs))))"
  if "0 < be_sum bs" and "0 < le_sum bs"
proof (rule ones_value_unique)
  define v where "v = ones_value (be_sum bs)"
  define w :: u16 where "w = of_nat v"
  have v: "v < 65536" "0 < v" "v mod 65535 = be_sum bs mod 65535"
    using that ones_value_less [of "be_sum bs"] ones_value_cong [of "be_sum bs"]
    by (simp_all add: v_def ones_value_def)
  have w: "unat w = v"
    using v(1) by (simp add: w_def unat_of_nat_small)
  have swap: "unat (bswap16 w) = 256 * (v mod 256) + v div 256"
    by (simp add: unat_bswap16 w)
  have "v = 256 * (v div 256) + v mod 256"
    by simp
  then have "256 * v = 65535 * (v div 256) + (256 * (v mod 256) + v div 256)"
    by linarith
  then have "(256 * (v mod 256) + v div 256) mod 65535 = 256 * v mod 65535"
    by (metis mod_mult_self4)
  also have "\<dots> = 256 * be_sum bs mod 65535"
    using v(3) mod_mult_right_eq [of 256 v 65535] mod_mult_right_eq [of 256 "be_sum bs" 65535] by simp
  also have "\<dots> = le_sum bs mod 65535"
    by (simp only: le_sum_cong)
  finally show "unat (bswap16 (of_nat (ones_value (be_sum bs)))) mod 65535 = le_sum bs mod 65535"
    using swap by (simp add: w_def v_def)
  have "256 * (v mod 256) + v div 256 \<noteq> 0"
    using v(2) by auto
  then show "0 < unat (bswap16 (of_nat (ones_value (be_sum bs))))"
    using swap by (simp add: w_def v_def)
  show "unat (bswap16 (of_nat (ones_value (be_sum bs)))) < 65536"
    by (rule u16_less)
qed (use that in simp)

section \<open>The two checksum routines agree\<close>

definition pseudo_header_bytes :: "memory \<Rightarrow> memory \<Rightarrow> memory \<Rightarrow> memory \<Rightarrow> memory" where
  "pseudo_header_bytes src dst udp payload =
     src @ dst @ htonl_bytes (of_nat (8 + length payload)) @ [0, 0, 0, 17] @ udp @ payload"

lemma poke_at_append: "length xs = i \<Longrightarrow> length bs \<le> length ys \<Longrightarrow>
    poke (xs @ ys) i bs = xs @ bs @ drop (length bs) ys"
  by (simp add: poke_def)

lemma store_next: "length xs = i \<Longrightarrow> length bs \<le> n \<Longrightarrow>
    store (xs @ replicate n 0) i bs = Some (xs @ bs @ replicate (n - length bs) 0)"
  by (simp add: store_def poke_at_append)

lemma helper_udp_checksum_eq:
  assumes "length src = 16" "length dst = 16" "length udp = 8" "n \<le> length payload"
  shows "helper_udp_checksum src dst udp payload n =
    checksum (pseudo_header_bytes src dst udp (take n payload)) (int (48 + n))"
proof -
  define h where "h = htonl_bytes (of_nat (8 + n))"
  have h: "length h = 4" by (simp add: h_def)
  have s1: "store (replicate (48 + n) 0) 0 src = Some (src @ replicate (32 + n) 0)"
    using store_next [of "[]" 0 src "48 + n"] assms by simp
  have s2: "store (src @ replicate (32 + n) 0) 16 dst = Some (src @ dst @ replicate (16 + n) 0)"
    using store_next [of src 16 dst "32 + n"] assms by simp
  have s3: "store (src @ dst @ replicate (16 + n) 0) 32 h =
      Some (src @ dst @ h @ replicate (12 + n) 0)"
    using store_next [of "src @ dst" 32 h "16 + n"] assms h by simp
  have "replicate (12 + n) (0 :: byte) = replicate 3 0 @ replicate (9 + n) 0"
    by (simp flip: replicate_add)
  then have s4: "store (src @ dst @ h @ replicate (12 + n) 0) 39 [17] =
      Some (src @ dst @ h @ [0, 0, 0, 17] @ replicate (8 + n) 0)"
    using store_next [of "src @ dst @ h @ replicate 3 0" 39 "[17]" "9 + n"] assms h
    by (simp add: numeral_3_eq_3)
  have s5: "store (src @ dst @ h @ [0, 0, 0, 17] @ replicate (8 + n) 0) 40 udp =
      Some (src @ dst @ h @ [0, 0, 0, 17] @ udp @ replicate n 0)"
    using store_next [of "src @ dst @ h @ [0, 0, 0, 17]" 40 udp "8 + n"] assms h by simp
  have s6: "store (src @ dst @ h @ [0, 0, 0, 17] @ udp @ replicate n 0) 48 (take n payload) =
      Some (src @ dst @ h @ [0, 0, 0, 17] @ udp @ take n payload)"
    using store_next [of "src @ dst @ h @ [0, 0, 0, 17] @ udp" 48 "take n payload" n] assms h
    by simp
  show ?thesis
    using assms s1 s2 s3 s4 s5 s6
    by (simp add: helper_udp_checksum_def header_sizes load_def IPPROTO_UDP_def
        pseudo_header_bytes_def h_def add.commute min_def)
qed

lemma be_sum_htonl: "k < 2 ^ 32 \<Longrightarrow> be_sum (htonl_bytes (of_nat k)) = k div 65536 + k mod 65536"
proof -
  assume k: "k < 2 ^ 32"
  then have u: "unat (of_nat k :: u32) = k"
    by (simp add: unat_of_nat_small)
  have "k div 65536 div 256 = k div 2 ^ 24" "k div 2 ^ 24 < 256"
    using k by (simp_all add: div_mult2_eq [symmetric])
  then have "256 * (k div 2 ^ 24 mod 256) + k div 2 ^ 16 mod 256 = k div 65536"
    using mult_div_mod_eq [of 256 "k div 65536"] by simp
  moreover have "256 * (k div 2 ^ 8 mod 256) + k mod 256 = k mod 65536"
    using mod_mult2_eq [of k 256 256] by simp
  ultimately show ?thesis
    by (simp only: htonl_bytes_def sum_words.simps be_word_def unat_shifted_byte)
      (simp only: unat_low_byte u add_0_right add.assoc)
qed

lemma pseudo_header_sum:
  assumes "length src = 16" "length dst = 16" "length udp = 8" "8 + length payload < 2 ^ 32"
  shows "be_sum (pseudo_header_bytes src dst udp payload) =
    pseudo_sum src dst (8 + length payload) (udp @ payload)"
proof -
  have "be_sum (htonl_bytes (of_nat (8 + length payload))) =
      (8 + length payload) div 65536 + (8 + length payload) mod 65536"
    by (rule be_sum_htonl) (rule assms(4))
  then show ?thesis
    unfolding pseudo_header_bytes_def pseudo_sum_def
    using assms by (simp add: sum_words_append be_word_def del: of_nat_add)
qed

lemma zero_complement: "NOT v = 0 \<longleftrightarrow> unat v = 65535" for v :: u16
  using unsigned_eq_0_iff [of "NOT v", where ?'a = nat] u16_less [of v]
  unfolding unat_NOT_u16 by linarith

lemma helper_udp_checksum_value:
  fixes src :: memory
  assumes "length src = 16" "length dst = 16" "length udp = 8"
    and "n \<le> length payload" "8 + n < 2 ^ 32"
  defines "v \<equiv> of_nat (ones_value (pseudo_sum src dst (8 + n) (udp @ take n payload))) :: u16"
  shows "helper_udp_checksum src dst udp payload n = Some (bswap16 (NOT v))"
proof -
  define ph where "ph = pseudo_header_bytes src dst udp (take n payload)"
  have len: "length ph = 48 + n"
    using assms by (simp add: ph_def pseudo_header_bytes_def)
  have t: "be_sum ph = pseudo_sum src dst (8 + n) (udp @ take n payload)"
    using pseudo_header_sum [of src dst udp "take n payload"] assms by (simp add: ph_def)
  then have pos: "0 < be_sum ph"
    by (simp add: pseudo_sum_def)
  define f where "f = fold_carries (of_nat (le_sum ph))"
  have "le_sum ph \<le> 65535 * (48 + n)"
    using le.sum_bound [of ph] by (simp only: len)
  then have "le_sum ph < 2 ^ 64"
    using assms(5) by simp
  then have "unat f = ones_value (le_sum ph)"
    by (simp add: f_def unat_fold_carries unat_of_nat_small)
  also have "\<dots> = unat (bswap16 v)"
    using ones_value_bswap [of ph] pos be_sum_0_iff [of ph] by (simp add: t v_def)
  finally have f: "unat f = unat (bswap16 v)" .
  have "unat (ucast (NOT f) :: u16) = unat (NOT (bswap16 v))"
    using f u16_less [of "bswap16 v"] by (simp only: unat_NOT_16 unat_NOT_u16)
  then have "(ucast (NOT f) :: u16) = bswap16 (NOT v)"
    by (simp only: unsigned_word_eqI NOT_bswap16)
  moreover have "checksum ph (int (48 + n)) = Some (ucast (NOT f))"
    using len by (simp add: checksum_def le.acc_sum f_def nat_int_add)
  ultimately show ?thesis
    using helper_udp_checksum_eq [OF assms(1-4)] by (simp add: ph_def)
qed



section \<open>The generated packet\<close>

lemma store_segment:
  "length xs = i \<Longrightarrow> length zs = length bs \<Longrightarrow> store (xs @ zs @ ys) i bs = Some (xs @ bs @ ys)"
  by (simp add: store_def poke_def)

definition packet_bytes ::
    "memory \<Rightarrow> memory \<Rightarrow> u16 \<Rightarrow> u16 \<Rightarrow> memory \<Rightarrow> memory" where
  "packet_bytes src dst sport dport data =
     (let len = of_nat (8 + length data) in
      [0x60, 0x06, 0x72, 0x4d, hi16 len, lo16 len, 17, 64] @ src @ dst @
      [hi16 sport, lo16 sport, hi16 dport, lo16 dport, hi16 len, lo16 len, 0, 0] @ data)"

lemma drop_add: "drop (i + j) xs = drop j (drop i xs)"
  by (simp add: add.commute)

text \<open>The writes of the two headers, one field at a time; \<open>y\<close> is what follows them.\<close>

lemma ip6_header_stores:
  assumes "length src = 16" "length dst = 16"
  shows "store ([0,0,0,0,0,0,0,0] @ y) 0 [0x60] = Some ([0x60,0,0,0,0,0,0,0] @ y)"
    and "load ([0x60,0,0,0,0,0,0,0] @ y) 0 4 = Some [0x60,0,0,0]"
    and "map2 (OR) [0x60,0,0,0] (htonl_bytes 0x6724d) = [0x60, 0x06, 0x72, 0x4d]"
    and "store ([0x60,0,0,0,0,0,0,0] @ y) 0 [0x60, 0x06, 0x72, 0x4d] =
      Some ([0x60, 0x06, 0x72, 0x4d,0,0,0,0] @ y)"
    and "store16 ([0x60, 0x06, 0x72, 0x4d,0,0,0,0] @ y) 4 (htons len) =
      Some ([0x60, 0x06, 0x72, 0x4d,hi16 len,lo16 len,0,0] @ y)"
    and "store ([0x60, 0x06, 0x72, 0x4d,hi16 len,lo16 len,0,0] @ y) 6 [17] =
      Some ([0x60, 0x06, 0x72, 0x4d,hi16 len,lo16 len,17,0] @ y)"
    and "store ([0x60, 0x06, 0x72, 0x4d,hi16 len,lo16 len,17,0] @ y) 7 [64] =
      Some ([0x60, 0x06, 0x72, 0x4d,hi16 len,lo16 len,17,64] @ y)"
    and "length h = 8 \<Longrightarrow> store (h @ replicate 16 0 @ y) 8 src = Some (h @ src @ y)"
    and "length h = 8 \<Longrightarrow> store (h @ src @ replicate 16 0 @ y) 24 dst = Some (h @ src @ dst @ y)"
  using assms store_segment [of "h @ src" 24 "replicate 16 0" dst y]
  by (simp_all add: store_def store16_def poke_def load_def htonl_bytes_def drop_bit_eq_div)

lemma udp_header_stores:
  assumes "length h = 40"
  shows "store16 (h @ [0,0,0,0,0,0,0,0] @ y) 40 (htons a) =
      Some (h @ [hi16 a, lo16 a, 0, 0, 0, 0, 0, 0] @ y)"
    and "store16 (h @ [hi16 a, lo16 a, 0, 0, 0, 0, 0, 0] @ y) 42 (htons b) =
      Some (h @ [hi16 a, lo16 a, hi16 b, lo16 b, 0, 0, 0, 0] @ y)"
    and "store16 (h @ [hi16 a, lo16 a, hi16 b, lo16 b, 0, 0, 0, 0] @ y) 44 (htons c) =
      Some (h @ [hi16 a, lo16 a, hi16 b, lo16 b, hi16 c, lo16 c, 0, 0] @ y)"
    and "store16 (h @ [hi16 a, lo16 a, hi16 b, lo16 b, hi16 c, lo16 c, 0, 0] @ y) 46 0 =
      Some (h @ [hi16 a, lo16 a, hi16 b, lo16 b, hi16 c, lo16 c, 0, 0] @ y)"
    and "length z = length data \<Longrightarrow>
      store (h @ [hi16 a, lo16 a, hi16 b, lo16 b, hi16 c, lo16 c, 0, 0] @ z @ y) 48 data =
      Some (h @ [hi16 a, lo16 a, hi16 b, lo16 b, hi16 c, lo16 c, 0, 0] @ data @ y)"
  using assms
  by (simp_all add: store16_def store_def poke_def lo16_def [of 0] hi16_def [of 0] drop_add)

lemma generate_packet_eq:
  assumes cap: "48 + n \<le> length packet" and n: "n \<le> length payload"
    and src: "inet_pton src_addr = Some src" "length src = 16"
    and dst: "inet_pton dst_addr = Some dst" "length dst = 16"
  shows "generate_ipv6_udp_packet inet_pton packet src_addr sp dst_addr dp payload n =
    Some (0, packet_bytes src dst (of_int (atoi sp)) (of_int (atoi dp)) (take n payload)
      @ drop (48 + n) packet)"
proof -
  define rest where "rest = drop (48 + n) packet"
  define len :: u16 where "len = of_nat (8 + n)"
  define a :: u16 where "a = of_int (atoi sp)"
  define b :: u16 where "b = of_int (atoi dp)"
  let ?Z = "\<lambda>k. replicate k (0 :: byte)"
  have z8: "?Z 8 = [0, 0, 0, 0, 0, 0, 0, 0]"
    by (simp add: numeral_eq_Suc)
  have "?Z (48 + n) = ?Z 8 @ ?Z 16 @ ?Z 16 @ ?Z 8 @ ?Z n"
    by (simp flip: replicate_add)
  then have 1: "store packet 0 (?Z (48 + n)) = Some (?Z 8 @ ?Z 16 @ ?Z 16 @ ?Z 8 @ ?Z n @ rest)"
    using cap by (simp add: store_def poke_def rest_def)
  define h where "h = [0x60, 0x06, 0x72, 0x4d, hi16 len, lo16 len, 17, 64] @ src @ dst"
  have h: "length h = 40" "[0x60, 0x06, 0x72, 0x4d, hi16 len, lo16 len, 17, 64] @ src @ dst @ y = h @ y" for y
    using src dst by (simp_all add: h_def)
  have data: "load payload 0 n = Some (take n payload)" "length (?Z n) = length (take n payload)"
    using n by (simp_all add: load_def)
  have norms: "push_bit 4 6 = (0x60 :: byte)" "40 + 8 = (48 :: nat)" "htons (of_nat (8 + n)) = htons len"
      "length [0x60, 0x06, 0x72, 0x4d, hi16 len, lo16 len, 17, 64] = 8"
    by (simp_all add: len_def)
  have result: "packet_bytes src dst a b (take n payload) @ rest =
      h @ [hi16 a, lo16 a, hi16 b, lo16 b, hi16 len, lo16 len, 0, 0] @ take n payload @ rest"
    using n by (simp add: packet_bytes_def Let_def len_def min_def h_def)
  show ?thesis
    unfolding generate_ipv6_udp_packet_def write_addr_def src dst IPPROTO_UDP_def
      a_def [symmetric] b_def [symmetric] rest_def [symmetric] result
    by (simp only: 1 z8 norms ip6_header_stores [OF src(2) dst(2)] h udp_header_stores [OF h(1)]
        data Option.bind.bind_lunit option.case)
qed

lemma generated_packet_facts:
  assumes "48 + n \<le> length packet" and "n \<le> length payload" and "n \<le> 65527"
    and "inet_pton src_addr = Some src" "length src = 16"
    and "inet_pton dst_addr = Some dst" "length dst = 16"
  shows "\<exists>q. generate_ipv6_udp_packet inet_pton packet src_addr sp dst_addr dp payload n = Some (0, q)
    \<and> length q = length packet \<and> drop (48 + n) q = drop (48 + n) packet
    \<and> is_ipv6_udp_packet (Some q) (48 + n) = Some True
    \<and> be16_at q 4 = 8 + n \<and> ipv6_udp_payload_len q = Some (of_nat n)
    \<and> take 16 (drop 8 q) = src \<and> take 16 (drop 24 q) = dst
    \<and> be16_at q 40 = nat (atoi sp mod 65536) \<and> be16_at q 42 = nat (atoi dp mod 65536)
    \<and> be16_at q 46 = 0 \<and> take n (drop 48 q) = take n payload"
proof -
  define a :: u16 where "a = of_int (atoi sp)"
  define b :: u16 where "b = of_int (atoi dp)"
  define len :: u16 where "len = of_nat (8 + n)"
  define q where "q = packet_bytes src dst a b (take n payload) @ drop (48 + n) packet"
  have len: "unat len = 8 + n"
    unfolding len_def using assms(3) by (intro unat_of_nat_small) simp
  have q: "q = [0x60, 0x06, 0x72, 0x4d, hi16 len, lo16 len, 17, 64] @ src @ dst @
      [hi16 a, lo16 a, hi16 b, lo16 b, hi16 len, lo16 len, 0, 0] @ take n payload @ drop (48 + n) packet"
    using assms(2) by (simp add: q_def packet_bytes_def Let_def len_def min_def)
  have size: "length q = length packet"
    using assms by (simp add: q)
  have "be16_at q 4 = 8 + n" "be16_at q 44 = 8 + n"
      "be16_at q 40 = unat a" "be16_at q 42 = unat b" "be16_at q 46 = 0"
    using assms len be_word_htons [of len] be_word_htons [of a] be_word_htons [of b]
    by (simp_all add: q be16_at_def nth_append be_word_def)
  moreover obtain m where "ipv6_udp_payload_len q = Some m" "unat m = be16_at q 44 - 8"
    using payload_len_eq [of q] assms(1) size by force
  moreover have "is_ipv6_udp_packet (Some q) (48 + n) = Some True"
    using assms(1) size by (subst is_ipv6_udp_packet_eq)
      (simp_all add: q nth_append IPv6_VERSION_def IPPROTO_UDP_def drop_bit_eq_div)
  moreover have "take 16 (drop 8 q) = src" "take 16 (drop 24 q) = dst"
      "take n (drop 48 q) = take n payload" "drop (48 + n) q = drop (48 + n) packet"
    using assms by (simp_all add: q drop_add [of 48 n])
  moreover have "unat (of_int k :: u16) = nat (k mod 65536)" for k
    by (simp add: unsigned_of_int take_bit_eq_mod)
  moreover have "generate_ipv6_udp_packet inet_pton packet src_addr sp dst_addr dp payload n = Some (0, q)"
    by (simp only: generate_packet_eq [OF assms(1,2,4,5,6,7)] q_def a_def b_def)
  ultimately show ?thesis
    using size word_eq_of_nat [of m n] by (simp add: a_def b_def)
qed


text \<open>An \<open>inet_pton\<close> that knows the loopback address only, for the witness.\<close>

definition loopback_pton :: "string \<Rightarrow> memory option" where
  "loopback_pton s = (if s = ''::1'' then Some (replicate 15 0 @ [1]) else None)"


end
