(* ===== verification/Platform_Timers.thy ===== *)
theory Platform_Timers
  imports Prelude
begin

text \<open>
  Timers, clocks and the small utilities of \<open>platforms/linux/src/platform.c\<close>.

  The POSIX timers the code drives are modelled by the state \<open>os\<close>: which timer ids exist and, for
  each, the time it is armed with (None for a disarmed timer). \<open>timer_settime\<close> with a zero
  \<open>it_value\<close> disarms, as POSIX specifies. Failures of the system calls are parameters.
\<close>

section \<open>Definitions\<close>

type_synonym timer_id = nat

record timespec =
  tv_sec :: u64
  tv_nsec :: u64

definition timespec_zero :: timespec where
  "timespec_zero = \<lparr>tv_sec = 0, tv_nsec = 0\<rparr>"

record ('cb, 'ctx) timer_event =
  timerid :: timer_id
  duration :: timespec
  callback :: 'cb
  cb_context :: "'ctx option"
  started :: bool

record os_timers =
  created :: "timer_id list"
  armed :: "timer_id \<rightharpoonup> timespec"

text \<open>\<open>timer_create\<close> returns the new id, which starts disarmed, or fails (None).\<close>

definition timer_create :: "timer_id option \<Rightarrow> os_timers \<Rightarrow> os_timers" where
  "timer_create new os =
     (case new of
        None \<Rightarrow> os
      | Some t \<Rightarrow> os\<lparr>created := t # created os, armed := (armed os)(t := None)\<rparr>)"

text \<open>\<open>timer_settime\<close> fails when \<open>ok\<close> is false or the timer does not exist.\<close>

definition timer_settime ::
    "bool \<Rightarrow> timer_id \<Rightarrow> timespec \<Rightarrow> os_timers \<Rightarrow> bool \<times> os_timers" where
  "timer_settime ok t d os =
     (if ok \<and> t \<in> set (created os)
      then (True, os\<lparr>armed := (armed os)(t := if d = timespec_zero then None else Some d)\<rparr>)
      else (False, os))"

definition timer_delete :: "timer_id \<Rightarrow> os_timers \<Rightarrow> os_timers" where
  "timer_delete t os = os\<lparr>created := removeAll t (created os), armed := (armed os)(t := None)\<rparr>"

text \<open>The table of timers to delete at exit.\<close>

record cleaner =
  timers :: "timer_id list"
  nb_timers :: nat
  exit_handlers :: nat

definition MAX_CLEANABLE_TIMERS :: nat where
  "MAX_CLEANABLE_TIMERS = 32"

definition cleaner_init :: cleaner where
  "cleaner_init = \<lparr>timers = replicate MAX_CLEANABLE_TIMERS 0, nb_timers = 0, exit_handlers = 0\<rparr>"

definition timer_cleaner_register :: "timer_id \<Rightarrow> cleaner \<Rightarrow> cleaner" where
  "timer_cleaner_register t c =
     (let add = \<lambda>c. c\<lparr>timers := (timers c)[nb_timers c := t], nb_timers := nb_timers c + 1\<rparr> in
      if nb_timers c = 0 then add (c\<lparr>exit_handlers := exit_handlers c + 1\<rparr>)
      else if nb_timers c \<ge> MAX_CLEANABLE_TIMERS then c
      else add c)"

definition timer_cleaner :: "cleaner \<Rightarrow> os_timers \<Rightarrow> os_timers" where
  "timer_cleaner c os = fold (\<lambda>i. timer_delete (timers c ! i)) [0 ..< nb_timers c] os"

text \<open>
  \<open>TimerInit\<close>: \<open>sigaction_ok\<close> and the outcome of \<open>timer_create\<close> are given; on a failed creation
  the old \<open>timerid\<close> stays and is registered all the same.
\<close>

definition TimerInit ::
    "bool \<Rightarrow> timer_id option \<Rightarrow> 'cb \<Rightarrow> ('cb, 'ctx) timer_event \<times> os_timers \<times> cleaner \<Rightarrow>
     ('cb, 'ctx) timer_event \<times> os_timers \<times> cleaner" where
  "TimerInit sigaction_ok new cb st =
     (case st of (obj, os, c) \<Rightarrow>
        let obj = obj\<lparr>duration := timespec_zero, callback := cb, cb_context := None, started := False\<rparr> in
        if \<not> sigaction_ok then (obj, os, c)
        else let
            os = timer_create new os;
            obj = (case new of None \<Rightarrow> obj | Some t \<Rightarrow> obj\<lparr>timerid := t\<rparr>)
          in (obj, os, timer_cleaner_register (timerid obj) c))"

definition TimerSetValue :: "u32 \<Rightarrow> ('cb, 'ctx) timer_event \<Rightarrow> ('cb, 'ctx) timer_event" where
  "TimerSetValue v obj =
     obj\<lparr>duration := \<lparr>tv_sec = ucast (v div 1000), tv_nsec = ucast ((v mod 1000) * 1000000)\<rparr>\<rparr>"

definition TimerStart ::
    "bool \<Rightarrow> ('cb, 'ctx) timer_event \<times> os_timers \<Rightarrow> ('cb, 'ctx) timer_event \<times> os_timers" where
  "TimerStart ok st =
     (case st of (obj, os) \<Rightarrow>
        if started obj then (obj, os)
        else let (r, os) = timer_settime ok (timerid obj) (duration obj) os in
          if r then (obj\<lparr>started := True\<rparr>, os) else (obj, os))"

definition TimerStop ::
    "bool \<Rightarrow> ('cb, 'ctx) timer_event \<times> os_timers \<Rightarrow> ('cb, 'ctx) timer_event \<times> os_timers" where
  "TimerStop ok st =
     (case st of (obj, os) \<Rightarrow>
        let (r, os) = timer_settime ok (timerid obj) timespec_zero os in
        if r then (obj\<lparr>started := False\<rparr>, os) else (obj, os))"

definition TimerSetContext :: "'ctx option \<Rightarrow> ('cb, 'ctx) timer_event \<Rightarrow> ('cb, 'ctx) timer_event" where
  "TimerSetContext ctx obj = obj\<lparr>cb_context := ctx\<rparr>"

definition TimerIsStarted :: "('cb, 'ctx) timer_event \<Rightarrow> bool" where
  "TimerIsStarted obj = started obj"

definition TimerReset ::
    "bool \<Rightarrow> ('cb, 'ctx) timer_event \<times> os_timers \<Rightarrow> ('cb, 'ctx) timer_event \<times> os_timers" where
  "TimerReset ok st = (case st of (obj, os) \<Rightarrow> TimerStart ok (obj\<lparr>started := False\<rparr>, os))"

definition platform_timer_add ::
    "bool \<Rightarrow> timer_id option \<Rightarrow> 'cb \<Rightarrow> 'ctx option \<Rightarrow>
     ('cb, 'ctx) timer_event \<times> os_timers \<times> cleaner \<Rightarrow>
     ('cb, 'ctx) timer_event \<times> os_timers \<times> cleaner" where
  "platform_timer_add sigaction_ok new cb cb_arg st =
     (case TimerInit sigaction_ok new cb st of (obj, os, c) \<Rightarrow> (TimerSetContext cb_arg obj, os, c))"

definition platform_timer_set_duration :: "u32 \<Rightarrow> ('cb, 'ctx) timer_event \<Rightarrow> ('cb, 'ctx) timer_event" where
  "platform_timer_set_duration v tmr = TimerSetValue v tmr"

definition platform_timer_start ::
    "bool \<Rightarrow> ('cb, 'ctx) timer_event \<times> os_timers \<Rightarrow> ('cb, 'ctx) timer_event \<times> os_timers" where
  "platform_timer_start ok st = TimerStart ok st"

definition platform_timer_stop ::
    "bool \<Rightarrow> ('cb, 'ctx) timer_event \<times> os_timers \<Rightarrow> ('cb, 'ctx) timer_event \<times> os_timers" where
  "platform_timer_stop ok st = TimerStop ok st"

text \<open>
  Expiry: the one-shot timer of the system disarms itself and raises the signal, whose handler
  checks its origin and runs the callback of the timer object.
\<close>

definition sighandler ::
    "bool \<Rightarrow> ('cb, 'ctx) timer_event \<Rightarrow> ('cb, 'ctx) timer_event \<times> ('cb \<times> 'ctx option) option" where
  "sighandler from_timer obj =
     (if \<not> from_timer then (obj, None)
      else let obj = obj\<lparr>started := False\<rparr> in (obj, Some (callback obj, cb_context obj)))"

definition expire ::
    "('cb, 'ctx) timer_event \<times> os_timers \<Rightarrow>
     (('cb, 'ctx) timer_event \<times> os_timers) \<times> ('cb \<times> 'ctx option) option" where
  "expire st =
     (case st of (obj, os) \<Rightarrow>
        if armed os (timerid obj) = None then (st, None)
        else let (obj', call) = sighandler True obj in
          ((obj', os\<lparr>armed := (armed os)(timerid obj := None)\<rparr>), call))"

text \<open>Clocks: seconds and microseconds (or nanoseconds) as 64-bit values.\<close>

definition TimerGetCurrentTime :: "u64 \<Rightarrow> u64 \<Rightarrow> u64" where
  "TimerGetCurrentTime sec usec = sec * 1000 + usec div 1000"

definition platform_get_clock_ms :: "u64 \<Rightarrow> u64 \<Rightarrow> u32" where
  "platform_get_clock_ms sec nsec = ucast (sec * 1000 + nsec div 1000000)"

definition platform_get_current_time :: "u64 \<Rightarrow> u64 \<Rightarrow> u32" where
  "platform_get_current_time sec usec = ucast (TimerGetCurrentTime sec usec)"

definition platform_get_elpased_time :: "u64 \<Rightarrow> u64 \<Rightarrow> u32 \<Rightarrow> u32" where
  "platform_get_elpased_time sec usec past = platform_get_current_time sec usec - past"

text \<open>\<open>sprintf("%.2X")\<close> writes two digits and a terminating zero byte.\<close>

definition hex_digit :: "nat \<Rightarrow> byte" where
  "hex_digit d = (if d < 10 then of_nat (48 + d) else of_nat (55 + d))"

fun bin_to_hex_loop :: "memory \<Rightarrow> nat \<Rightarrow> nat \<Rightarrow> memory \<Rightarrow> memory ub" where
  "bin_to_hex_loop bin i 0 hex = Some hex"
| "bin_to_hex_loop bin i (Suc n) hex =
     do {
       b \<leftarrow> peek bin i;
       hex \<leftarrow> store hex (i * 2) [hex_digit (unat b div 16), hex_digit (unat b mod 16), 0];
       bin_to_hex_loop bin (i + 1) n hex
     }"

definition bin_to_hex :: "memory \<Rightarrow> nat \<Rightarrow> memory \<Rightarrow> memory ub" where
  "bin_to_hex bin bin_size hex = bin_to_hex_loop bin 0 bin_size hex"

text \<open>\<open>/dev/urandom\<close>: None when it cannot be opened, otherwise the bytes \<open>fread\<close> delivered.\<close>

definition ERR_ENTROPY_SOURCE_FAILED :: int where
  "ERR_ENTROPY_SOURCE_FAILED = - 0x3C"

definition platform_entropy_hardware_poll ::
    "memory option \<Rightarrow> memory \<Rightarrow> nat \<Rightarrow> (int \<times> memory \<times> nat) ub" where
  "platform_entropy_hardware_poll urandom out n =
     (case urandom of
        None \<Rightarrow> Some (ERR_ENTROPY_SOURCE_FAILED, out, 0)
      | Some bytes \<Rightarrow> do {
          out \<leftarrow> store out 0 (take n bytes);
          if length (take n bytes) \<noteq> n then Some (ERR_ENTROPY_SOURCE_FAILED, out, 0)
          else Some (0, out, n) })"

text \<open>The time as text: \<open>localtime\<close> may fail, and \<open>strftime\<close> gives the text with its final zero byte, or
  nothing when it does not fit in \<open>str_size\<close> bytes; the buffer is then left in an unknown state.\<close>

definition time_as_formatted_string ::
    "('t \<Rightarrow> 'tm option) \<Rightarrow> (nat \<Rightarrow> string \<Rightarrow> 'tm \<Rightarrow> memory option) \<Rightarrow> memory \<Rightarrow> 't \<Rightarrow> memory \<Rightarrow> nat \<Rightarrow> string \<Rightarrow>
     (bool \<times> memory) ub" where
  "time_as_formatted_string localtime strftime unknown t str str_size format =
     (case localtime t of
        None \<Rightarrow> Some (False, str)
      | Some tmp \<Rightarrow>
          (case strftime str_size format tmp of
             None \<Rightarrow> do { str \<leftarrow> store str 0 (take str_size unknown); Some (False, str) }
           | Some text \<Rightarrow> do { str \<leftarrow> store str 0 text; Some (True, str) }))"

lemma time_text_fits:
  assumes "str_size \<le> length str" and "\<And>n f tm text. strftime n f tm = Some text \<Longrightarrow> length text \<le> n"
  shows "time_as_formatted_string localtime strftime unknown t str str_size format \<noteq> None"
  using assms(1) assms(2) [of str_size format]
  by (fastforce simp: time_as_formatted_string_def store_def split: option.splits)

section \<open>The timer state machine\<close>

text \<open>
  One timer and the system's timers. A step is a call of the timer interface or the expiry of the
  timer; \<open>ok\<close> is the outcome of the system call. A duration of zero milliseconds is excluded
  when it is set (see \<open>start_zero_duration\<close>), and \<open>TimerReset\<close> is assumed to succeed.
\<close>

type_synonym ('cb, 'ctx) timer_state = "('cb, 'ctx) timer_event \<times> os_timers"

inductive timer_step :: "('cb, 'ctx) timer_state \<Rightarrow> ('cb, 'ctx) timer_state \<Rightarrow> bool" where
  set_value: "v \<noteq> 0 \<Longrightarrow> timer_step (obj, os) (TimerSetValue v obj, os)"
| set_context: "timer_step (obj, os) (TimerSetContext ctx obj, os)"
| start: "duration (fst st) \<noteq> timespec_zero \<Longrightarrow> timer_step st (TimerStart ok st)"
| stop: "timer_step st (TimerStop ok st)"
| reset: "duration (fst st) \<noteq> timespec_zero \<Longrightarrow> timer_step st (TimerReset True st)"
| expiry: "timer_step st (fst (expire st))"

inductive_cases timer_stepE: "timer_step st st'"

text \<open>Reachable from a successful \<open>TimerInit\<close> (of any object) on.\<close>

inductive timer_reachable :: "('cb, 'ctx) timer_state \<Rightarrow> bool" where
  init: "TimerInit True (Some t) cb (obj0, os0, c0) = (obj, os, c) \<Longrightarrow> timer_reachable (obj, os)"
| step: "timer_reachable st \<Longrightarrow> timer_step st st' \<Longrightarrow> timer_reachable st'"

definition timer_sync :: "('cb, 'ctx) timer_state \<Rightarrow> bool" where
  "timer_sync st \<longleftrightarrow> timerid (fst st) \<in> set (created (snd st))
     \<and> (started (fst st) \<longleftrightarrow> armed (snd st) (timerid (fst st)) \<noteq> None)"

lemma timer_sync_init:
  "TimerInit True (Some t) cb (obj0, os0, c0) = (obj, os, c) \<Longrightarrow> timer_sync (obj, os)"
  by (auto simp: TimerInit_def timer_create_def timer_sync_def Let_def)

lemma TimerStart_sync:
  "timer_sync st \<Longrightarrow> duration (fst st) \<noteq> timespec_zero \<Longrightarrow> timer_sync (TimerStart ok st)"
  by (auto simp: TimerStart_def timer_settime_def timer_sync_def split: prod.split)

lemma TimerStop_sync: "timer_sync st \<Longrightarrow> timer_sync (TimerStop ok st)"
  by (auto simp: TimerStop_def timer_settime_def timer_sync_def split: prod.split)

lemma TimerReset_sync:
  "timer_sync st \<Longrightarrow> duration (fst st) \<noteq> timespec_zero \<Longrightarrow> timer_sync (TimerReset True st)"
  by (auto simp: TimerReset_def TimerStart_def timer_settime_def timer_sync_def split: prod.split)

lemma expire_sync: "timer_sync st \<Longrightarrow> timer_sync (fst (expire st))"
  by (auto simp: expire_def sighandler_def timer_sync_def Let_def split: prod.split)

lemma timer_sync_step: "timer_step st st' \<Longrightarrow> timer_sync st \<Longrightarrow> timer_sync st'"
  by (induction rule: timer_step.induct)
    (simp_all add: TimerStart_sync TimerStop_sync TimerReset_sync expire_sync
      timer_sync_def [of "(TimerSetValue _ _, _)"] timer_sync_def [of "(TimerSetContext _ _, _)"]
      TimerSetValue_def TimerSetContext_def, simp_all add: timer_sync_def)


definition blank_timer :: "(string, nat) timer_event" where
  "blank_timer = \<lparr>timerid = 0, duration = timespec_zero, callback = ''none'', cb_context = None, started = False\<rparr>"

definition no_timers :: os_timers where
  "no_timers = \<lparr>created = [], armed = Map.empty\<rparr>"

definition running_timer :: "(string, nat) timer_state" where
  "running_timer = TimerStart True
     (let (obj, os, c) = TimerInit True (Some 3) ''cb'' (blank_timer, no_timers, cleaner_init)
      in (TimerSetValue 1500 obj, os))"

lemma running_timer_reachable: "timer_reachable running_timer"
proof -
  obtain obj os c where i: "TimerInit True (Some 3) ''cb'' (blank_timer, no_timers, cleaner_init) = (obj, os, c)"
    by (metis prod_cases3)
  have "timer_reachable (TimerSetValue 1500 obj, os)"
    by (rule timer_reachable.step [OF timer_reachable.init [OF i]]) (rule timer_step.set_value, simp)
  moreover have "duration (TimerSetValue 1500 obj) \<noteq> timespec_zero"
    by (simp add: TimerSetValue_def timespec_zero_def)
  ultimately show ?thesis
    unfolding running_timer_def i
    by (simp add: timer_reachable.step [OF _ timer_step.start])
qed


text \<open>Without the restriction the flag is wrong: a zero duration disarms the timer that
  \<open>TimerStart\<close> then marks as started.\<close>

lemma start_zero_duration:
  "timerid obj \<in> set (created os) \<Longrightarrow> \<not> started obj \<Longrightarrow>
    started (fst (TimerStart True (TimerSetValue 0 obj, os)))
    \<and> armed (snd (TimerStart True (TimerSetValue 0 obj, os))) (timerid obj) = None"
  by (simp add: TimerStart_def TimerSetValue_def timer_settime_def timespec_zero_def)

lemma unat_nsec: "unat (ucast ((v mod 1000) * 1000000) :: u64) = unat v mod 1000 * 1000000" for v :: u32
proof -
  have "unat v mod 1000 * 1000000 < 2 ^ 32"
    using mod_less_divisor [of 1000 "unat v"] by simp
  then show ?thesis
    by (simp add: unsigned_ucast_eq unat_word_ariths unat_mod take_bit_nat_eq_self)
qed

lemma set_value_ms:
  "unat (tv_sec (duration (TimerSetValue v obj))) * 1000
    + unat (tv_nsec (duration (TimerSetValue v obj))) div 1000000 = unat v"
  "unat (tv_nsec (duration (TimerSetValue v obj))) mod 1000000 = 0"
  "unat (tv_nsec (duration (TimerSetValue v obj))) < 1000000000"
proof -
  have "unat (ucast (v div 1000) :: u64) = unat v div 1000"
    using unsigned_less [of v, where ?'a = nat]
    by (simp add: unsigned_ucast_eq unat_div take_bit_nat_eq_self)
  then show "unat (tv_sec (duration (TimerSetValue v obj))) * 1000
    + unat (tv_nsec (duration (TimerSetValue v obj))) div 1000000 = unat v"
    using div_mult_mod_eq [of "unat v" 1000] by (simp add: TimerSetValue_def unat_nsec)
  show "unat (tv_nsec (duration (TimerSetValue v obj))) mod 1000000 = 0"
    "unat (tv_nsec (duration (TimerSetValue v obj))) < 1000000000"
    using mod_less_divisor [of 1000 "unat v"] by (simp_all add: TimerSetValue_def unat_nsec)
qed

text \<open>A timer given \<open>v > 0\<close> milliseconds and started is armed with exactly that time in a valid
  timespec; when it expires its callback runs once with its context and it can be started again;
  stopped before, it never runs.\<close>

lemma timer_fires_once:
  assumes "timerid obj \<in> set (created os)" "\<not> started obj" "v \<noteq> 0"
  shows "\<exists>d. armed (snd (TimerStart True (TimerSetValue v obj, os))) (timerid obj) = Some d
      \<and> unat (tv_sec d) * 1000 + unat (tv_nsec d) div 1000000 = unat v
      \<and> unat (tv_nsec d) < 1000000000 \<and> unat (tv_nsec d) mod 1000000 = 0
    \<and> snd (expire (TimerStart True (TimerSetValue v obj, os))) = Some (callback obj, cb_context obj)
    \<and> \<not> TimerIsStarted (fst (fst (expire (TimerStart True (TimerSetValue v obj, os)))))
    \<and> snd (expire (fst (expire (TimerStart True (TimerSetValue v obj, os))))) = None
    \<and> snd (expire (TimerStop True (TimerStart True (TimerSetValue v obj, os)))) = None"
proof -
  define d where "d = duration (TimerSetValue v obj)"
  note ms = set_value_ms [of v obj, folded d_def]
  have "d \<noteq> timespec_zero"
    using ms(1) assms(3) by (auto simp: timespec_zero_def unsigned_eq_0_iff)
  then have st: "TimerStart True (TimerSetValue v obj, os) =
      ((TimerSetValue v obj)\<lparr>started := True\<rparr>, os\<lparr>armed := (armed os)(timerid obj \<mapsto> d)\<rparr>)"
    using assms(1,2) unfolding TimerStart_def timer_settime_def
    by (simp add: TimerSetValue_def d_def)
  have "timerid (TimerSetValue v obj) = timerid obj" "callback (TimerSetValue v obj) = callback obj"
      "cb_context (TimerSetValue v obj) = cb_context obj"
    by (simp_all add: TimerSetValue_def)
  then show ?thesis
    using ms assms(1) unfolding st
    by (intro exI [of _ d] conjI) (simp_all add: expire_def sighandler_def
        TimerIsStarted_def TimerStop_def timer_settime_def)
qed

definition idle_timer :: "(string, nat) timer_state" where
  "idle_timer = (blank_timer, no_timers\<lparr>created := [0]\<rparr>)"

lemma timer_fires_once_witness:
  "\<exists>obj os. idle_timer = (obj, os)
    \<and> snd (expire (TimerStart True (TimerSetValue 1500 obj, os))) = Some (''none'', None)"
proof -
  have "snd (expire (TimerStart True (TimerSetValue 1500 blank_timer, no_timers\<lparr>created := [0]\<rparr>)))
      = Some (callback blank_timer, cb_context blank_timer)"
    using timer_fires_once [of blank_timer "no_timers\<lparr>created := [0]\<rparr>" 1500]
    by (auto simp: blank_timer_def)
  then show ?thesis
    by (simp add: idle_timer_def blank_timer_def)
qed

section \<open>Timers deleted at exit\<close>

lemma cleaner_after:
  "length (timers (fold timer_cleaner_register ts cleaner_init)) = 32
    \<and> nb_timers (fold timer_cleaner_register ts cleaner_init) = min (length ts) 32
    \<and> take (min (length ts) 32) (timers (fold timer_cleaner_register ts cleaner_init)) = take 32 ts
    \<and> exit_handlers (fold timer_cleaner_register ts cleaner_init) = (if ts = [] then 0 else 1)"
proof (induction ts rule: rev_induct)
  case Nil
  then show ?case
    by (simp add: cleaner_init_def MAX_CLEANABLE_TIMERS_def)
next
  case (snoc t ts)
  define c where "c = fold timer_cleaner_register ts cleaner_init"
  have IH: "length (timers c) = 32" "nb_timers c = min (length ts) 32"
      "take (min (length ts) 32) (timers c) = take 32 ts"
      "exit_handlers c = (if ts = [] then 0 else 1)"
    using snoc by (simp_all add: c_def)
  have goal: "fold timer_cleaner_register (ts @ [t]) cleaner_init = timer_cleaner_register t c"
    by (simp add: c_def)
  show ?case
  proof (cases "length ts < 32")
    case True
    then have "take (Suc (length ts)) ((timers c)[length ts := t]) = take (length ts) (timers c) @ [t]"
      using IH(1) by (simp add: take_Suc_conv_app_nth)
    with True IH show ?thesis
      unfolding goal by (auto simp: timer_cleaner_register_def MAX_CLEANABLE_TIMERS_def Let_def min_def)
  next
    case False
    with IH show ?thesis
      unfolding goal by (auto simp: timer_cleaner_register_def MAX_CLEANABLE_TIMERS_def Let_def min_def)
  qed
qed

lemma delete_timers:
  "created (fold timer_delete ts os) = filter (\<lambda>t. t \<notin> set ts) (created os)
    \<and> armed (fold timer_delete ts os) = (armed os) |` (- set ts)"
proof (induction ts arbitrary: os)
  case (Cons t ts)
  then show ?case
    by (auto simp: timer_delete_def removeAll_filter_not_eq restrict_map_def fun_eq_iff
        intro: filter_cong)
qed (simp add: restrict_map_def)

text \<open>The exit handler is installed once, at the first registration, and deletes exactly the
  first 32 timers registered; a later timer is never entered (and no write leaves the table), so
  it survives the handler.\<close>

lemma exit_deletes_registered_timers:
  "created (timer_cleaner (fold timer_cleaner_register ts cleaner_init) os) =
      filter (\<lambda>t. t \<notin> set (take 32 ts)) (created os)
    \<and> armed (timer_cleaner (fold timer_cleaner_register ts cleaner_init) os) =
      (armed os) |` (- set (take 32 ts))
    \<and> exit_handlers (fold timer_cleaner_register ts cleaner_init) = (if ts = [] then 0 else 1)"
proof -
  define c where "c = fold timer_cleaner_register ts cleaner_init"
  note after = cleaner_after [of ts, folded c_def]
  have "fold (\<lambda>i. timer_delete (timers c ! i)) is os = fold timer_delete (map ((!) (timers c)) is) os" for "is"
    by (simp add: fold_map comp_def)
  moreover have "map ((!) (timers c)) [0 ..< min (length ts) 32] = take 32 ts"
    using after map_nth [of "take (min (length ts) 32) (timers c)"]
    by (intro nth_equalityI) (simp_all, metis min_less_iff_conj nth_take)
  ultimately have "timer_cleaner c os = fold timer_delete (take 32 ts) os"
    using after by (simp add: timer_cleaner_def)
  then show ?thesis
    using after delete_timers [of "take 32 ts" os] by (simp add: c_def)
qed

section \<open>Elapsed time\<close>

lemma current_time_of_nat:
  "platform_get_current_time s u = of_nat (unat s * 1000 + unat u div 1000)"
proof -
  have u: "u div 1000 = of_nat (unat u div 1000)"
    by (rule word_eq_of_nat) (simp add: unat_div)
  have "s * 1000 + u div 1000 = of_nat (unat s * 1000 + unat u div 1000)"
    by (simp add: u)
  then have "platform_get_current_time s u = ucast (of_nat (unat s * 1000 + unat u div 1000) :: u64)"
    by (simp only: platform_get_current_time_def TimerGetCurrentTime_def)
  also have "\<dots> = of_nat (unat s * 1000 + unat u div 1000)"
    by (rule ucast_of_nat_32)
  finally show ?thesis .
qed

text \<open>\<open>platform_get_elpased_time\<close> measures the true number of milliseconds between two clock
  readings as long as it is below \<open>2 ^ 32\<close>, although both readings are truncated to 32 bits and
  may wrap in between.\<close>

lemma elapsed_time_wraps_safely:
  assumes "unat s * 1000 + unat u div 1000 = unat s0 * 1000 + unat u0 div 1000 + d" and "d < 2 ^ 32"
  shows "unat (platform_get_elpased_time s u (platform_get_current_time s0 u0)) = d"
proof -
  have "platform_get_elpased_time s u (platform_get_current_time s0 u0) = of_nat d"
    by (simp only: platform_get_elpased_time_def current_time_of_nat assms(1)) simp
  with assms(2) show ?thesis
    by (simp add: unat_of_nat_small)
qed

lemma elapsed_time_wraps_safely_witness:
  "unat (platform_get_elpased_time 4294968 5000 (platform_get_current_time 4294967 0)) = 1005"
  by (rule elapsed_time_wraps_safely) simp_all

section \<open>Hexadecimal output\<close>

definition hex_bytes :: "memory \<Rightarrow> memory" where
  "hex_bytes bs = concat (map (\<lambda>b. [hex_digit (unat b div 16), hex_digit (unat b mod 16)]) bs)"

lemma length_hex_bytes [simp]: "length (hex_bytes bs) = 2 * length bs"
  by (induction bs) (simp_all add: hex_bytes_def)

lemma hex_bytes_simps [simp]:
  "hex_bytes [] = []"
  "hex_bytes (b # bs) = hex_digit (unat b div 16) # hex_digit (unat b mod 16) # hex_bytes bs"
  by (simp_all add: hex_bytes_def)

lemma bin_to_hex_loop_eq:
  "0 < n \<Longrightarrow> bin_to_hex_loop bin i n hex =
    (if i + n \<le> length bin \<and> 2 * (i + n) + 1 \<le> length hex
     then Some (take (2 * i) hex @ hex_bytes (take n (drop i bin)) @ [0] @ drop (2 * (i + n) + 1) hex)
     else None)"
proof (induction n arbitrary: i hex)
  case (Suc n)
  show ?case
  proof (cases "i < length bin \<and> 2 * i + 3 \<le> length hex")
    case True
    define d where "d = [hex_digit (unat (bin ! i) div 16), hex_digit (unat (bin ! i) mod 16), 0]"
    have step: "bin_to_hex_loop bin i (Suc n) hex = bin_to_hex_loop bin (i + 1) n (poke hex (i * 2) d)"
      using True by (simp add: peek_def store_def d_def)
    have slice: "take (Suc n) (drop i bin) = bin ! i # take n (drop (Suc i) bin)"
      using True by (simp flip: Cons_nth_drop_Suc)
    show ?thesis
    proof (cases "n = 0")
      case True
      then show ?thesis
        using \<open>i < length bin \<and> 2 * i + 3 \<le> length hex\<close> unfolding step slice
        by (auto simp: poke_def d_def mult.commute)
    next
      case False
      have "take (2 * (i + 1)) (poke hex (i * 2) d) = take (2 * i) hex @ take 2 d"
        using True by (simp add: poke_def d_def min_def mult.commute)
      moreover have "drop (2 * (i + 1 + n) + 1) (poke hex (i * 2) d) = drop (2 * (i + Suc n) + 1) hex"
        using True False by (subst drop_poke) (simp_all add: d_def)
      moreover have "length (poke hex (i * 2) d) = length hex"
        using True by (simp add: d_def)
      ultimately show ?thesis
        using Suc.IH [of "i + 1" "poke hex (i * 2) d"] False unfolding step slice
        by (simp add: d_def)
    qed
  next
    case False
    then show ?thesis
      by (auto simp: peek_def store_def)
  qed
qed simp

text \<open>\<open>bin_to_hex\<close> writes the two upper-case digits of every byte and a terminating zero, and
  needs for a non-empty input one byte more than twice its size; with less room it writes past
  the output.\<close>

lemma bin_to_hex_output:
  "bin_to_hex bin n hex =
    (if n = 0 then Some hex
     else if n \<le> length bin \<and> 2 * n + 1 \<le> length hex
     then Some (hex_bytes (take n bin) @ [0] @ drop (2 * n + 1) hex)
     else None)"
  using bin_to_hex_loop_eq [of n bin 0 hex] by (simp add: bin_to_hex_def)

end
