(* ===== verification/Base64.thy ===== *)
theory Base64
  imports Prelude "HOL-Library.Char_ord"
begin

text \<open>
  The base64 codec of \<open>platforms/linux/src/base64.c\<close>. A C string is the list of its bytes without
  the terminating zero; \<open>size_t\<close> is a natural number except in \<open>b64_decoded_size\<close>, whose
  decrement can wrap, and \<open>int v\<close> of the decoder is a 32-bit word (gcc shifts negative values
  as two's complement).

  \<open>malloc\<close> is a parameter: None when it fails, otherwise a block of the size asked for with
  arbitrary contents. The code never checks for failure, so a failed allocation is an access
  through NULL, None here like every access outside a block. \<open>malloc_ok\<close> states that memory is not
  exhausted, and that a request above \<open>PTRDIFF_MAX\<close> fails, as the C library documents.
\<close>

section \<open>Definitions\<close>

definition b64chars :: memory where
  "b64chars = map of_char ''ABCDEFGHIJKLMNOPQRSTUVWXYZabcdefghijklmnopqrstuvwxyz0123456789+/''"

definition b64invs :: "int list" where
  "b64invs = [62, -1, -1, -1, 63, 52, 53, 54, 55, 56, 57, 58,
     59, 60, 61, -1, -1, -1, -1, -1, -1, -1, 0, 1, 2, 3, 4, 5,
     6, 7, 8, 9, 10, 11, 12, 13, 14, 15, 16, 17, 18, 19, 20,
     21, 22, 23, 24, 25, -1, -1, -1, -1, -1, -1, 26, 27, 28,
     29, 30, 31, 32, 33, 34, 35, 36, 37, 38, 39, 40, 41, 42,
     43, 44, 45, 46, 47, 48, 49, 50, 51]"

definition b64_generate_decode_table :: "int list" where
  "b64_generate_decode_table =
     fold (\<lambda>i inv. inv[unat (b64chars ! i) - 43 := int i]) [0 ..< length b64chars] (replicate 80 (-1))"

definition ascii :: "char \<Rightarrow> byte" where
  "ascii c = of_char c"

definition b64_isvalidchar :: "byte \<Rightarrow> bool" where
  "b64_isvalidchar c =
     (if c \<ge> ascii CHR ''0'' \<and> c \<le> ascii CHR ''9'' then True
      else if c \<ge> ascii CHR ''A'' \<and> c \<le> ascii CHR ''Z'' then True
      else if c \<ge> ascii CHR ''a'' \<and> c \<le> ascii CHR ''z'' then True
      else if c = ascii CHR ''+'' \<or> c = ascii CHR ''/'' \<or> c = ascii CHR ''='' then True
      else False)"

definition b64_encoded_size :: "nat \<Rightarrow> nat" where
  "b64_encoded_size inlen =
     (let ret = inlen;
          ret = (if inlen mod 3 \<noteq> 0 then ret + (3 - inlen mod 3) else ret);
          ret = ret div 3
      in ret * 4)"

definition b64char :: "u64 \<Rightarrow> byte" where
  "b64char v = b64chars ! unat (v AND 0x3F)"

function b64_encode_loop :: "memory \<Rightarrow> nat \<Rightarrow> nat \<Rightarrow> nat \<Rightarrow> memory \<Rightarrow> memory ub" where
  "b64_encode_loop inp len i j out =
     (if i < len then
        do {
          b0 \<leftarrow> peek inp i;
          let v = (ucast b0 :: u64);
          v \<leftarrow> (if i + 1 < len then do { b \<leftarrow> peek inp (i + 1); Some (push_bit 8 v OR ucast b) }
               else Some (push_bit 8 v));
          v \<leftarrow> (if i + 2 < len then do { b \<leftarrow> peek inp (i + 2); Some (push_bit 8 v OR ucast b) }
               else Some (push_bit 8 v));
          out \<leftarrow> store out j [b64char (drop_bit 18 v)];
          out \<leftarrow> store out (j + 1) [b64char (drop_bit 12 v)];
          out \<leftarrow> store out (j + 2) [if i + 1 < len then b64char (drop_bit 6 v) else ascii CHR ''=''];
          out \<leftarrow> store out (j + 3) [if i + 2 < len then b64char v else ascii CHR ''=''];
          b64_encode_loop inp len (i + 3) (j + 4) out
        }
      else Some out)"
  by pat_completeness auto
termination
  by (relation "measure (\<lambda>(_, len, i, _, _). len - i)") auto

declare b64_encode_loop.simps [simp del]

text \<open>The result: None for undefined behaviour, Some None for a returned NULL.\<close>

definition b64_encode ::
    "(nat \<Rightarrow> memory option) \<Rightarrow> memory option \<Rightarrow> nat \<Rightarrow> memory option ub" where
  "b64_encode malloc inp len =
     (case inp of
        None \<Rightarrow> Some None
      | Some inp \<Rightarrow>
          if len = 0 then Some None
          else do {
            let elen = b64_encoded_size len;
            out \<leftarrow> malloc (elen + 1);
            out \<leftarrow> store out elen [0];
            out \<leftarrow> b64_encode_loop inp len 0 0 out;
            Some (Some out)
          })"

fun trailing_pad :: "memory \<Rightarrow> u64 \<Rightarrow> u64" where
  "trailing_pad rev_in ret =
     (case rev_in of
        [] \<Rightarrow> ret
      | c # cs \<Rightarrow> if c = ascii CHR ''='' then trailing_pad cs (ret - 1) else ret)"

declare trailing_pad.simps [simp del]

definition b64_decoded_size :: "memory option \<Rightarrow> u64" where
  "b64_decoded_size inp =
     (case inp of
        None \<Rightarrow> 0
      | Some s \<Rightarrow> trailing_pad (rev s) (of_nat (length s div 4 * 3)))"

definition b64inv :: "byte \<Rightarrow> u32 ub" where
  "b64inv c =
     (if 43 \<le> unat c \<and> unat c - 43 < length b64invs then Some (of_int (b64invs ! (unat c - 43)))
      else None)"

function b64_decode_loop :: "memory \<Rightarrow> nat \<Rightarrow> nat \<Rightarrow> memory \<Rightarrow> memory ub" where
  "b64_decode_loop inp i j out =
     (if i < length inp then
        do {
          c0 \<leftarrow> peek inp i;
          c1 \<leftarrow> peek inp (i + 1);
          c2 \<leftarrow> peek inp (i + 2);
          c3 \<leftarrow> peek inp (i + 3);
          v \<leftarrow> b64inv c0;
          x \<leftarrow> b64inv c1;
          let v = push_bit 6 v OR x;
          v \<leftarrow> (if c2 = ascii CHR ''='' then Some (push_bit 6 v)
               else do { x \<leftarrow> b64inv c2; Some (push_bit 6 v OR x) });
          v \<leftarrow> (if c3 = ascii CHR ''='' then Some (push_bit 6 v)
               else do { x \<leftarrow> b64inv c3; Some (push_bit 6 v OR x) });
          out \<leftarrow> store out j [ucast (drop_bit 16 v AND 0xFF)];
          out \<leftarrow> (if c2 \<noteq> ascii CHR ''='' then store out (j + 1) [ucast (drop_bit 8 v AND 0xFF)]
                 else Some out);
          out \<leftarrow> (if c3 \<noteq> ascii CHR ''='' then store out (j + 2) [ucast (v AND 0xFF)]
                 else Some out);
          b64_decode_loop inp (i + 4) (j + 3) out
        }
      else Some out)"
  by pat_completeness auto
termination
  by (relation "measure (\<lambda>(inp, i, _, _). length inp - i)") auto

declare b64_decode_loop.simps [simp del]

text \<open>The decoded block and \<open>*outlen\<close>. \<open>malloc\<close> is called with \<open>*outlen + 1\<close> modulo \<open>2 ^ 64\<close>.\<close>

definition b64_decode ::
    "(nat \<Rightarrow> memory option) \<Rightarrow> memory option \<Rightarrow> (memory \<times> u64) option ub" where
  "b64_decode malloc inp =
     (case inp of
        None \<Rightarrow> Some None
      | Some s \<Rightarrow>
          if length s mod 4 \<noteq> 0 then Some None
          else if \<not> list_all b64_isvalidchar s then Some None
          else do {
            let outlen = b64_decoded_size inp;
            out \<leftarrow> malloc (unat (outlen + 1));
            out \<leftarrow> store out (unat outlen) [0];
            out \<leftarrow> b64_decode_loop s 0 0 out;
            Some (Some (out, outlen))
          })"

definition malloc_ok :: "(nat \<Rightarrow> memory option) \<Rightarrow> bool" where
  "malloc_ok malloc \<longleftrightarrow>
     (\<forall>n. if n < 2 ^ 63 then \<exists>m. malloc n = Some m \<and> length m = n else malloc n = None)"

section \<open>Tables\<close>

text \<open>The decode table the source carries is the one \<open>b64_generate_decode_table\<close> computes from
  the alphabet.\<close>

lemma decode_table_generated: "b64_generate_decode_table = b64invs"
  by code_simp

lemma alphabet_bytes:
  "b64chars = [65, 66, 67, 68, 69, 70, 71, 72, 73, 74, 75, 76, 77, 78, 79, 80, 81, 82, 83, 84, 85,
     86, 87, 88, 89, 90, 97, 98, 99, 100, 101, 102, 103, 104, 105, 106, 107, 108, 109, 110, 111,
     112, 113, 114, 115, 116, 117, 118, 119, 120, 121, 122, 48, 49, 50, 51, 52, 53, 54, 55, 56,
     57, 43, 47]"
  by (simp add: b64chars_def)

lemma ascii_simps [simp]:
  "ascii CHR ''='' = 61" "ascii CHR ''0'' = 48" "ascii CHR ''9'' = 57" "ascii CHR ''A'' = 65"
  "ascii CHR ''Z'' = 90" "ascii CHR ''a'' = 97" "ascii CHR ''z'' = 122" "ascii CHR ''+'' = 43"
  "ascii CHR ''/'' = 47"
  by (simp_all add: ascii_def)

lemma alphabet_inv: "map b64inv b64chars = map (\<lambda>k. Some (of_nat k)) [0 ..< 64]"
  by (simp add: alphabet_bytes b64inv_def b64invs_def upt_rec)

lemma alphabet:
  "list_all (\<lambda>c. c \<noteq> 61 \<and> b64_isvalidchar c \<and> c \<noteq> 0) b64chars"
  by (simp add: alphabet_bytes b64_isvalidchar_def)

lemma length_b64chars [simp]: "length b64chars = 64"
  by (simp add: alphabet_bytes)

lemma b64chars_simps [simp]:
  assumes "k < 64"
  shows "b64inv (b64chars ! k) = Some (of_nat k)" "b64chars ! k \<noteq> 61"
    "b64_isvalidchar (b64chars ! k)" "b64chars ! k \<noteq> 0"
proof -
  have "map b64inv b64chars ! k = map (\<lambda>k. Some (of_nat k)) [0 ..< 64] ! k"
    by (simp only: alphabet_inv)
  with assms show "b64inv (b64chars ! k) = Some (of_nat k)"
    by simp
  have "b64chars ! k \<in> set b64chars"
    using assms by simp
  then show "b64chars ! k \<noteq> 61" "b64_isvalidchar (b64chars ! k)" "b64chars ! k \<noteq> 0"
    using alphabet by (auto simp only: list_all_iff)
qed

lemma inverse_table:
  "list_all (\<lambda>i. (48 \<le> i + 43 \<and> i + 43 \<le> 57 \<or> 65 \<le> i + 43 \<and> i + 43 \<le> 90
      \<or> 97 \<le> i + 43 \<and> i + 43 \<le> 122 \<or> i + 43 = 43 \<or> i + 43 = 47) \<longrightarrow>
    0 \<le> b64invs ! i \<and> b64invs ! i < 64) [0 ..< 80]"
  by (simp add: b64invs_def upt_rec)

lemma valid_char_cases:
  assumes "b64_isvalidchar c"
  obtains "c = 61" "b64inv c = Some (- 1)" | x where "c \<noteq> 61" "b64inv c = Some x" "unat x < 64"
proof (cases "c = 61")
  case True
  then show thesis
    using that(1) by (simp add: b64inv_def b64invs_def)
next
  case False
  define i where "i = unat c - 43"
  have c: "48 \<le> unat c \<and> unat c \<le> 57 \<or> 65 \<le> unat c \<and> unat c \<le> 90
      \<or> 97 \<le> unat c \<and> unat c \<le> 122 \<or> unat c = 43 \<or> unat c = 47"
    using assms False by (auto simp: b64_isvalidchar_def word_le_nat_alt split: if_splits)
  then have i: "unat c = i + 43" "i < 80"
    by (auto simp: i_def)
  then have v: "0 \<le> b64invs ! i" "b64invs ! i < 64"
    using bspec [OF inverse_table [unfolded list_all_iff], of i] c [unfolded i(1)] i(2)
    by (auto simp only: set_upt atLeastLessThan_iff)
  have "b64inv c = Some (of_int (b64invs ! i))"
    using i by (simp add: b64inv_def) (simp add: b64invs_def)
  moreover have "unat (of_int (b64invs ! i) :: u32) = nat (b64invs ! i)"
    using v by (simp add: unsigned_of_int take_bit_int_eq_self)
  ultimately show thesis
    using that(2) False v by (metis nat_less_numeral_power_cancel_iff nat_less_iff of_nat_numeral)
qed

section \<open>Shifting bytes in and sextets out\<close>

lemma unat_shift_or:
  fixes v w :: "'a::len word"
  assumes w: "unat w < 2 ^ n" and v: "unat v * 2 ^ n + unat w < 2 ^ LENGTH('a)"
  shows "unat (push_bit n v OR w) = unat v * 2 ^ n + unat w"
proof -
  have "unat v * 2 ^ n < 2 ^ LENGTH('a)"
    using v by linarith
  then have p: "unat (push_bit n v) = push_bit n (unat v)"
    by (subst unsigned_push_bit_eq) (simp add: push_bit_eq_mult take_bit_nat_eq_self)
  have "take_bit n (unat w) = unat w"
    using w by (simp add: take_bit_nat_eq_self)
  then have "bit (unat w) i \<Longrightarrow> i < n" for i
    by (metis bit_take_bit_iff)
  then have "push_bit n (unat v) OR unat w = push_bit n (unat v) + unat w"
    by (intro disjunctive_add [symmetric]) (auto simp: bit_push_bit_iff dest: leD)
  then show ?thesis
    by (simp only: unsigned_or_eq p) (simp only: push_bit_eq_mult)
qed

lemma unat_push_bit_small:
  fixes v :: "'a::len word"
  shows "unat v * 2 ^ n < 2 ^ LENGTH('a) \<Longrightarrow> unat (push_bit n v) = unat v * 2 ^ n"
  by (subst unsigned_push_bit_eq) (simp add: push_bit_eq_mult take_bit_nat_eq_self)

lemma unat_and_mask: "unat (w AND mask n) = unat w mod 2 ^ n" for w :: "'a::len word"
  by (simp only: unsigned_take_bit_eq flip: take_bit_eq_mask) (simp only: take_bit_eq_mod)

lemma b64char_drop: "b64char (drop_bit k v) = b64chars ! (unat v div 2 ^ k mod 64)"
proof -
  have m: "(0x3F :: u64) = mask 6"
    by (simp add: mask_eq_exp_minus_1)
  show ?thesis
    unfolding b64char_def m unat_and_mask
    by (subst unat_drop_bit_eq) (simp add: drop_bit_eq_div)
qed

lemma unat_drop_u64: "unat (drop_bit k (v :: u64)) = unat v div 2 ^ k"
  by (subst unat_drop_bit_eq) (simp add: drop_bit_eq_div)

lemma b64char_eq: "b64char v = b64chars ! (unat v mod 64)"
  using b64char_drop [of 0 v] by simp

lemma unat_ucast_byte: "unat (ucast (b :: byte) :: u64) = unat b"
  using byte_less [of b] by (simp add: unsigned_ucast_eq take_bit_nat_eq_self)

lemma unat_add_byte:
  "unat (v :: u64) < 2 ^ 32 \<Longrightarrow> unat (push_bit 8 v OR ucast (b :: byte)) = unat v * 256 + unat b"
  "unat (v :: u64) < 2 ^ 32 \<Longrightarrow> unat (push_bit 8 v) = unat v * 256"
  using unat_shift_or [of "ucast b :: u64" 8 v] unat_push_bit_small [of v 8] byte_less [of b]
  by (simp_all add: unat_ucast_byte)

lemma low_byte: "unat (ucast (drop_bit k (v :: u32) AND 0xFF) :: byte) = unat v div 2 ^ k mod 256"
proof -
  have m: "(0xFF :: u32) = mask 8"
    by (simp add: mask_eq_exp_minus_1)
  have "unat (drop_bit k v AND 0xFF) = unat v div 2 ^ k mod 256"
    unfolding m unat_and_mask by (subst unat_drop_bit_eq) (simp add: drop_bit_eq_div)
  then show ?thesis
    by (simp only: unsigned_ucast_eq) (simp add: take_bit_eq_mod)
qed

section \<open>The encoder\<close>

text \<open>The specification: groups of three bytes as numbers, written as four sextets.\<close>

definition sextets :: "nat \<Rightarrow> memory" where
  "sextets v = [b64chars ! (v div 2 ^ 18 mod 64), b64chars ! (v div 2 ^ 12 mod 64),
     b64chars ! (v div 2 ^ 6 mod 64), b64chars ! (v mod 64)]"

fun encoding :: "memory \<Rightarrow> memory" where
  "encoding (a # b # c # bs) = sextets (unat a * 65536 + unat b * 256 + unat c) @ encoding bs"
| "encoding [a, b] = take 3 (sextets (unat a * 65536 + unat b * 256)) @ [61]"
| "encoding [a] = take 2 (sextets (unat a * 65536)) @ [61, 61]"
| "encoding [] = []"

lemma length_sextets [simp]: "length (sextets v) = 4"
  by (simp add: sextets_def)

lemma length_encoding: "length (encoding bs) = 4 * ((length bs + 2) div 3)"
proof (induction bs rule: encoding.induct)
  case (1 a b c bs)
  have "(length (a # b # c # bs) + 2) div 3 = Suc ((length bs + 2) div 3)"
    by simp
  with 1 show ?case
    by simp
qed (simp_all add: min_def)

lemma encoded_size_eq: "b64_encoded_size n = 4 * ((n + 2) div 3)"
proof (cases "n mod 3 = 0")
  case True
  then obtain k where "n = 3 * k"
    by (metis mod_0_imp_dvd dvdE)
  then show ?thesis
    by (simp add: b64_encoded_size_def)
next
  case False
  define k where "k = n div 3"
  have "n = 3 * k + n mod 3" "n mod 3 < 3"
    by (simp_all add: k_def)
  with False consider "n = 3 * k + 1" | "n = 3 * k + 2"
    by linarith
  then show ?thesis
    by cases (simp_all add: b64_encoded_size_def Let_def mod_Suc)
qed

lemma poke_run:
  assumes "j + length a + length b \<le> length m"
  shows "poke (poke m j a) (j + length a) b = poke m j (a @ b)"
  by (rule nth_equalityI) (use assms in \<open>auto simp: nth_poke nth_append\<close>)

lemma store_four:
  assumes "j + 4 \<le> length out"
  shows "do { out \<leftarrow> store out j [a]; out \<leftarrow> store out (j + 1) [b]; out \<leftarrow> store out (j + 2) [c];
      out \<leftarrow> store out (j + 3) [d]; f out } = f (poke out j [a, b, c, d])"
proof -
  have "poke (poke (poke (poke out j [a]) (j + 1) [b]) (j + 2) [c]) (j + 3) [d] = poke out j [a, b, c, d]"
    by (rule nth_equalityI) (use assms in \<open>auto simp: nth_poke nth_Cons' not_less_eq less_Suc_eq\<close>)
  with assms show ?thesis
    by (simp add: store_def numeral_eq_Suc)
qed

lemmas encode_run = Option.bind.bind_lunit Let_def if_True if_False store_four
  unat_drop_u64 b64char_eq ascii_simps refl

lemma unat_first_byte: "unat (ucast (a :: byte) :: u64) < 2 ^ 32"
  using byte_less [of a] by (simp add: unat_ucast_byte)

lemma encode_step_1:
  assumes a: "peek inp i = Some a" and len: "len = i + 1" and room: "j + 4 \<le> length out"
  shows "b64_encode_loop inp len i j out = b64_encode_loop inp len (i + 3) (j + 4) (poke out j (encoding [a]))"
proof -
  define v1 :: u64 where "v1 = ucast a"
  define v2 where "v2 = push_bit 8 v1"
  define v3 where "v3 = push_bit 8 v2"
  have "unat v2 = unat a * 256"
    by (simp only: v2_def v1_def unat_add_byte [OF unat_first_byte] unat_ucast_byte)
  then have v3: "unat v3 = unat a * 65536"
    using byte_less [of a] unat_add_byte(2) [of v2] by (simp add: v3_def)
  have c: "(i < len) = True" "(i + 1 < len) = False" "(i + 2 < len) = False"
    using len by simp_all
  have e: "encoding [a] = take 2 (sextets (unat v3)) @ [61, 61]"
    by (simp add: v3)
  show ?thesis
    unfolding e by (subst b64_encode_loop.simps) (simp only: encode_run a room c
      v1_def [symmetric] v2_def [symmetric] v3_def [symmetric], simp add: sextets_def)
qed

lemma encode_step_2:
  assumes ab: "peek inp i = Some a" "peek inp (i + 1) = Some b"
    and len: "len = i + 2" and room: "j + 4 \<le> length out"
  shows "b64_encode_loop inp len i j out = b64_encode_loop inp len (i + 3) (j + 4) (poke out j (encoding [a, b]))"
proof -
  define v1 :: u64 where "v1 = ucast a"
  define v2 where "v2 = push_bit 8 v1 OR ucast b"
  define v3 where "v3 = push_bit 8 v2"
  have "unat v2 = unat a * 256 + unat b"
    by (simp only: v2_def v1_def unat_add_byte [OF unat_first_byte] unat_ucast_byte)
  then have v3: "unat v3 = unat a * 65536 + unat b * 256"
    using byte_less [of a] byte_less [of b] unat_add_byte(2) [of v2] by (simp add: v3_def)
  have c: "(i < len) = True" "(i + 1 < len) = True" "(i + 2 < len) = False"
    using len by simp_all
  have e: "encoding [a, b] = take 3 (sextets (unat v3)) @ [61]"
    by (simp add: v3)
  show ?thesis
    unfolding e by (subst b64_encode_loop.simps) (simp only: encode_run ab room c
      v1_def [symmetric] v2_def [symmetric] v3_def [symmetric], simp add: sextets_def)
qed

lemma encode_step_3:
  assumes abd: "peek inp i = Some a" "peek inp (i + 1) = Some b" "peek inp (i + 2) = Some d"
    and len: "i + 2 < len" and room: "j + 4 \<le> length out"
  shows "b64_encode_loop inp len i j out =
    b64_encode_loop inp len (i + 3) (j + 4) (poke out j (encoding [a, b, d]))"
proof -
  define v1 :: u64 where "v1 = ucast a"
  define v2 where "v2 = push_bit 8 v1 OR ucast b"
  define v3 where "v3 = push_bit 8 v2 OR ucast d"
  have "unat v2 = unat a * 256 + unat b"
    by (simp only: v2_def v1_def unat_add_byte [OF unat_first_byte] unat_ucast_byte)
  then have v3: "unat v3 = unat a * 65536 + unat b * 256 + unat d"
    using byte_less [of a] byte_less [of b] unat_add_byte(1) [of v2 d] by (simp add: v3_def)
  have c: "(i < len) = True" "(i + 1 < len) = True" "(i + 2 < len) = True"
    using len by simp_all
  have e: "encoding [a, b, d] = sextets (unat v3)"
    by (simp add: v3)
  show ?thesis
    unfolding e by (subst b64_encode_loop.simps) (simp only: encode_run abd room c
      v1_def [symmetric] v2_def [symmetric] v3_def [symmetric], simp add: sextets_def)
qed

text \<open>The whole loop, by the groups of the remaining input \<open>bs\<close>.\<close>

lemma encode_loop_eq:
  assumes "drop i (take len inp) = bs" and "i \<le> len" and "len \<le> length inp"
    and "j + length (encoding bs) \<le> length out"
  shows "b64_encode_loop inp len i j out = Some (poke out j (encoding bs))"
  using assms
proof (induction bs arbitrary: i j out rule: encoding.induct)
  case (1 a b c bs)
  have "length (drop i (take len inp)) = len - i"
    using 1(4) by simp
  then have len: "i + 2 < len"
    using 1(2) by simp
  have nth: "drop i (take len inp) ! k = inp ! (i + k)" if "k < len - i" for k
    using that 1(4) by simp
  have "peek inp i = Some a" "peek inp (i + 1) = Some b" "peek inp (i + 2) = Some c"
    using nth [of 0] nth [of 1] nth [of 2] 1(2,4) len by (simp_all add: peek_def)
  note step = encode_step_3 [OF this len]
  have rest: "drop (i + 3) (take len inp) = bs"
    using arg_cong [OF 1(2), of "drop 3"] by (simp add: add.commute)
  have room: "j + 4 \<le> length out" "(j + 4) + length (encoding bs) \<le> length out"
    using 1 by simp_all
  then have "b64_encode_loop inp len (i + 3) (j + 4) (poke out j (encoding [a, b, c])) =
      Some (poke (poke out j (encoding [a, b, c])) (j + 4) (encoding bs))"
    using 1(1) [of "i + 3" "j + 4"] rest len 1(4) by simp
  moreover have "poke (poke out j (encoding [a, b, c])) (j + 4) (encoding bs) =
      poke out j (encoding (a # b # c # bs))"
    using poke_run [of j "encoding [a, b, c]" "encoding bs" out] room by simp
  ultimately show ?case
    by (simp only: step [OF room(1)])
next
  case (2 a b)
  have len: "len = i + 2"
    using 2(2,3) arg_cong [OF 2(1), of length] by simp
  then have "inp ! i = a" "inp ! (i + 1) = b"
    using 2(1) nth_drop [of i "take len inp" 0] nth_drop [of i "take len inp" 1] 2 by simp_all
  then have "peek inp i = Some a" "peek inp (i + 1) = Some b"
    using 2 len by (simp_all add: peek_def)
  then show ?case
    using encode_step_2 [of inp i a b len j out] 2 len by (simp add: b64_encode_loop.simps)
next
  case (3 a)
  have len: "len = i + 1"
    using 3(2,3) arg_cong [OF 3(1), of length] by simp
  then have "inp ! i = a"
    using 3(1) nth_drop [of i "take len inp" 0] 3 by simp
  then have "peek inp i = Some a"
    using 3 len by (simp_all add: peek_def)
  then show ?case
    using encode_step_1 [of inp i a len j out] 3 len by (simp add: b64_encode_loop.simps)
next
  case 4
  then have "\<not> i < len"
    by simp
  then show ?case
    by (simp add: b64_encode_loop.simps [of inp len i] poke_def)
qed

lemma malloc_okD: "malloc_ok malloc \<Longrightarrow> n < 2 ^ 63 \<Longrightarrow> \<exists>m. malloc n = Some m \<and> length m = n"
  and malloc_huge: "malloc_ok malloc \<Longrightarrow> \<not> n < 2 ^ 63 \<Longrightarrow> malloc n = None"
  by (auto simp: malloc_ok_def dest: spec [of _ n])

lemma b64_encode_eq:
  assumes "malloc_ok malloc" and n: "0 < n" "n \<le> length xs" "n < 2 ^ 62"
  shows "b64_encode malloc (Some xs) n = Some (Some (encoding (take n xs) @ [0]))"
proof -
  define k where "k = b64_encoded_size n"
  have k: "k = length (encoding (take n xs))"
    using n by (simp add: k_def encoded_size_eq length_encoding)
  have "3 * ((n + 2) div 3) \<le> n + 2"
    by simp
  then have "k + 1 < 2 ^ 63"
    using n(3) by (simp add: k_def encoded_size_eq)
  then obtain m where m: "malloc (k + 1) = Some m" "length m = k + 1"
    using malloc_okD [OF assms(1)] by blast
  have "b64_encode malloc (Some xs) n =
      Some (Some (poke (poke m k [0]) 0 (encoding (take n xs))))"
    using n m k by (simp add: b64_encode_def k_def [symmetric] store_def encode_loop_eq)
  also have "poke (poke m k [0]) 0 (encoding (take n xs)) = encoding (take n xs) @ [0]"
    using m(2) k by (simp add: poke_def)
  finally show ?thesis .
qed

lemma encoding_valid:
  "list_all (\<lambda>c. b64_isvalidchar c \<and> c \<noteq> 0) (encoding bs)"
  by (induction bs rule: encoding.induct)
    (simp_all add: sextets_def, simp_all add: b64_isvalidchar_def)

section \<open>The decoder\<close>

definition inv_of :: "byte \<Rightarrow> u32" where
  "inv_of c = the (b64inv c)"

definition quad :: "byte \<Rightarrow> byte \<Rightarrow> byte \<Rightarrow> byte \<Rightarrow> u32" where
  "quad c0 c1 c2 c3 =
     (let v = push_bit 6 (inv_of c0) OR inv_of c1;
          v = (if c2 = 61 then push_bit 6 v else push_bit 6 v OR inv_of c2)
      in if c3 = 61 then push_bit 6 v else push_bit 6 v OR inv_of c3)"

lemma b64inv_valid: "b64_isvalidchar c \<Longrightarrow> b64inv c = Some (inv_of c)"
  by (erule valid_char_cases) (simp_all add: inv_of_def)

text \<open>The writes of one group, whose word is \<open>v\<close>.\<close>

definition put_group :: "byte \<Rightarrow> byte \<Rightarrow> u32 \<Rightarrow> nat \<Rightarrow> memory \<Rightarrow> memory ub" where
  "put_group c2 c3 v j out =
     do {
       out \<leftarrow> store out j [ucast (drop_bit 16 v AND 0xFF)];
       out \<leftarrow> (if c2 \<noteq> 61 then store out (j + 1) [ucast (drop_bit 8 v AND 0xFF)] else Some out);
       (if c3 \<noteq> 61 then store out (j + 2) [ucast (v AND 0xFF)] else Some out)
     }"

lemma decode_step:
  assumes "inp = pre @ c0 # c1 # c2 # c3 # post" and "length pre = i"
    and valid: "b64_isvalidchar c0" "b64_isvalidchar c1" "b64_isvalidchar c2" "b64_isvalidchar c3"
  shows "b64_decode_loop inp i j out =
    do { out \<leftarrow> put_group c2 c3 (quad c0 c1 c2 c3) j out; b64_decode_loop inp (i + 4) (j + 3) out }"
proof -
  have p: "peek inp i = Some c0" "peek inp (i + 1) = Some c1" "peek inp (i + 2) = Some c2"
      "peek inp (i + 3) = Some c3" "i < length inp"
    using assms(1,2) by (simp_all add: peek_def nth_append)
  show ?thesis
    by (cases "c2 = 61"; cases "c3 = 61"; subst b64_decode_loop.simps)
      (simp_all only: p b64inv_valid valid Option.bind.bind_lunit Let_def if_True if_False ascii_simps
        quad_def simp_thms put_group_def Option.bind_assoc)
qed

lemma decode_done: "length inp \<le> i \<Longrightarrow> b64_decode_loop inp i j out = Some out"
  by (simp add: b64_decode_loop.simps)

text \<open>How far the loop writes, and that nothing else can go wrong.\<close>

fun extent :: "memory \<Rightarrow> nat" where
  "extent [c0, c1, c2, c3] = (if c3 \<noteq> 61 then 3 else if c2 \<noteq> 61 then 2 else 1)"
| "extent (c0 # c1 # c2 # c3 # cs) = 3 + extent cs"
| "extent _ = 0"

definition tail_extent :: "byte \<Rightarrow> byte \<Rightarrow> nat" where
  "tail_extent c2 c3 = (if c3 \<noteq> 61 then 3 else if c2 \<noteq> 61 then 2 else 1)"

lemma extent_Cons:
  "extent (c0 # c1 # c2 # c3 # cs) = (if cs = [] then tail_extent c2 c3 else 3 + extent cs)"
  by (cases cs) (simp_all add: tail_extent_def)

lemma extent_pos: "cs \<noteq> [] \<Longrightarrow> length cs mod 4 = 0 \<Longrightarrow> 0 < extent cs"
  by (induction cs rule: extent.induct) auto

lemma store_byte: "store m i [b] = (if i < length m then Some (poke m i [b]) else None)"
  by (simp add: store_def Suc_le_eq)

lemma put_group_fits:
  "j + tail_extent c2 c3 \<le> length out \<Longrightarrow>
    \<exists>out'. put_group c2 c3 v j out = Some out' \<and> length out' = length out"
  by (simp add: put_group_def store_byte tail_extent_def split: if_splits)

lemma put_group_fault: "length out < j + tail_extent c2 c3 \<Longrightarrow> put_group c2 c3 v j out = None"
  by (simp add: put_group_def store_byte tail_extent_def split: if_splits)

lemma decode_loop_Some_iff:
  assumes "inp = pre @ rest" "length pre = i" "length rest = 4 * Suc k" "list_all b64_isvalidchar rest"
  shows "(\<exists>r. b64_decode_loop inp i j out = Some r) \<longleftrightarrow> j + extent rest \<le> length out"
  using assms
proof (induction k arbitrary: pre rest i j out)
  case (0 pre rest i j out)
  then obtain c0 c1 c2 c3 where rest: "rest = [c0, c1, c2, c3]"
    by (auto simp: numeral_eq_Suc length_Suc_conv)
  have "b64_isvalidchar c0" "b64_isvalidchar c1" "b64_isvalidchar c2" "b64_isvalidchar c3"
    using 0 by (simp_all add: rest)
  from decode_step [of inp pre c0 c1 c2 c3 "[]", OF _ 0(2) this]
  have "b64_decode_loop inp i j out = put_group c2 c3 (quad c0 c1 c2 c3) j out"
    using 0 by (simp add: rest decode_done)
  then show ?case
    using put_group_fits [of j c2 c3 out] put_group_fault [of out j c2 c3]
    by (cases "j + tail_extent c2 c3 \<le> length out") (auto simp: rest extent_Cons)
next
  case (Suc k pre rest i j out)
  then obtain c0 c1 c2 c3 post where rest: "rest = c0 # c1 # c2 # c3 # post"
    by (auto simp: numeral_eq_Suc length_Suc_conv)
  have post: "length post = 4 * Suc k" "list_all b64_isvalidchar post"
    using Suc by (simp_all add: rest)
  then have pos: "0 < extent post" "post \<noteq> []"
    by (auto intro!: extent_pos)
  have tail: "tail_extent c2 c3 \<le> 3"
    by (simp add: tail_extent_def)
  have "b64_isvalidchar c0" "b64_isvalidchar c1" "b64_isvalidchar c2" "b64_isvalidchar c3"
    using Suc by (simp_all add: rest)
  from decode_step [of inp pre c0 c1 c2 c3 post, OF _ Suc(3) this]
  have step: "b64_decode_loop inp i j out = do { out \<leftarrow> put_group c2 c3 (quad c0 c1 c2 c3) j out;
      b64_decode_loop inp (i + 4) (j + 3) out }"
    using Suc by (simp add: rest)
  have IH: "(\<exists>r. b64_decode_loop inp (i + 4) (j + 3) out = Some r) \<longleftrightarrow> j + 3 + extent post \<le> length out" for out
    using Suc.IH [of "pre @ [c0, c1, c2, c3]" post "i + 4" "j + 3"] post Suc(2,3) by (simp add: rest)
  show ?case
  proof (cases "j + tail_extent c2 c3 \<le> length out")
    case True
    then show ?thesis
    proof -
      obtain out' where "put_group c2 c3 (quad c0 c1 c2 c3) j out = Some out'" "length out' = length out"
        using put_group_fits [OF True] by blast
      then show ?thesis
        using IH [of out'] pos by (simp add: step rest extent_Cons add.assoc)
    qed
  next
    case False
    then show ?thesis
      using put_group_fault [of out j c2 c3] tail pos by (simp add: step rest extent_Cons)
  qed
qed

section \<open>Trailing padding\<close>

definition pads :: "memory \<Rightarrow> nat" where
  "pads s = length (takeWhile (\<lambda>c. c = 61) (rev s))"

lemma trailing_pad_eq: "trailing_pad cs r = r - of_nat (length (takeWhile (\<lambda>c. c = 61) cs))"
  by (induction cs arbitrary: r) (simp_all add: trailing_pad.simps)

lemma decoded_size_eq: "b64_decoded_size (Some s) = of_nat (length s div 4 * 3) - of_nat (pads s)"
  by (simp add: b64_decoded_size_def trailing_pad_eq pads_def)

lemma takeWhile_ge:
  "k \<le> length (takeWhile P xs) \<longleftrightarrow> k \<le> length xs \<and> list_all P (take k xs)"
proof (induction xs arbitrary: k)
  case (Cons x xs)
  then show ?case
    by (cases k) auto
qed simp

lemma four_pads: "4 \<le> length (takeWhile (\<lambda>c. c = 61) xs) \<longleftrightarrow> (\<exists>u. xs = [61, 61, 61, 61] @ u)"
  for xs :: memory
proof
  assume "4 \<le> length (takeWhile (\<lambda>c. c = 61) xs)"
  then have four: "length (take 4 xs) = 4" "\<forall>c \<in> set (take 4 xs). c = 61"
    by (simp_all add: takeWhile_ge list_all_iff)
  then have "take 4 xs = replicate 4 61"
    by (metis replicate_length_same)
  also have "\<dots> = [61, 61, 61, 61]"
    by (simp add: numeral_eq_Suc)
  finally show "\<exists>u. xs = [61, 61, 61, 61] @ u"
    by (metis append_take_drop_id)
qed auto

lemma pads_ge_4: "4 \<le> pads s \<longleftrightarrow> (\<exists>t. s = t @ [61, 61, 61, 61])"
proof -
  have "rev s = [61, 61, 61, 61] @ u \<longleftrightarrow> s = rev u @ [61, 61, 61, 61]" for u
    by (subst rev_swap) simp
  then show ?thesis
    unfolding pads_def four_pads by (metis rev_rev_ident)
qed

lemma extent_snoc:
  "length t = 4 * k \<Longrightarrow> extent (t @ [c0, c1, c2, c3]) = 3 * k + tail_extent c2 c3"
proof (induction k arbitrary: t)
  case (Suc k)
  then obtain d0 d1 d2 d3 u where "t = d0 # d1 # d2 # d3 # u" "length u = 4 * k"
    by (auto simp: numeral_eq_Suc length_Suc_conv)
  with Suc.IH [of u] show ?case
    by (simp add: extent_Cons)
qed (simp add: extent_Cons)

lemma extent_pads:
  assumes "length s = 4 * Suc k"
  shows "extent s + min (pads s) 2 = 3 * Suc k"
proof -
  define t where "t = take (4 * k) s"
  define u where "u = drop (4 * k) s"
  have "length u = 4"
    using assms by (simp add: u_def)
  then obtain c0 c1 c2 c3 where "u = [c0, c1, c2, c3]"
    by (auto simp: numeral_eq_Suc length_Suc_conv)
  then have s: "s = t @ [c0, c1, c2, c3]"
    by (metis append_take_drop_id t_def u_def)
  have "length t = 4 * k"
    using assms by (simp add: t_def)
  then show ?thesis
    by (simp add: s extent_snoc tail_extent_def pads_def)
qed

lemma pads_le: "pads s \<le> length s"
  by (metis length_rev length_takeWhile_le pads_def)

text \<open>The wrapped size of an all-padding string is too large to allocate.\<close>

lemma negative_size: "0 < e \<Longrightarrow> e < 2 ^ 62 \<Longrightarrow> \<not> unat (- of_nat e :: u64) < 2 ^ 63"
proof
  assume e: "0 < e" "e < 2 ^ 62" and "unat (- of_nat e :: u64) < 2 ^ 63"
  then have "unat (- of_nat e :: u64) + e < 2 ^ 64"
    by simp
  moreover have "unat (of_nat e :: u64) = e"
    using e(2) by (intro unat_of_nat_small) simp
  ultimately have "unat (- of_nat e + of_nat e :: u64) = unat (- of_nat e :: u64) + e"
    by (subst unat_add_lem [THEN iffD1]) simp_all
  with e(1) show False
    by simp
qed

text \<open>Decoding with a size that does not wrap runs exactly when the writes fit.\<close>

lemma decode_fits:
  assumes malloc: "malloc_ok malloc" and s: "length s = 4 * Suc k" "list_all b64_isvalidchar s"
    and m: "b64_decoded_size (Some s) = of_nat m" "m + 1 < 2 ^ 63"
  shows "b64_decode malloc (Some s) = None \<longleftrightarrow> m + 1 < extent s"
proof -
  define n where "n = b64_decoded_size (Some s)"
  have "unat n = m"
    unfolding n_def m(1) using m(2) by (intro unat_of_nat_small) simp
  moreover have "unat (n + 1) = m + 1"
  proof -
    have "n + 1 = of_nat (m + 1)"
      by (simp add: n_def m(1))
    moreover have "m + 1 < 2 ^ LENGTH(64)"
      using m(2) by simp
    ultimately show ?thesis
      by (simp only: unat_of_nat_small)
  qed
  moreover obtain out where out: "malloc (m + 1) = Some out" "length out = m + 1"
    using malloc_okD [OF malloc m(2)] by blast
  ultimately have "b64_decode malloc (Some s) = do { out \<leftarrow> b64_decode_loop s 0 0 (poke out m [0]);
      Some (Some (out, n)) }"
    using s by (simp add: b64_decode_def n_def [symmetric] store_byte)
  moreover have "(\<exists>r. b64_decode_loop s 0 0 (poke out m [0]) = Some r) \<longleftrightarrow> extent s \<le> m + 1"
    using decode_loop_Some_iff [of s "[]" s 0 k 0 "poke out m [0]"] s out by simp
  ultimately show ?thesis
    by (cases "b64_decode_loop s 0 0 (poke out m [0])") auto
qed

lemma decode_wraps:
  assumes malloc: "malloc_ok malloc" and s: "length s = 4 * Suc k" "list_all b64_isvalidchar s"
    and small: "length s < 2 ^ 62" and wrap: "3 * Suc k < pads s"
  shows "b64_decode malloc (Some s) = None"
proof -
  define d where "d = pads s - 3 * Suc k - 1"
  have "pads s = 3 * Suc k + (d + 1)"
    using wrap by (simp add: d_def)
  then have n: "b64_decoded_size (Some s) = - of_nat d - 1"
    unfolding decoded_size_eq using s(1) by simp
  have d: "d < 2 ^ 62"
    using pads_le [of s] small by (simp add: d_def)
  show ?thesis
  proof (cases "d = 0")
    case True
    then show ?thesis
      using malloc_okD [OF malloc, of 0] n s by (auto simp: b64_decode_def store_byte)
  next
    case False
    then show ?thesis
      using malloc_huge [OF malloc negative_size] d n s by (simp add: b64_decode_def)
  qed
qed

lemma decode_valid:
  assumes malloc: "malloc_ok malloc" and s: "length s = 4 * Suc k" "list_all b64_isvalidchar s"
    and small: "length s < 2 ^ 62"
  shows "b64_decode malloc (Some s) = None \<longleftrightarrow> 4 \<le> pads s"
proof (cases "pads s \<le> 3 * Suc k")
  case True
  have "length s div 4 * 3 = 3 * Suc k"
    using s(1) by simp
  then have "b64_decoded_size (Some s) = of_nat (3 * Suc k - pads s)"
    by (simp only: decoded_size_eq of_nat_diff [OF True])
  moreover have "3 * Suc k - pads s + 1 < 2 ^ 63"
    using small s(1) by simp
  ultimately have "b64_decode malloc (Some s) = None \<longleftrightarrow> 3 * Suc k - pads s + 1 < extent s"
    by (rule decode_fits [OF malloc s])
  then show ?thesis
    using extent_pads [OF s(1)] True by linarith
qed (use decode_wraps [OF assms] in simp)

section \<open>Decoding what was encoded\<close>

lemma inv_of_char: "k < 64 \<Longrightarrow> unat (inv_of (b64chars ! k)) = k"
  by (simp add: inv_of_def unat_of_nat_small)

lemma unat_add_sextet:
  "unat (v :: u32) < 2 ^ 26 \<Longrightarrow> unat x < 64 \<Longrightarrow> unat (push_bit 6 v OR x) = unat v * 64 + unat x"
  "unat (v :: u32) < 2 ^ 26 \<Longrightarrow> unat (push_bit 6 v) = unat v * 64"
  using unat_shift_or [of x 6 v] unat_push_bit_small [of v 6] by simp_all

lemma quad_value:
  assumes "x0 < 64" "x1 < 64" "x2 < 64" "x3 < 64"
  shows "unat (quad (b64chars ! x0) (b64chars ! x1) (b64chars ! x2) (b64chars ! x3)) =
      x0 * 2 ^ 18 + x1 * 2 ^ 12 + x2 * 2 ^ 6 + x3"
    and "unat (quad (b64chars ! x0) (b64chars ! x1) (b64chars ! x2) 61) =
      x0 * 2 ^ 18 + x1 * 2 ^ 12 + x2 * 2 ^ 6"
    and "unat (quad (b64chars ! x0) (b64chars ! x1) 61 61) = x0 * 2 ^ 18 + x1 * 2 ^ 12"
proof -
  define v1 where "v1 = push_bit 6 (inv_of (b64chars ! x0)) OR inv_of (b64chars ! x1)"
  have v1: "unat v1 = x0 * 64 + x1"
    using assms by (simp add: v1_def unat_add_sextet inv_of_char)
  define v2 where "v2 = push_bit 6 v1 OR inv_of (b64chars ! x2)"
  have v2: "unat v2 = unat v1 * 64 + x2"
    using assms v1 by (simp add: v2_def unat_add_sextet inv_of_char)
  define v2' where "v2' = push_bit 6 v1"
  have v2': "unat v2' = unat v1 * 64"
    using assms v1 by (simp add: v2'_def unat_add_sextet)
  note alph = b64chars_simps(2) [OF assms(3)] b64chars_simps(2) [OF assms(4)]
  have q: "quad (b64chars ! x0) (b64chars ! x1) (b64chars ! x2) (b64chars ! x3) =
        push_bit 6 v2 OR inv_of (b64chars ! x3)"
      "quad (b64chars ! x0) (b64chars ! x1) (b64chars ! x2) 61 = push_bit 6 v2"
      "quad (b64chars ! x0) (b64chars ! x1) 61 61 = push_bit 6 v2'"
    by (simp_all only: quad_def Let_def alph if_True if_False v1_def v2_def v2'_def simp_thms)
  show "unat (quad (b64chars ! x0) (b64chars ! x1) (b64chars ! x2) (b64chars ! x3)) =
      x0 * 2 ^ 18 + x1 * 2 ^ 12 + x2 * 2 ^ 6 + x3"
    using unat_add_sextet(1) [of v2 "inv_of (b64chars ! x3)"] assms v1 v2
    by (simp only: q(1) inv_of_char) simp
  show "unat (quad (b64chars ! x0) (b64chars ! x1) (b64chars ! x2) 61) =
      x0 * 2 ^ 18 + x1 * 2 ^ 12 + x2 * 2 ^ 6"
    using unat_add_sextet(2) [of v2] assms v1 v2 by (simp only: q(2)) simp
  show "unat (quad (b64chars ! x0) (b64chars ! x1) 61 61) = x0 * 2 ^ 18 + x1 * 2 ^ 12"
    using unat_add_sextet(2) [of v2'] assms v1 v2' by (simp only: q(3)) simp
qed

lemma byte_eqI: "unat (x :: byte) = unat y \<Longrightarrow> x = y"
  by (rule unsigned_word_eqI)

lemma group_bytes:
  assumes "unat (v :: u32) = unat (a :: byte) * 65536 + unat (b :: byte) * 256 + unat (c :: byte)"
  shows "ucast (drop_bit 16 v AND 0xFF) = a" "ucast (drop_bit 8 v AND 0xFF) = b" "ucast (v AND 0xFF) = c"
proof -
  have "unat v div 2 ^ 16 mod 256 = unat a" "unat v div 2 ^ 8 mod 256 = unat b" "unat v mod 256 = unat c"
  proof -
    have v: "unat v = (unat a * 256 + unat b) * 256 + unat c"
      using assms by simp
    have q: "unat v div 256 = unat a * 256 + unat b"
      unfolding v using byte_less [of c] by (subst div_mult_self3) simp_all
    have r: "unat v mod 256 = unat c"
      unfolding v using byte_less [of c] by (subst mod_mult_self3) simp
    have h: "unat v div 2 ^ 16 = unat v div 256 div 256"
      by (simp add: div_mult2_eq [symmetric])
    show "unat v div 2 ^ 16 mod 256 = unat a" "unat v div 2 ^ 8 mod 256 = unat b" "unat v mod 256 = unat c"
      using byte_less [of a] byte_less [of b] q r by (simp_all add: h)
  qed
  then show "ucast (drop_bit 16 v AND 0xFF) = a" "ucast (drop_bit 8 v AND 0xFF) = b" "ucast (v AND 0xFF) = c"
    using low_byte [of 16 v] low_byte [of 8 v] low_byte [of 0 v]
    by (simp_all add: byte_eqI)
qed

text \<open>The bytes of a group, by its number of input bytes.\<close>

lemma sextet_sum: "v < 2 ^ 24 \<Longrightarrow>
    v div 2 ^ 18 mod 64 * 2 ^ 18 + v div 2 ^ 12 mod 64 * 2 ^ 12 + v div 2 ^ 6 mod 64 * 2 ^ 6 + v mod 64 = v"
  for v :: nat
proof -
  assume "v < 2 ^ 24"
  define p where "p = v div 64"
  define q where "q = p div 64"
  define t where "t = q div 64"
  have "v = p * 64 + v mod 64" "p = q * 64 + p mod 64" "q = t * 64 + q mod 64"
    by (simp_all add: p_def q_def t_def)
  moreover have d: "v div 2 ^ 12 = q" "v div 2 ^ 18 = t" "v div 2 ^ 6 = p"
    by (simp_all add: p_def q_def t_def div_mult2_eq [symmetric])
  moreover have "t mod 64 = t"
    using \<open>v < 2 ^ 24\<close> unfolding d(2) [symmetric] by simp
  ultimately show ?thesis
    unfolding d by simp
qed

lemma mod_64_less: "k mod 64 < (64 :: nat)"
  by simp

lemma group_roundtrip_3:
  fixes a b c :: byte
  assumes "j + 3 \<le> length out"
  obtains c0 c1 c2 c3 where "sextets (unat a * 65536 + unat b * 256 + unat c) = [c0, c1, c2, c3]"
    and "put_group c2 c3 (quad c0 c1 c2 c3) j out = Some (poke out j [a, b, c])"
proof -
  define v where "v = unat a * 65536 + unat b * 256 + unat c"
  have "v < 2 ^ 24"
    using byte_less [of a] byte_less [of b] byte_less [of c] by (simp add: v_def)
  note quad_value(1) [OF mod_64_less mod_64_less mod_64_less mod_64_less,
      of "v div 2 ^ 18" "v div 2 ^ 12" "v div 2 ^ 6" v, unfolded sextet_sum [OF this]]
  note bytes = group_bytes [OF this [unfolded v_def]]
  show thesis
    using that bytes poke_run [of j "[a]" "[b]" out] poke_run [of j "[a, b]" "[c]" out] assms
    by (simp add: sextets_def put_group_def store_byte flip: v_def)
qed

lemma group_roundtrip_2:
  fixes a b :: byte
  assumes "j + 2 \<le> length out"
  obtains c0 c1 c2 where "take 3 (sextets (unat a * 65536 + unat b * 256)) = [c0, c1, c2]"
    and "put_group c2 61 (quad c0 c1 c2 61) j out = Some (poke out j [a, b])"
proof -
  define v where "v = unat a * 65536 + unat b * 256"
  define q where "q = quad (b64chars ! (v div 2 ^ 18 mod 64)) (b64chars ! (v div 2 ^ 12 mod 64))
      (b64chars ! (v div 2 ^ 6 mod 64)) 61"
  have v: "v < 2 ^ 24" "v mod 64 = 0"
    using byte_less [of a] byte_less [of b] by (simp_all add: v_def)
  have "unat q = v"
    unfolding q_def
    using quad_value(2) [OF mod_64_less mod_64_less mod_64_less mod_64_less,
        of "v div 2 ^ 18" "v div 2 ^ 12" "v div 2 ^ 6"] sextet_sum [OF v(1)] v(2)
    by linarith
  then have "unat q = unat a * 65536 + unat b * 256 + unat (0 :: byte)"
    by (simp add: v_def)
  note bytes = group_bytes [OF this]
  have "put_group (b64chars ! (v div 2 ^ 6 mod 64)) 61 q j out = Some (poke out j [a, b])"
    using bytes poke_run [of j "[a]" "[b]" out] assms by (simp add: put_group_def store_byte)
  moreover have "take 3 (sextets v) = [b64chars ! (v div 2 ^ 18 mod 64),
      b64chars ! (v div 2 ^ 12 mod 64), b64chars ! (v div 2 ^ 6 mod 64)]"
    by (simp add: sextets_def)
  ultimately show thesis
    using that by (simp only: q_def v_def)
qed

lemma group_roundtrip_1:
  fixes a :: byte
  assumes "j + 1 \<le> length out"
  obtains c0 c1 where "take 2 (sextets (unat a * 65536)) = [c0, c1]"
    and "put_group 61 61 (quad c0 c1 61 61) j out = Some (poke out j [a])"
proof -
  define v where "v = unat a * 65536"
  define q where "q = quad (b64chars ! (v div 2 ^ 18 mod 64)) (b64chars ! (v div 2 ^ 12 mod 64)) 61 61"
  have v: "v < 2 ^ 24" "v mod 64 = 0" "v div 2 ^ 6 mod 64 = 0"
    using byte_less [of a] by (simp_all add: v_def)
  have "unat q = v"
    unfolding q_def
    using quad_value(3) [OF mod_64_less mod_64_less mod_64_less mod_64_less,
        of "v div 2 ^ 18" "v div 2 ^ 12"] sextet_sum [OF v(1)]
    by (simp only: v(2,3) mult_zero_left add_0_right)
  then have "unat q = unat a * 65536 + unat (0 :: byte) * 256 + unat (0 :: byte)"
    by (simp add: v_def)
  note bytes = group_bytes [OF this]
  have "put_group 61 61 q j out = Some (poke out j [a])"
    using bytes assms by (simp add: put_group_def store_byte)
  moreover have "take 2 (sextets v) = [b64chars ! (v div 2 ^ 18 mod 64), b64chars ! (v div 2 ^ 12 mod 64)]"
    by (simp add: sextets_def)
  ultimately show thesis
    using that by (simp only: q_def v_def)
qed

lemma decode_encoding:
  assumes "inp = pre @ encoding bs" "length pre = i" "j + length bs \<le> length out"
  shows "b64_decode_loop inp i j out = Some (poke out j bs)"
  using assms
proof (induction bs arbitrary: pre i j out rule: encoding.induct)
  case (1 a b c bs)
  obtain c0 c1 c2 c3 where c: "sextets (unat a * 65536 + unat b * 256 + unat c) = [c0, c1, c2, c3]"
      "put_group c2 c3 (quad c0 c1 c2 c3) j out = Some (poke out j [a, b, c])"
    by (rule group_roundtrip_3 [of j out a b c]) (use 1(4) in simp, blast)
  have "list_all b64_isvalidchar [c0, c1, c2, c3]"
    using encoding_valid [of "[a, b, c]"] c(1) by simp
  then have "b64_decode_loop inp i j out = b64_decode_loop inp (i + 4) (j + 3) (poke out j [a, b, c])"
    using decode_step [of inp pre c0 c1 c2 c3 "encoding bs" i j out] 1(2,3) c by simp
  also have "\<dots> = Some (poke (poke out j [a, b, c]) (j + 3) bs)"
    using 1(1) [of "pre @ [c0, c1, c2, c3]" "i + 4" "j + 3" "poke out j [a, b, c]"] 1(2-4) c(1) by simp
  also have "\<dots> = Some (poke out j (a # b # c # bs))"
    using poke_run [of j "[a, b, c]" bs out] 1(4) by (simp add: numeral_3_eq_3)
  finally show ?case .
next
  case (2 a b)
  obtain c0 c1 c2 where c: "take 3 (sextets (unat a * 65536 + unat b * 256)) = [c0, c1, c2]"
      "put_group c2 61 (quad c0 c1 c2 61) j out = Some (poke out j [a, b])"
    by (rule group_roundtrip_2 [of j out a b]) (use 2(3) in simp, blast)
  have "list_all b64_isvalidchar [c0, c1, c2, 61]"
    using encoding_valid [of "[a, b]"] c(1) by simp
  then show ?case
    using decode_step [of inp pre c0 c1 c2 61 "[]" i j out] 2 c by (simp add: decode_done)
next
  case (3 a)
  obtain c0 c1 where c: "take 2 (sextets (unat a * 65536)) = [c0, c1]"
      "put_group 61 61 (quad c0 c1 61 61) j out = Some (poke out j [a])"
    by (rule group_roundtrip_1 [of j out a]) (use 3(3) in simp, blast)
  have "list_all b64_isvalidchar [c0, c1, 61, 61]"
    using encoding_valid [of "[a]"] c(1) by simp
  then show ?case
    using decode_step [of inp pre c0 c1 61 61 "[]" i j out] 3 c by (simp add: decode_done)
next
  case 4
  then show ?case
    by (simp add: decode_done poke_def)
qed

lemma pads_append: "xs \<noteq> [] \<Longrightarrow> last xs \<noteq> 61 \<Longrightarrow> pads (xs @ ys) = pads ys"
proof -
  assume xs: "xs \<noteq> []" "last xs \<noteq> 61"
  then have "takeWhile (\<lambda>c. c = 61) (rev xs) = []"
    by (cases xs rule: rev_cases) auto
  then have "takeWhile (\<lambda>c. c = 61) (rev ys @ rev xs) = takeWhile (\<lambda>c. c = 61) (rev ys)"
    by (cases "\<forall>c \<in> set (rev ys). c = 61")
      (simp_all add: takeWhile_append takeWhile_eq_all_conv [THEN iffD2])
  then show ?thesis
    by (simp add: pads_def)
qed

lemma pads_group: "pads (encoding (a # b # c # bs)) = pads (encoding bs)"
  by (simp add: pads_append sextets_def [of "unat a * 65536 + unat b * 256 + unat c"])
    (subst pads_append [of "[_, _, _, _]", simplified append.simps], simp_all)

lemma pads_encoding: "pads (encoding bs) < 4"
proof (induction bs rule: encoding.induct)
  case (1 a b c bs)
  then show ?case
    by (simp only: pads_group)
qed (auto simp: pads_def sextets_def)

lemma encoding_decoded_size:
  "b64_decoded_size (Some (encoding bs)) = of_nat (length bs)"
proof (cases "bs = []")
  case True
  then show ?thesis
    by (simp add: decoded_size_eq pads_def)
next
  case False
  have "length (encoding bs) div 4 * 3 = length bs + pads (encoding bs)"
  proof (induction bs rule: encoding.induct)
    case (1 a b c bs)
    have "length (encoding (a # b # c # bs)) = 4 + length (encoding bs)"
      by simp
    with 1 show ?case
      by (simp add: pads_group length_encoding del: encoding.simps)
  qed (simp_all add: pads_def sextets_def)
  then show ?thesis
    by (simp add: decoded_size_eq)
qed

lemma decode_encoded:
  assumes "malloc_ok malloc" and "length bs < 2 ^ 62"
  shows "b64_decode malloc (Some (encoding bs)) = Some (Some (bs @ [0], of_nat (length bs)))"
proof -
  have n: "unat (of_nat (length bs) :: u64) = length bs"
    using assms(2) by (intro unat_of_nat_small) simp
  moreover have "unat (of_nat (length bs) + 1 :: u64) = length bs + 1"
  proof -
    have "of_nat (length bs) + 1 = (of_nat (length bs + 1) :: u64)"
      by simp
    moreover have "length bs + 1 < 2 ^ LENGTH(64)"
      using assms(2) by simp
    ultimately show ?thesis
      by (simp only: unat_of_nat_small)
  qed
  moreover obtain out where out: "malloc (length bs + 1) = Some out" "length out = length bs + 1"
    using malloc_okD [OF assms(1), of "length bs + 1"] assms(2) by auto
  moreover have "list_all b64_isvalidchar (encoding bs)" "length (encoding bs) mod 4 = 0"
    using encoding_valid [of bs] by (auto simp: list_all_iff length_encoding)
  moreover have "b64_decode_loop (encoding bs) 0 0 (poke out (length bs) [0]) =
      Some (poke (poke out (length bs) [0]) 0 bs)"
    using out by (intro decode_encoding [of _ "[]"]) simp_all
  moreover have "poke (poke out (length bs) [0]) 0 bs = bs @ [0]"
    using out(2) by (simp add: poke_def)
  ultimately show ?thesis
    by (simp add: b64_decode_def encoding_decoded_size store_byte)
qed

section \<open>Properties\<close>

text \<open>C19: Encoding any non-empty input and decoding the result gives the input back, with its
  size; the encoded text has the announced size, only characters of the alphabet and is
  zero-terminated, and neither routine leaves its buffers.\<close>

theorem base64_roundtrip:
  assumes "malloc_ok malloc" and "0 < n" "n \<le> length xs" "n < 2 ^ 62"
  shows "\<exists>s. b64_encode malloc (Some xs) n = Some (Some (s @ [0]))
    \<and> length s = b64_encoded_size n \<and> list_all b64_isvalidchar s \<and> 0 \<notin> set s
    \<and> b64_decode malloc (Some s) = Some (Some (take n xs @ [0], of_nat n))"
proof (intro exI [of _ "encoding (take n xs)"] conjI)
  show "b64_encode malloc (Some xs) n = Some (Some (encoding (take n xs) @ [0]))"
    by (rule b64_encode_eq [OF assms])
  show "length (encoding (take n xs)) = b64_encoded_size n"
    using assms(3) by (simp add: length_encoding encoded_size_eq)
  show "list_all b64_isvalidchar (encoding (take n xs))" "0 \<notin> set (encoding (take n xs))"
    using encoding_valid [of "take n xs"] by (auto simp: list_all_iff)
  show "b64_decode malloc (Some (encoding (take n xs))) = Some (Some (take n xs @ [0], of_nat n))"
    using decode_encoded [OF assms(1), of "take n xs"] assms(3,4) by simp
qed

definition plain_malloc :: "nat \<Rightarrow> memory option" where
  "plain_malloc n = (if n < 2 ^ 63 then Some (replicate n 0xAA) else None)"

lemma plain_malloc_ok: "malloc_ok plain_malloc"
  by (simp add: malloc_ok_def plain_malloc_def)

theorem base64_roundtrip_witness:
  "\<exists>s. b64_encode plain_malloc (Some [72, 105, 33, 0]) 4 = Some (Some (s @ [0]))
    \<and> length s = b64_encoded_size 4 \<and> list_all b64_isvalidchar s \<and> 0 \<notin> set s
    \<and> b64_decode plain_malloc (Some s) = Some (Some (take 4 [72, 105, 33, 0] @ [0], of_nat 4))"
  by (rule base64_roundtrip) (simp_all add: plain_malloc_ok)

text \<open>C22: \<open>b64_decode\<close> returns NULL exactly for inputs whose size is not a multiple of four or that
  contain a character outside the alphabet; on every other input it stays inside the block it
  allocated unless the input ends with four padding characters, and then it does not.\<close>

theorem base64_decode_safety:
  assumes "malloc_ok malloc" and "length s < 2 ^ 62"
  shows "(b64_decode malloc (Some s) = Some None \<longleftrightarrow>
      length s mod 4 \<noteq> 0 \<or> (\<exists>c \<in> set s. \<not> b64_isvalidchar c))
    \<and> (b64_decode malloc (Some s) = None \<longleftrightarrow>
      length s mod 4 = 0 \<and> (\<forall>c \<in> set s. b64_isvalidchar c) \<and> (\<exists>t. s = t @ [61, 61, 61, 61]))"
proof (cases "length s mod 4 = 0 \<and> list_all b64_isvalidchar s")
  case False
  then have "b64_decode malloc (Some s) = Some None"
    by (auto simp: b64_decode_def)
  moreover have "length s mod 4 \<noteq> 0 \<or> (\<exists>c \<in> set s. \<not> b64_isvalidchar c)"
    using False by (auto simp only: list_all_iff)
  ultimately show ?thesis
    by (metis option.distinct(1))
next
  case True
  have "b64_decode malloc (Some s) \<noteq> Some None"
    using True by (auto simp: b64_decode_def Let_def Option.bind_eq_Some_conv)
  moreover have "b64_decode malloc (Some s) = None \<longleftrightarrow> (\<exists>t. s = t @ [61, 61, 61, 61])"
  proof (cases "s = []")
    case True
    then show ?thesis
      using decode_encoded [OF assms(1), of "[]"] by simp
  next
    case False
    then obtain k where "length s = 4 * Suc k"
      using True by (metis dvdE length_0_conv mod_0_imp_dvd mult_0_right old.nat.exhaust)
    then show ?thesis
      using decode_valid [OF assms(1) _ _ assms(2), of k] True pads_ge_4 by simp
  qed
  ultimately show ?thesis
    using True by (auto simp: list_all_iff)
qed

theorem base64_decode_safety_witness:
  "(b64_decode plain_malloc (Some [65, 65, 65, 65, 61, 61, 61, 61]) = Some None \<longleftrightarrow>
      length [65, 65, 65, 65, 61, 61, 61, 61 :: byte] mod 4 \<noteq> 0
      \<or> (\<exists>c \<in> set [65, 65, 65, 65, 61, 61, 61, 61]. \<not> b64_isvalidchar c))
    \<and> (b64_decode plain_malloc (Some [65, 65, 65, 65, 61, 61, 61, 61]) = None \<longleftrightarrow>
      length [65, 65, 65, 65, 61, 61, 61, 61 :: byte] mod 4 = 0
      \<and> (\<forall>c \<in> set [65, 65, 65, 65, 61, 61, 61, 61]. b64_isvalidchar c)
      \<and> (\<exists>t. [65, 65, 65, 65, 61, 61, 61, 61] = t @ [61, 61, 61, 61 :: byte]))"
  by (rule base64_decode_safety) (simp_all add: plain_malloc_ok)

end
