(* ===== verification/Oscore_Proxy.thy ===== *)
theory Oscore_Proxy
  imports C_Lib "HOL-Library.Signed_Division"
begin

text \<open>
  The OSCORE proxy: the inner compression API of \<open>libs/schc_comp_apis/oscore_basic/src/fullsdkextapi.c\<close>
  and the wrappers of \<open>applications/schc_worker_linux/src/uoscore_integration.c\<close> around the
  OSCORE library.

  Not in the repository and therefore parameters: the compressor and decompressor of the SCHC
  SDK, \<open>inet_pton\<close>, and \<open>coap2oscore\<close>, \<open>oscore2coap\<close> and \<open>oscore_context_init\<close> of the OSCORE
  library, with its context type \<open>'ctx\<close>. A codec of the SDK maps the size of the output buffer,
  its contents and the input bytes to a status, the output buffer and the size it reports.
\<close>

section \<open>Static addresses (fullsdkextapi.c)\<close>

record ext_state =
  host_ipv6_addr :: memory
  host_udp_port :: memory
  remote_ipv6_addr :: memory
  remote_udp_port :: memory

definition ext_init :: ext_state where
  "ext_init = \<lparr>host_ipv6_addr = replicate 16 0, host_udp_port = replicate 2 0,
     remote_ipv6_addr = replicate 16 0, remote_udp_port = replicate 2 0\<rparr>"

text \<open>\<open>port / 256\<close> and \<open>port % 256\<close> truncate towards zero and are stored as bytes.\<close>

definition port_bytes :: "int \<Rightarrow> memory" where
  "port_bytes port = [of_int (port sdiv 256), of_int (port smod 256)]"

definition net_set_host_static_ip ::
    "(string \<Rightarrow> memory option) \<Rightarrow> string \<Rightarrow> ext_state \<Rightarrow> ext_state" where
  "net_set_host_static_ip inet_pton addr st =
     (case inet_pton addr of None \<Rightarrow> st | Some bs \<Rightarrow> st\<lparr>host_ipv6_addr := bs\<rparr>)"

definition net_set_host_static_port :: "string \<Rightarrow> ext_state \<Rightarrow> ext_state" where
  "net_set_host_static_port udp_port st =
     (let port = atoi udp_port in st\<lparr>host_udp_port := port_bytes port\<rparr>)"

definition net_set_remote_static_ip ::
    "(string \<Rightarrow> memory option) \<Rightarrow> string \<Rightarrow> ext_state \<Rightarrow> ext_state" where
  "net_set_remote_static_ip inet_pton addr st =
     (case inet_pton addr of None \<Rightarrow> st | Some bs \<Rightarrow> st\<lparr>remote_ipv6_addr := bs\<rparr>)"

definition net_set_remote_static_port :: "string \<Rightarrow> ext_state \<Rightarrow> ext_state" where
  "net_set_remote_static_port udp_port st =
     (let port = atoi udp_port in st\<lparr>remote_udp_port := port_bytes port\<rparr>)"

section \<open>Inner compression (fullsdkextapi.c)\<close>

datatype comp_status = COMP_SUCCESS | COMP_RULES_NOT_FOUND_ERR | COMP_other_error nat
datatype mgt_ext_status = MGT_SUCCESS | MGT_ERROR

type_synonym sdk_codec = "u16 \<Rightarrow> memory \<Rightarrow> memory \<Rightarrow> comp_status \<times> memory \<times> u16"

definition NO_COMP_RULE_ID :: byte where
  "NO_COMP_RULE_ID = 0x1c"

definition mgt_ext_oscore_inner_compression ::
    "sdk_codec \<Rightarrow> memory \<Rightarrow> u16 \<Rightarrow> u16 \<Rightarrow> memory \<Rightarrow> u16 \<Rightarrow>
     (mgt_ext_status \<times> memory \<times> u16) ub" where
  "mgt_ext_oscore_inner_compression sdk_compress out_buf out_buf_size out_data_size in_data in_data_size =
     do {
       bytes \<leftarrow> load in_data 0 (unat in_data_size);
       case sdk_compress out_buf_size out_buf bytes of
         (st, out_buf, out_data_size) \<Rightarrow>
           if st \<noteq> COMP_SUCCESS then Some (MGT_ERROR, out_buf, out_data_size)
           else Some (MGT_SUCCESS, out_buf, out_data_size)
     }"

text \<open>\<open>in_data_size - 1\<close> is computed as \<open>int\<close> and converted to \<open>size_t\<close> for \<open>memcpy\<close>, so it is
  enormous for an empty input; the reported size is truncated to 16 bits.\<close>

definition mgt_ext_oscore_inner_decompression ::
    "sdk_codec \<Rightarrow> memory \<Rightarrow> u16 \<Rightarrow> u16 \<Rightarrow> memory \<Rightarrow> u16 \<Rightarrow>
     (mgt_ext_status \<times> memory \<times> u16) ub" where
  "mgt_ext_oscore_inner_decompression sdk_decompress out_buf out_buf_size out_data_size in_data in_data_size =
     do {
       bytes \<leftarrow> load in_data 0 (unat in_data_size);
       case sdk_decompress out_buf_size out_buf bytes of
         (st, out_buf, out_data_size) \<Rightarrow>
           if st \<noteq> COMP_SUCCESS then do {
             fallback \<leftarrow> (if st = COMP_RULES_NOT_FOUND_ERR then Some True
                         else do { b0 \<leftarrow> peek in_data 0; Some (b0 = NO_COMP_RULE_ID) });
             if \<not> fallback then Some (MGT_ERROR, out_buf, out_data_size)
             else do {
               let n = unat (ucast in_data_size - 1 :: u64);
               rest \<leftarrow> load in_data 1 n;
               out_buf \<leftarrow> store out_buf 0 rest;
               Some (MGT_SUCCESS, out_buf, in_data_size - 1)
             }
           }
           else Some (MGT_SUCCESS, out_buf, out_data_size)
     }"

section \<open>The wrappers (uoscore_integration.c)\<close>

definition OSCORE_INNER_MAX_SIZE :: nat where
  "OSCORE_INNER_MAX_SIZE = 128"

text \<open>\<open>*plaintext_size\<close> is 32 bits wide and is passed as a 16-bit size.\<close>

definition oscore_msg_inner_compression ::
    "sdk_codec \<Rightarrow> memory \<Rightarrow> u32 \<Rightarrow> (bool \<times> memory \<times> u32) ub" where
  "oscore_msg_inner_compression sdk_compress plaintext plaintext_size =
     do {
       let out_inner_comp_buf = replicate OSCORE_INNER_MAX_SIZE (0 :: byte);
       (status, out_inner_comp_buf, out_data_size) \<leftarrow>
         mgt_ext_oscore_inner_compression sdk_compress out_inner_comp_buf
           (of_nat OSCORE_INNER_MAX_SIZE) 0 plaintext (ucast plaintext_size);
       if status \<noteq> MGT_SUCCESS then Some (False, plaintext, plaintext_size)
       else do {
         bytes \<leftarrow> load out_inner_comp_buf 0 (unat out_data_size);
         plaintext \<leftarrow> store plaintext 0 bytes;
         Some (True, plaintext, ucast out_data_size)
       }
     }"

text \<open>\<open>stack\<close> is the indeterminate initial value of \<open>out_data_size\<close>.\<close>

definition oscore_msg_inner_decompression ::
    "sdk_codec \<Rightarrow> u16 \<Rightarrow> memory \<Rightarrow> u32 \<Rightarrow> (bool \<times> memory \<times> u32) ub" where
  "oscore_msg_inner_decompression sdk_decompress stack plaintext plaintext_size =
     do {
       let out_inner_decomp_buf = replicate OSCORE_INNER_MAX_SIZE (0 :: byte);
       (status, out_inner_decomp_buf, out_data_size) \<leftarrow>
         mgt_ext_oscore_inner_decompression sdk_decompress out_inner_decomp_buf
           (of_nat OSCORE_INNER_MAX_SIZE) stack plaintext (ucast plaintext_size);
       if status \<noteq> MGT_SUCCESS then Some (False, plaintext, plaintext_size)
       else do {
         bytes \<leftarrow> load out_inner_decomp_buf 0 (unat out_data_size);
         plaintext \<leftarrow> store plaintext 0 bytes;
         Some (True, plaintext, ucast out_data_size)
       }
     }"

text \<open>The errors of the OSCORE library that the program tells apart.\<close>

datatype err = Ok | Buffer_to_small | Not_oscore_pkt | First_request_after_reboot
  | Oscore_ssn_overflow | Other_err int

datatype coap_oscore_res = CO_SUCCESS | CO_BUFFER_ERROR | CO_COAP_ERROR | CO_OSCORE_ERROR
  | CO_ECHO_ERROR | CO_NOT_OSCORE | CO_MAX_SESSION_REACHED | CO_UNKNOWN_SESSION

fun uoscore_err_to_res :: "err \<Rightarrow> coap_oscore_res" where
  "uoscore_err_to_res Ok = CO_SUCCESS"
| "uoscore_err_to_res Buffer_to_small = CO_BUFFER_ERROR"
| "uoscore_err_to_res Not_oscore_pkt = CO_NOT_OSCORE"
| "uoscore_err_to_res First_request_after_reboot = CO_ECHO_ERROR"
| "uoscore_err_to_res _ = CO_OSCORE_ERROR"

text \<open>
  The state: the security context and whether inner compression is on. A callback that the
  library is given transforms a plaintext buffer and its size.
\<close>

type_synonym plaintext_cb = "memory \<Rightarrow> u32 \<Rightarrow> (bool \<times> memory \<times> u32) ub"

record 'ctx proxy =
  osc_ctx :: 'ctx
  oscore_inner_schc_enabled :: bool

definition disable_inner_compression :: "'ctx proxy \<Rightarrow> 'ctx proxy" where
  "disable_inner_compression px = px\<lparr>oscore_inner_schc_enabled := False\<rparr>"

text \<open>
  A conversion of the OSCORE library works on a memory region with the offset of the input, its
  size, the offset of the output and the size available there. The proxy converts in place.
\<close>

type_synonym 'ctx osc_conv =
  "plaintext_cb option \<Rightarrow> 'ctx \<Rightarrow> memory \<Rightarrow> nat \<Rightarrow> u16 \<Rightarrow> nat \<Rightarrow> u32 \<Rightarrow> (err \<times> 'ctx \<times> memory \<times> u32) ub"

definition coap_to_oscore ::
    "sdk_codec \<Rightarrow> 'ctx osc_conv \<Rightarrow> 'ctx proxy \<Rightarrow> memory \<Rightarrow> nat \<Rightarrow> u16 \<Rightarrow> nat \<Rightarrow> u32 \<Rightarrow>
     (coap_oscore_res \<times> 'ctx proxy \<times> memory \<times> u32) ub" where
  "coap_to_oscore sdk_compress coap2oscore px region coap_packet coap_packet_size out out_size =
     do {
       let inner_cb = (if oscore_inner_schc_enabled px
                       then Some (oscore_msg_inner_compression sdk_compress) else None);
       (r, ctx, region, out_size) \<leftarrow>
         coap2oscore inner_cb (osc_ctx px) region coap_packet coap_packet_size out out_size;
       if r \<noteq> Ok then Some (uoscore_err_to_res r, px\<lparr>osc_ctx := ctx\<rparr>, region, out_size)
       else Some (CO_SUCCESS, px\<lparr>osc_ctx := ctx\<rparr>, region, out_size)
     }"

definition oscore_to_coap ::
    "sdk_codec \<Rightarrow> u16 \<Rightarrow> 'ctx osc_conv \<Rightarrow> 'ctx proxy \<Rightarrow> memory \<Rightarrow> nat \<Rightarrow> u16 \<Rightarrow> nat \<Rightarrow> u32 \<Rightarrow>
     (coap_oscore_res \<times> 'ctx proxy \<times> memory \<times> u32) ub" where
  "oscore_to_coap sdk_decompress stack oscore2coap px region oscore_packet oscore_packet_size out out_size =
     do {
       let inner_cb = (if oscore_inner_schc_enabled px
                       then Some (oscore_msg_inner_decompression sdk_decompress stack) else None);
       (r, ctx, region, out_size) \<leftarrow>
         oscore2coap inner_cb (osc_ctx px) region oscore_packet oscore_packet_size out out_size;
       if r \<noteq> Ok then Some (uoscore_err_to_res r, px\<lparr>osc_ctx := ctx\<rparr>, region, out_size)
       else Some (CO_SUCCESS, px\<lparr>osc_ctx := ctx\<rparr>, region, out_size)
     }"

text \<open>The parameters of the security context; \<open>peer\<close> is the SCHC_PEER_MODE build.\<close>

record init_params =
  master_secret :: memory
  sender_id :: memory
  recipient_id :: memory
  id_context :: memory
  master_salt :: memory
  fresh_master_secret_salt :: bool

definition SENDER_ID :: "bool \<Rightarrow> memory" where
  "SENDER_ID peer = (if peer then [1] else [])"

definition RECIPIENT_ID :: "bool \<Rightarrow> memory" where
  "RECIPIENT_ID peer = (if peer then [] else [1])"

definition oscore_security_context_init ::
    "bool \<Rightarrow> (init_params \<Rightarrow> err \<times> 'ctx) \<Rightarrow> memory \<Rightarrow> u16 \<Rightarrow> memory \<Rightarrow> u16 \<Rightarrow> 'ctx proxy \<Rightarrow>
     (bool \<times> 'ctx proxy) ub" where
  "oscore_security_context_init peer oscore_context_init secret secret_size salt salt_size px =
     do {
       secret \<leftarrow> load secret 0 (unat secret_size);
       salt \<leftarrow> load salt 0 (unat salt_size);
       let params_sender = \<lparr>master_secret = secret, sender_id = SENDER_ID peer,
         recipient_id = RECIPIENT_ID peer, id_context = [], master_salt = salt,
         fresh_master_secret_salt = True\<rparr>;
       let (r, ctx) = oscore_context_init params_sender;
       if r \<noteq> Ok then Some (False, px\<lparr>osc_ctx := ctx\<rparr>)
       else Some (True, px\<lparr>osc_ctx := ctx\<rparr>)
     }"

section \<open>Static ports\<close>

text \<open>Setting a static port from its decimal text stores the two bytes of the port in network
  order, for every port below 65536, and leaves the other addresses alone.\<close>

lemma static_port_bytes:
  assumes "p < 65536"
  shows "\<exists>h l. host_udp_port (net_set_host_static_port (show_nat p) st) = [h, l]
    \<and> remote_udp_port (net_set_remote_static_port (show_nat p) st) = [h, l]
    \<and> 256 * unat h + unat l = p
    \<and> remote_udp_port (net_set_host_static_port (show_nat p) st) = remote_udp_port st
    \<and> host_ipv6_addr (net_set_host_static_port (show_nat p) st) = host_ipv6_addr st"
proof -
  have "p div 256 < 256"
    using assms by simp
  then have "unat (of_int (int p sdiv 256) :: byte) = p div 256"
    "unat (of_int (int p smod 256) :: byte) = p mod 256"
    by (simp_all add: signed_divide_int_def signed_modulo_int_def unsigned_of_int take_bit_int_eq_self
        nat_div_distrib nat_mod_distrib)
  then show ?thesis
    by (simp add: net_set_host_static_port_def net_set_remote_static_port_def atoi_show_nat
        port_bytes_def Let_def)
qed

lemma static_port_bytes_witness:
  "\<exists>h l. host_udp_port (net_set_host_static_port (show_nat 5683) ext_init) = [h, l]
    \<and> remote_udp_port (net_set_remote_static_port (show_nat 5683) ext_init) = [h, l]
    \<and> 256 * unat h + unat l = 5683
    \<and> remote_udp_port (net_set_host_static_port (show_nat 5683) ext_init) = remote_udp_port ext_init
    \<and> host_ipv6_addr (net_set_host_static_port (show_nat 5683) ext_init) = host_ipv6_addr ext_init"
  by (rule static_port_bytes) simp

section \<open>Inner compression\<close>

lemma load_prefix: "n \<le> length m \<Longrightarrow> load m 0 n = Some (take n m)"
  by (simp add: load_def)

lemma unat_ucast_32_16: "unat (w :: u32) < 65536 \<Longrightarrow> unat (ucast w :: u16) = unat w"
  by (simp add: unsigned_ucast_eq take_bit_nat_eq_self)

lemma unat_ucast_16_32: "unat (ucast (w :: u16) :: u32) = unat w"
  using u16_less [of w] by (simp add: unsigned_ucast_eq take_bit_nat_eq_self)

text \<open>What the SDK documents of its codec: what a successful compression produced is either restored by
  the decompressor, or it is the input behind the identifier of no compression and the
  decompressor reports an error. Sizes stay within the output buffer.\<close>

definition codec_pair :: "sdk_codec \<Rightarrow> sdk_codec \<Rightarrow> bool" where
  "codec_pair sdk_compress sdk_decompress \<longleftrightarrow>
     (\<forall>x out m. sdk_compress 128 (replicate 128 0) x = (COMP_SUCCESS, out, m) \<longrightarrow>
        length out = 128 \<and> unat m \<le> 128 \<and>
        (\<exists>st out' k. sdk_decompress 128 (replicate 128 0) (take (unat m) out) = (st, out', k) \<and>
           length out' = 128 \<and>
           (if st = COMP_SUCCESS then unat k \<le> 128 \<and> unat k = length x \<and> take (length x) out' = x
            else take (unat m) out = NO_COMP_RULE_ID # x)))"

lemma inner_compression_eq:
  assumes "unat sz < 65536" "unat sz \<le> length pt"
    and "sdk 128 (replicate 128 0) (take (unat sz) pt) = (COMP_SUCCESS, out, m)" "length out = 128" "unat m \<le> 128"
  shows "oscore_msg_inner_compression sdk pt sz =
      (if unat m \<le> length pt then Some (True, poke pt 0 (take (unat m) out), ucast m) else None)"
    and "oscore_msg_inner_decompression sdk stack pt sz =
      (if unat m \<le> length pt then Some (True, poke pt 0 (take (unat m) out), ucast m) else None)"
  using assms
  by (simp_all add: oscore_msg_inner_compression_def mgt_ext_oscore_inner_compression_def
      oscore_msg_inner_decompression_def mgt_ext_oscore_inner_decompression_def
      OSCORE_INNER_MAX_SIZE_def unat_ucast_32_16 load_prefix store_def min_def)

text \<open>The fallback: the first byte is dropped.\<close>

lemma inner_fallback_eq:
  assumes "unat (m :: u16) \<le> length pt" "take (unat m) pt = NO_COMP_RULE_ID # x" "length x \<le> 128"
    and "sdk 128 (replicate 128 0) (take (unat m) pt) = (st, out, k)" "st \<noteq> COMP_SUCCESS" "length out = 128"
  shows "\<exists>pt'. oscore_msg_inner_decompression sdk stack pt (ucast m) = Some (True, pt', of_nat (length x))
    \<and> take (length x) pt' = x \<and> length pt' = length pt"
proof -
  have m: "unat m = Suc (length x)"
    using arg_cong [OF assms(2), of length] assms(1) by simp
  have m1: "unat (m - 1) = length x"
    using m by (metis nat.distinct(1) unat_minus_one diff_Suc_1 unsigned_0)
  have k: "unat (ucast m - 1 :: u64) = length x"
  proof -
    have "unat (ucast m :: u64) = unat m"
      using u16_less [of m] by (simp add: unsigned_ucast_eq take_bit_nat_eq_self)
    moreover from this have "(ucast m :: u64) \<noteq> 0"
      using m by (metis nat.distinct(1) unsigned_0)
    ultimately show ?thesis
      using m by (simp add: unat_minus_one)
  qed
  have ne: "pt \<noteq> []" "hd pt = NO_COMP_RULE_ID"
    using assms(2) m by (cases pt; simp)+
  then have b0: "peek pt 0 = Some NO_COMP_RULE_ID"
    by (cases pt) (simp_all add: peek_def)
  have rest: "load pt 1 (length x) = Some x"
  proof -
    have "take (length x) (drop 1 pt) = x"
      using assms(2) m by (metis drop_Suc_Cons drop_take One_nat_def diff_Suc_1 drop0)
    then show ?thesis
      using assms(1) m by (simp add: load_def)
  qed
  have um: "(ucast (ucast m :: u32) :: u16) = m" "unat (ucast m :: u32) = unat m"
    by (simp_all add: unat_ucast_16_32 unsigned_word_eqI [where 'a = nat] unat_ucast_32_16 u16_less)
  have "(ucast (m - 1) :: u32) = of_nat (length x)"
    using m1 by (intro word_eq_of_nat) (simp add: unat_ucast_16_32)
  then have "oscore_msg_inner_decompression sdk stack pt (ucast m) =
      Some (True, poke pt 0 x, of_nat (length x))"
    using assms m1 k b0 rest um m
    by (simp add: oscore_msg_inner_decompression_def mgt_ext_oscore_inner_decompression_def
        OSCORE_INNER_MAX_SIZE_def load_prefix store_def Let_def poke_def load_def)
  then show ?thesis
    using assms(1) m by (auto simp: poke_def)
qed

text \<open>
  Two callbacks of two ends are a pair when what the first makes of a plaintext, put at the start of
  any buffer with room for both, is turned back into it there by the second.
\<close>

definition inner_pair :: "plaintext_cb option \<Rightarrow> plaintext_cb option \<Rightarrow> bool" where
  "inner_pair down up \<longleftrightarrow>
     (case (down, up) of
        (None, None) \<Rightarrow> True
      | (Some f, Some g) \<Rightarrow> \<forall>pt sz pt1 m. unat sz < 65536 \<and> unat sz \<le> length pt \<and> f pt sz = Some (True, pt1, m) \<longrightarrow>
          length pt1 = length pt \<and> unat m \<le> length pt \<and>
          (\<forall>pt2. unat m \<le> length pt2 \<and> unat sz \<le> length pt2 \<and> take (unat m) pt2 = take (unat m) pt1 \<longrightarrow>
             (\<exists>pt3. g pt2 m = Some (True, pt3, sz) \<and> take (unat sz) pt3 = take (unat sz) pt
               \<and> length pt3 = length pt2))
      | _ \<Rightarrow> False)"

lemma compression_accepted:
  assumes "codec_pair sdk_compress sdk_decompress"
    and "oscore_msg_inner_compression sdk_compress pt sz = Some (True, pt1, m')"
    and "unat sz < 65536" "unat sz \<le> length pt"
  obtains out m where "sdk_compress 128 (replicate 128 0) (take (unat sz) pt) = (COMP_SUCCESS, out, m)"
    "m' = ucast m" "pt1 = poke pt 0 (take (unat m) out)" "unat m \<le> length pt" "unat m \<le> 128" "length out = 128"
proof -
  obtain st out m where run: "sdk_compress 128 (replicate 128 0) (take (unat sz) pt) = (st, out, m)"
    by (cases "sdk_compress 128 (replicate 128 0) (take (unat sz) pt)")
  have st: "st = COMP_SUCCESS"
    using assms run
    by (auto simp: oscore_msg_inner_compression_def mgt_ext_oscore_inner_compression_def
        OSCORE_INNER_MAX_SIZE_def unat_ucast_32_16 load_prefix split: if_splits)
  have out: "length out = 128" "unat m \<le> 128"
    using assms(1) run st unfolding codec_pair_def by blast+
  have "(if unat m \<le> length pt then Some (True, poke pt 0 (take (unat m) out), ucast m) else None) = Some (True, pt1, m')"
    using inner_compression_eq(1) [of sz pt sdk_compress out m, OF assms(3,4) run [unfolded st] out] assms(2) by simp
  then show thesis
    using that run st out by (simp split: if_splits)
qed

lemma inner_decompression_restores:
  assumes "codec_pair sdk_compress sdk_decompress"
    and "sdk_compress 128 (replicate 128 0) x = (COMP_SUCCESS, out, m)"
    and "unat m \<le> length pt" "length x \<le> length pt" "length x < 65536" "take (unat m) pt = take (unat m) out"
  shows "\<exists>pt'. oscore_msg_inner_decompression sdk_decompress stack pt (ucast m) = Some (True, pt', of_nat (length x))
    \<and> take (length x) pt' = x \<and> length pt' = length pt"
proof -
  obtain st out' k where dec: "sdk_decompress 128 (replicate 128 0) (take (unat m) out) = (st, out', k)"
    "length out' = 128" "if st = COMP_SUCCESS then unat k \<le> 128 \<and> unat k = length x \<and> take (length x) out' = x
      else take (unat m) out = NO_COMP_RULE_ID # x" and m: "unat m \<le> 128" "length out = 128"
    using assms(1,2) unfolding codec_pair_def by meson
  show ?thesis
  proof (cases "st = COMP_SUCCESS")
    case True
    have "unat (ucast m :: u32) < 65536" "unat (ucast m :: u32) \<le> length pt"
      "sdk_decompress 128 (replicate 128 0) (take (unat (ucast m :: u32)) pt) = (COMP_SUCCESS, out', k)"
      using dec(1) True assms(3,6) u16_less [of m] by (simp_all add: unat_ucast_16_32)
    then have "oscore_msg_inner_decompression sdk_decompress stack pt (ucast m) =
        Some (True, poke pt 0 (take (unat k) out'), ucast k)"
      using inner_compression_eq(2) [of "ucast m" pt sdk_decompress out' k stack] dec True assms(4) by simp
    moreover have "ucast k = (of_nat (length x) :: u32)"
      using dec(3) True by (intro word_eq_of_nat) (simp add: unat_ucast_16_32)
    ultimately show ?thesis
      using dec True assms(4) by (auto simp: poke_def)
  next
    case False
    then have "take (unat m) out = NO_COMP_RULE_ID # x"
      using dec(3) by simp
    moreover from this have "length x \<le> 128"
      using m by (metis length_Cons length_take min.bounded_iff Suc_leD nle_le)
    ultimately show ?thesis
      using inner_fallback_eq [OF assms(3), of x sdk_decompress st out' k stack] dec False assms(6) by simp
  qed
qed

lemma codec_inner_pair:
  assumes "codec_pair sdk_compress sdk_decompress"
  shows "inner_pair (Some (oscore_msg_inner_compression sdk_compress)) (Some (oscore_msg_inner_decompression sdk_decompress stack))"
proof -
  have "length pt1 = length pt \<and> unat m' \<le> length pt \<and>
      (\<forall>pt2. unat m' \<le> length pt2 \<and> unat sz \<le> length pt2 \<and> take (unat m') pt2 = take (unat m') pt1 \<longrightarrow>
        (\<exists>pt3. oscore_msg_inner_decompression sdk_decompress stack pt2 m' = Some (True, pt3, sz)
          \<and> take (unat sz) pt3 = take (unat sz) pt \<and> length pt3 = length pt2))"
    if sz: "unat sz < 65536" "unat sz \<le> length pt"
      and run: "oscore_msg_inner_compression sdk_compress pt sz = Some (True, pt1, m')" for pt sz pt1 m'
  proof -
    obtain out m where m: "sdk_compress 128 (replicate 128 0) (take (unat sz) pt) = (COMP_SUCCESS, out, m)"
      "m' = ucast m" "pt1 = poke pt 0 (take (unat m) out)" "unat m \<le> length pt" "unat m \<le> 128" "length out = 128"
      by (rule compression_accepted [OF assms run sz])
    have um: "unat m' = unat m"
      by (simp add: m(2) unat_ucast_16_32)
    have pt1: "length pt1 = length pt" "take (unat m) pt1 = take (unat m) out"
      using m by (simp_all add: poke_def)
    have "\<exists>pt3. oscore_msg_inner_decompression sdk_decompress stack pt2 m' = Some (True, pt3, sz)
        \<and> take (unat sz) pt3 = take (unat sz) pt \<and> length pt3 = length pt2"
      if "unat m' \<le> length pt2" "unat sz \<le> length pt2" "take (unat m') pt2 = take (unat m') pt1" for pt2
      using inner_decompression_restores [OF assms m(1), of pt2 stack] that sz pt1(2) um m(2) by simp
    then show ?thesis
      using m(4) pt1(1) um by simp
  qed
  then show ?thesis
    unfolding inner_pair_def by (simp only: option.case prod.case) blast
qed

text \<open>
  A callback is safe for plaintext buffers of \<open>B\<close> bytes when it returns for every size that fits. The
  compressing callback is, when the SDK's codec keeps to the sizes it is given.
\<close>

definition cb_safe :: "nat \<Rightarrow> plaintext_cb option \<Rightarrow> bool" where
  "cb_safe B cb \<longleftrightarrow>
     (case cb of None \<Rightarrow> True | Some f \<Rightarrow> \<forall>pt sz. length pt = B \<and> unat sz \<le> B \<longrightarrow> f pt sz \<noteq> None)"

definition codec_bounded :: "sdk_codec \<Rightarrow> bool" where
  "codec_bounded sdk \<longleftrightarrow>
     (\<forall>x. case sdk 128 (replicate 128 0) x of (st, out, m) \<Rightarrow> length out = 128 \<and> (st = COMP_SUCCESS \<longrightarrow> unat m \<le> 128))"

lemma inner_compression_safe:
  assumes "codec_bounded sdk" and "128 \<le> B" "B < 65536"
  shows "cb_safe B (Some (oscore_msg_inner_compression sdk))"
proof -
  have "oscore_msg_inner_compression sdk pt sz \<noteq> None" if pt: "length pt = B" "unat sz \<le> B" for pt sz
  proof -
    obtain st out m where run: "sdk 128 (replicate 128 0) (take (unat sz) pt) = (st, out, m)"
      by (cases "sdk 128 (replicate 128 0) (take (unat sz) pt)")
    have "length out = 128 \<and> (st = COMP_SUCCESS \<longrightarrow> unat m \<le> 128)"
      using assms(1) [unfolded codec_bounded_def, rule_format, of "take (unat sz) pt"] run by simp
    then show ?thesis
      using run pt assms(2,3)
      by (simp add: oscore_msg_inner_compression_def mgt_ext_oscore_inner_compression_def
          OSCORE_INNER_MAX_SIZE_def unat_ucast_32_16 load_prefix store_def) auto
  qed
  then show ?thesis
    by (simp add: cb_safe_def)
qed

text \<open>C11: A plaintext that the inner compression accepted is restored by the inner decompression,
  with its size, in the same buffer, whether the decompressor knows its rule or it travels behind the
  identifier of no compression; the buffer is never left when the compressed form fits it.\<close>

theorem inner_compression_roundtrip:
  assumes "codec_pair sdk_compress sdk_decompress"
    and "unat sz < 65536" "unat sz \<le> length pt"
    and "sdk_compress 128 (replicate 128 0) (take (unat sz) pt) = (COMP_SUCCESS, out, m)"
    and "unat m \<le> length pt"
  shows "\<exists>pt' pt''. oscore_msg_inner_compression sdk_compress pt sz = Some (True, pt', ucast m)
    \<and> oscore_msg_inner_decompression sdk_decompress stack pt' (ucast m) = Some (True, pt'', sz)
    \<and> take (unat sz) pt'' = take (unat sz) pt \<and> length pt'' = length pt"
proof -
  have out: "length out = 128" "unat m \<le> 128"
    using assms(1,4) unfolding codec_pair_def by blast+
  have "oscore_msg_inner_compression sdk_compress pt sz = Some (True, poke pt 0 (take (unat m) out), ucast m)"
    using inner_compression_eq(1) [of sz pt sdk_compress out m, OF assms(2,3,4) out] assms(5) by simp
  moreover from this obtain pt'' where "oscore_msg_inner_decompression sdk_decompress stack
      (poke pt 0 (take (unat m) out)) (ucast m) = Some (True, pt'', sz)"
      "take (unat sz) pt'' = take (unat sz) pt" "length pt'' = length pt"
    using inner_decompression_restores [OF assms(1,4), of "poke pt 0 (take (unat m) out)" stack] assms(2,3,5) out
    by (auto simp: poke_def)
  ultimately show ?thesis
    by blast
qed

definition copy_codec :: sdk_codec where
  "copy_codec cap out x =
     (if length x \<le> unat cap then (COMP_SUCCESS, poke out 0 x, of_nat (length x))
      else (COMP_other_error 1, out, 0))"

lemma copy_codec_pair: "codec_pair copy_codec copy_codec"
  by (auto simp: codec_pair_def copy_codec_def poke_def unat_of_nat_small min_def split: if_splits)

theorem inner_compression_roundtrip_witness:
  "\<exists>pt' pt''. oscore_msg_inner_compression copy_codec [1, 2, 3] 2 = Some (True, pt', ucast (2 :: u16))
    \<and> oscore_msg_inner_decompression copy_codec 7 pt' (ucast (2 :: u16)) = Some (True, pt'', 2)
    \<and> take (unat (2 :: u32)) pt'' = take (unat (2 :: u32)) [1, 2, 3] \<and> length pt'' = length [1, 2, 3 :: byte]"
  by (rule inner_compression_roundtrip [OF copy_codec_pair, where out = "poke (replicate 128 0) 0 [1, 2]"])
    (simp_all add: copy_codec_def)

text \<open>C23: When the decompressor finds no rule, the wrapper strips the first byte and keeps the
  rest, as for a plaintext sent uncompressed; it does so within its buffers exactly for inputs of
  1 to 129 bytes, a check it does not make.\<close>

theorem inner_fallback_bounds:
  assumes "unat sz < 65536" "unat sz \<le> length pt" "length pt < 2 ^ 32"
    and "sdk_decompress 128 (replicate 128 0) (take (unat sz) pt) = (COMP_RULES_NOT_FOUND_ERR, out, m)"
    and "length out = 128"
  shows "oscore_msg_inner_decompression sdk_decompress stack pt sz =
    (if 1 \<le> unat sz \<and> unat sz \<le> 129
     then Some (True, take (unat sz - 1) (drop 1 pt) @ drop (unat sz - 1) pt, sz - 1) else None)"
proof -
  define n where "n = unat sz"
  define w :: u16 where "w = ucast sz"
  have w: "unat w = n"
    using assms(1) by (simp add: w_def n_def unat_ucast_32_16)
  have run: "oscore_msg_inner_decompression sdk_decompress stack pt sz =
    do { rest \<leftarrow> load pt 1 (unat (ucast w - 1 :: u64)); out_buf \<leftarrow> store out 0 rest;
         bytes \<leftarrow> load out_buf 0 (unat (w - 1)); plaintext \<leftarrow> store pt 0 bytes;
         Some (True, plaintext, ucast (w - 1)) }"
    using assms w unfolding oscore_msg_inner_decompression_def mgt_ext_oscore_inner_decompression_def
    by (simp add: OSCORE_INNER_MAX_SIZE_def load_prefix n_def Let_def flip: w_def)
  show ?thesis
  proof (cases "n = 0")
    case True
    then have "w = 0"
      using w by (simp add: unsigned_eq_0_iff)
    moreover have "unat (- 1 :: u64) = 2 ^ 64 - 1"
      by (simp add: unsigned_minus_1_eq_mask mask_eq_exp_minus_1)
    ultimately show ?thesis
      using True assms(3) by (simp add: run load_def n_def)
  next
    case False
    have "unat (ucast w :: u64) = n"
      using u16_less [of w] w by (simp add: unsigned_ucast_eq take_bit_nat_eq_self)
    then have sizes: "unat (ucast w - 1 :: u64) = n - 1" "unat (w - 1) = n - 1"
      using False w by (simp_all add: unat_minus_one flip: unsigned_eq_0_iff [where 'a = nat])
    define rest where "rest = take (n - 1) (drop 1 pt)"
    have len: "length rest = n - 1" "length rest \<le> length pt"
      using False assms(2) by (simp_all add: rest_def n_def)
    then have "poke pt 0 rest = rest @ drop (n - 1) pt"
      by (simp add: poke_def)
    moreover have "ucast (w - 1) = sz - 1"
      using sizes(2) False
      by (intro unsigned_word_eqI [where 'a = nat])
        (simp add: unat_ucast_16_32 n_def unat_minus_one flip: unsigned_eq_0_iff [where 'a = nat])
    moreover have "load pt 1 (n - 1) = Some rest"
      using False assms(2) by (simp add: load_def rest_def n_def)
    moreover have "length rest \<le> 128 \<Longrightarrow> load (poke out 0 rest) 0 (n - 1) = Some rest"
      using len(1) assms(5) by (intro load_poke_same) simp_all
    ultimately show ?thesis
      using False assms(5) len unfolding run sizes n_def [symmetric] rest_def [symmetric]
      by (auto simp: store_def)
  qed
qed

theorem inner_fallback_bounds_witness:
  "oscore_msg_inner_decompression (\<lambda>cap out x. (COMP_RULES_NOT_FOUND_ERR, out, 0)) 7 [0x1c, 1, 2, 3] 3 =
    (if 1 \<le> unat (3 :: u32) \<and> unat (3 :: u32) \<le> 129
     then Some (True, take (unat (3 :: u32) - 1) (drop 1 [0x1c, 1, 2, 3])
       @ drop (unat (3 :: u32) - 1) [0x1c, 1, 2, 3], 3 - 1) else None)"
  by (rule inner_fallback_bounds [where out = "replicate 128 0" and m = 0]) simp_all

end
