(* ===== verification/Nvm.thy ===== *)
theory Nvm
  imports Oscore_Proxy Base64
begin

text \<open>
  The non-volatile storage of the OSCORE sender sequence number, in the second half of
  \<open>applications/schc_worker_linux/src/uoscore_integration.c\<close>: the key text, and the file with
  the lines \<open>NVM_KEY=...\<close> and \<open>OSCORE_SSN=...\<close>.

  The file is a string (None when it does not exist). \<open>fgets\<close> and the two \<open>sscanf\<close> formats are
  written out. \<open>struct byte_array\<close> belongs to the OSCORE library; the code copies bytes from the
  address of its \<open>ptr\<close> field, so what lies in memory there is a parameter: \<open>mem_at i\<close> for the
  i-th of the three arrays. \<open>stack n\<close> is the indeterminate content of an array of n bytes.
\<close>

section \<open>The key text\<close>

record byte_array =
  ba_len :: u32
  ba_bytes :: memory

record nvm_key =
  key_sender_id :: byte_array
  key_recipient_id :: byte_array
  key_id_context :: byte_array

definition nvm_key_equals ::
    "(byte_array \<Rightarrow> byte_array \<Rightarrow> bool) \<Rightarrow> nvm_key \<Rightarrow> nvm_key \<Rightarrow> bool" where
  "nvm_key_equals array_equals k1 k2 =
     (if \<not> array_equals (key_sender_id k1) (key_sender_id k2) then False
      else if \<not> array_equals (key_recipient_id k1) (key_recipient_id k2) then False
      else if \<not> array_equals (key_id_context k1) (key_id_context k2) then False
      else True)"

definition u32_bytes :: "u32 \<Rightarrow> memory" where
  "u32_bytes w = [ucast w, ucast (drop_bit 8 w), ucast (drop_bit 16 w), ucast (drop_bit 24 w)]"

definition key_arrays :: "nvm_key \<Rightarrow> byte_array list" where
  "key_arrays k = [key_sender_id k, key_recipient_id k, key_id_context k]"

definition nvm_key_bytes_len :: "nvm_key \<Rightarrow> byte" where
  "nvm_key_bytes_len k = ucast (ba_len (key_sender_id k) + ba_len (key_recipient_id k)
     + ba_len (key_id_context k) + 4 * 3)"

text \<open>The loop over the three arrays; the second \<open>memcpy\<close> writes to the start of the buffer and
  reads from the address of the pointer.\<close>

fun copy_arrays :: "(nat \<Rightarrow> memory) \<Rightarrow> nat \<Rightarrow> byte_array list \<Rightarrow> nat \<Rightarrow> memory \<Rightarrow> memory ub" where
  "copy_arrays mem_at i [] nvm_ptr buf = Some buf"
| "copy_arrays mem_at i (b # bs) nvm_ptr buf =
     do {
       buf \<leftarrow> store buf nvm_ptr (u32_bytes (ba_len b));
       let nvm_ptr = nvm_ptr + 4;
       bytes \<leftarrow> load (mem_at i) 0 (unat (ba_len b));
       buf \<leftarrow> store buf 0 bytes;
       copy_arrays mem_at (i + 1) bs (nvm_ptr + unat (ba_len b)) buf
     }"

definition nvm_key_base64_encode ::
    "(nat \<Rightarrow> memory option) \<Rightarrow> (nat \<Rightarrow> memory) \<Rightarrow> (nat \<Rightarrow> memory) \<Rightarrow> nvm_key \<Rightarrow> memory option ub" where
  "nvm_key_base64_encode malloc mem_at stack k =
     do {
       let n = unat (nvm_key_bytes_len k);
       buf \<leftarrow> copy_arrays mem_at 0 (key_arrays k) 0 (stack n);
       b64_encode malloc (Some buf) n
     }"

fun check_arrays :: "memory \<Rightarrow> byte_array list \<Rightarrow> nat \<Rightarrow> nat \<Rightarrow> err ub" where
  "check_arrays buf [] current_ptr remaining_len = Some Ok"
| "check_arrays buf (b # bs) current_ptr remaining_len =
     (if remaining_len < 4 then Some Oscore_ssn_overflow
      else do {
        x \<leftarrow> peek buf current_ptr;
        let curr_len = (ucast x :: u32);
        if curr_len \<noteq> ba_len b then Some Oscore_ssn_overflow
        else let
            current_ptr = current_ptr + 4;
            remaining_len = remaining_len - 4
          in if remaining_len < unat (ba_len b) then Some Oscore_ssn_overflow
          else check_arrays buf bs (current_ptr + unat (ba_len b)) (remaining_len - unat (ba_len b))
      })"

definition nvm_key_base64_decode ::
    "(nat \<Rightarrow> memory option) \<Rightarrow> memory \<Rightarrow> nvm_key \<Rightarrow> err ub" where
  "nvm_key_base64_decode malloc b64_input k =
     do {
       decoded \<leftarrow> b64_decode malloc (Some b64_input);
       case decoded of
         None \<Rightarrow> Some (Other_err (- 1))
       | Some (decoded_bytes, decoded_len) \<Rightarrow>
           check_arrays decoded_bytes (key_arrays k) 0 (unat decoded_len)
     }"

section \<open>The file\<close>

definition newline :: char where
  "newline = CHR 0x0A"

text \<open>\<open>%s\<close> of a C string, or of NULL.\<close>

definition c_string :: "memory option \<Rightarrow> string" where
  "c_string p = (case p of None \<Rightarrow> ''(null)'' | Some bs \<Rightarrow> map (\<lambda>b. char_of (unat b)) (takeWhile (\<lambda>b. b \<noteq> 0) bs))"

definition nvm_text :: "string \<Rightarrow> nat \<Rightarrow> string" where
  "nvm_text key ssn = ''NVM_KEY='' @ key @ [newline] @ ''OSCORE_SSN='' @ show_nat ssn @ [newline]"

definition nvm_write_ssn ::
    "(nat \<Rightarrow> memory option) \<Rightarrow> (nat \<Rightarrow> memory) \<Rightarrow> (nat \<Rightarrow> memory) \<Rightarrow> bool \<Rightarrow> nvm_key \<Rightarrow> u64 \<Rightarrow>
     string option \<Rightarrow> (err \<times> string option) ub" where
  "nvm_write_ssn malloc mem_at stack writable k ssn file =
     (if \<not> writable then Some (Oscore_ssn_overflow, file)
      else do {
        nvm_key_base64 \<leftarrow> nvm_key_base64_encode malloc mem_at stack k;
        Some (Ok, Some (nvm_text (c_string nvm_key_base64) (unat ssn)))
      })"

definition MAX_NVM_LINE_LENGTH :: nat where
  "MAX_NVM_LINE_LENGTH = 256"

text \<open>\<open>fgets\<close>: at most the given number of characters, through the first newline.\<close>

fun read_line :: "nat \<Rightarrow> string \<Rightarrow> string \<times> string" where
  "read_line 0 s = ([], s)"
| "read_line (Suc k) [] = ([], [])"
| "read_line (Suc k) (c # cs) =
     (if c = newline then ([c], cs) else let (l, rest) = read_line k cs in (c # l, rest))"

definition strip_prefix :: "string \<Rightarrow> string \<Rightarrow> string option" where
  "strip_prefix p s = (if take (length p) s = p then Some (drop (length p) s) else None)"

text \<open>\<open>sscanf(line, "NVM_KEY=%s", ...)\<close>\<close>

definition scan_key :: "string \<Rightarrow> string option" where
  "scan_key line =
     (case strip_prefix ''NVM_KEY='' line of
        None \<Rightarrow> None
      | Some s \<Rightarrow>
          let word = takeWhile (\<lambda>c. \<not> is_space c) (dropWhile is_space s) in
          if word = [] then None else Some word)"

text \<open>\<open>%u\<close>: converted as a 64-bit \<open>unsigned long\<close> that saturates, then stored in 32 bits.\<close>

definition unsigned_long :: "string \<Rightarrow> u64" where
  "unsigned_long ds = (if num_prefix 0 ds < 2 ^ 64 then of_nat (num_prefix 0 ds) else - 1)"

definition scan_unsigned :: "string \<Rightarrow> u32 option" where
  "scan_unsigned s =
     (case dropWhile is_space s of
        [] \<Rightarrow> None
      | c # cs \<Rightarrow>
          if c = CHR ''-'' then
            (if cs \<noteq> [] \<and> is_digit (hd cs) then
               Some (ucast (if num_prefix 0 cs < 2 ^ 64 then - unsigned_long cs else - 1)) else None)
          else if c = CHR ''+'' then
            (if cs \<noteq> [] \<and> is_digit (hd cs) then Some (ucast (unsigned_long cs)) else None)
          else if is_digit c then Some (ucast (unsigned_long (c # cs)))
          else None)"

text \<open>\<open>sscanf(line, "OSCORE_SSN=%u", ...)\<close>\<close>

definition scan_ssn :: "string \<Rightarrow> u32 option" where
  "scan_ssn line = (case strip_prefix ''OSCORE_SSN='' line of None \<Rightarrow> None | Some s \<Rightarrow> scan_unsigned s)"

record scan_state =
  nvm_key_found :: bool
  ssn_found :: bool
  read_nvm_key :: string
  read_ssn :: u32

definition scan_line :: "string \<Rightarrow> scan_state \<Rightarrow> scan_state" where
  "scan_line line st =
     (let line = takeWhile (\<lambda>c. c \<noteq> newline) line in
      case scan_key line of
        Some key \<Rightarrow> st\<lparr>read_nvm_key := key, nvm_key_found := True\<rparr>
      | None \<Rightarrow>
          (case scan_ssn line of
             Some n \<Rightarrow> st\<lparr>read_ssn := n, ssn_found := True\<rparr>
           | None \<Rightarrow> st))"

lemma read_line_shorter: "0 < k \<Longrightarrow> s \<noteq> [] \<Longrightarrow> length (snd (read_line k s)) < length s"
proof (induction k s rule: read_line.induct)
  case (3 k c cs)
  then show ?case
    by (cases k; cases cs) (auto simp: split_beta Let_def less_Suc_eq)
qed simp_all

function scan_file :: "string \<Rightarrow> scan_state \<Rightarrow> scan_state" where
  "scan_file s st =
     (if s = [] then st
      else let (line, rest) = read_line (MAX_NVM_LINE_LENGTH - 1) s
        in scan_file rest (scan_line line st))"
  by pat_completeness auto
termination
proof (relation "measure (\<lambda>(s, _). length s)")
  fix s :: string and st :: scan_state and x line rest
  assume "s \<noteq> []" "x = read_line (MAX_NVM_LINE_LENGTH - 1) s" "(line, rest) = x"
  then have "rest = snd (read_line (MAX_NVM_LINE_LENGTH - 1) s)"
    by (metis snd_conv)
  with \<open>s \<noteq> []\<close> show "((rest, scan_line line st), s, st) \<in> measure (\<lambda>(s, _). length s)"
    using read_line_shorter [of "MAX_NVM_LINE_LENGTH - 1" s] by (simp add: MAX_NVM_LINE_LENGTH_def)
qed simp

declare scan_file.simps [simp del]

definition nvm_read_ssn ::
    "(nat \<Rightarrow> memory option) \<Rightarrow> (nat \<Rightarrow> memory) \<Rightarrow> (nat \<Rightarrow> memory) \<Rightarrow> bool \<Rightarrow> nvm_key \<Rightarrow> u64 \<Rightarrow>
     string option \<Rightarrow> (err \<times> u64 \<times> string option) ub" where
  "nvm_read_ssn malloc mem_at stack writable k ssn file =
     (case file of
        None \<Rightarrow>
          do {
            (write_res, file) \<leftarrow> nvm_write_ssn malloc mem_at stack writable k 0 file;
            if write_res \<noteq> Ok then Some (write_res, 0, file) else Some (Ok, 0, file)
          }
      | Some text \<Rightarrow>
          let st = scan_file text \<lparr>nvm_key_found = False, ssn_found = False, read_nvm_key = [], read_ssn = 0\<rparr>
          in if nvm_key_found st \<and> ssn_found st then Some (Ok, ucast (read_ssn st), file)
             else Some (Oscore_ssn_overflow, ssn, file))"

section \<open>Reading back what was written\<close>

lemma read_line_split:
  "newline \<notin> set xs \<Longrightarrow> read_line k (xs @ newline # ys) =
    (if length xs < k then (xs @ [newline], ys) else (take k xs, drop k xs @ newline # ys))"
proof (induction xs arbitrary: k)
  case Nil
  then show ?case
    by (cases k) simp_all
next
  case (Cons x xs)
  then show ?case
    by (cases k) (auto simp: split_beta Let_def)
qed

lemma scan_file_Nil [simp]: "scan_file [] st = st"
  by (simp add: scan_file.simps)

lemma scan_file_line:
  assumes "newline \<notin> set xs"
  shows "scan_file (xs @ newline # ys) st =
    (if length xs < 255 then scan_file ys (scan_line xs st)
     else scan_file (drop 255 xs @ newline # ys) (scan_line (take 255 xs) st))"
proof -
  have "takeWhile (\<lambda>c. c \<noteq> newline) (xs @ [newline]) = xs"
    "takeWhile (\<lambda>c. c \<noteq> newline) xs = xs"
    using assms by (auto simp: takeWhile_append takeWhile_eq_all_conv)
  then have "scan_line (xs @ [newline]) st = scan_line xs st"
    by (simp only: scan_line_def Let_def)
  then show ?thesis
    using assms by (subst scan_file.simps) (simp add: read_line_split MAX_NVM_LINE_LENGTH_def)
qed

text \<open>The characters of the key text never form one of the two directives.\<close>

definition key_chars :: "string \<Rightarrow> bool" where
  "key_chars s \<longleftrightarrow> (\<forall>c \<in> set s. c \<noteq> CHR ''_'' \<and> c \<noteq> newline \<and> \<not> is_space c)"

lemma newline_space: "is_space newline"
  by (simp add: is_space_def newline_def)

lemma strip_prefix_other: "c \<in> set p \<Longrightarrow> c \<notin> set s \<Longrightarrow> strip_prefix p s = None"
  using in_set_takeD [of c "length p" s] by (auto simp: strip_prefix_def)

lemma scan_line_other: "CHR ''_'' \<notin> set line \<Longrightarrow> scan_line line st = st"
proof -
  assume no: "CHR ''_'' \<notin> set line"
  define l where "l = takeWhile (\<lambda>c. c \<noteq> newline) line"
  have l: "CHR ''_'' \<notin> set l"
    using no set_takeWhileD by (metis l_def)
  have "scan_key l = None" "scan_ssn l = None"
    using l by (simp_all add: scan_key_def scan_ssn_def strip_prefix_other [of "CHR ''_''"])
  then show ?thesis
    by (simp add: scan_line_def flip: l_def)
qed

lemma scan_file_other:
  "key_chars xs \<Longrightarrow> scan_file (xs @ newline # ys) st = scan_file ys st"
proof (induction "length xs" arbitrary: xs rule: less_induct)
  case less
  then have no: "newline \<notin> set xs" "CHR ''_'' \<notin> set xs"
    by (auto simp: key_chars_def)
  show ?case
  proof (cases "length xs < 255")
    case True
    then show ?thesis
      using no by (simp add: scan_file_line scan_line_other)
  next
    case False
    moreover have "key_chars (drop 255 xs)"
      using less(2) by (auto simp: key_chars_def dest: in_set_dropD)
    moreover have "scan_line (take 255 xs) st = st"
      using no(2) by (intro scan_line_other) (auto dest: in_set_takeD)
    ultimately show ?thesis
      using no less(1) [of "drop 255 xs"] by (simp add: scan_file_line)
  qed
qed

lemma key_line:
  assumes "key_chars key" "key \<noteq> []"
  shows "\<exists>k. scan_line (''NVM_KEY='' @ key) st = st\<lparr>read_nvm_key := k, nvm_key_found := True\<rparr>"
proof -
  have "newline \<notin> set (''NVM_KEY='' @ key)"
    using assms(1) by (auto simp: key_chars_def newline_def)
  then have "takeWhile (\<lambda>c. c \<noteq> newline) (''NVM_KEY='' @ key) = ''NVM_KEY='' @ key"
    by (auto simp only: takeWhile_eq_all_conv)
  moreover have "dropWhile is_space key = key" "takeWhile (\<lambda>c. \<not> is_space c) key \<noteq> []"
    using assms by (cases key; simp add: key_chars_def)+
  then have "\<exists>k. scan_key (''NVM_KEY='' @ key) = Some k"
    by (simp add: scan_key_def strip_prefix_def)
  ultimately show ?thesis
    by (auto simp: scan_line_def)
qed

lemma key_read:
  assumes key: "key_chars key" "key \<noteq> []"
  shows "\<exists>k. scan_file (''NVM_KEY='' @ key @ newline # ys) st =
    scan_file ys (st\<lparr>read_nvm_key := k, nvm_key_found := True\<rparr>)"
proof -
  define xs where "xs = ''NVM_KEY='' @ key"
  have xs: "newline \<notin> set xs" "''NVM_KEY='' @ key @ newline # ys = xs @ newline # ys"
    using key by (auto simp: xs_def key_chars_def newline_def)
  show ?thesis
  proof (cases "length xs < 255")
    case True
    obtain k where "scan_line xs st = st\<lparr>read_nvm_key := k, nvm_key_found := True\<rparr>"
      using key_line [OF key, of st] unfolding xs_def by blast
    then show ?thesis
      unfolding xs(2) scan_file_line [OF xs(1)] if_P [OF True] by (intro exI [of _ k]) (rule arg_cong)
  next
    case False
    have "take 255 xs = ''NVM_KEY='' @ take 247 key" "drop 255 xs = drop 247 key"
      by (simp_all add: xs_def)
    moreover have "key_chars (take 247 key)" "key_chars (drop 247 key)" "take 247 key \<noteq> []"
      using key by (auto simp: key_chars_def dest: in_set_takeD in_set_dropD)
    moreover obtain k where "scan_line (''NVM_KEY='' @ take 247 key) st =
        st\<lparr>read_nvm_key := k, nvm_key_found := True\<rparr>"
      using key_line [OF calculation(3,5), of st] by blast
    ultimately show ?thesis
      unfolding xs(2) scan_file_line [OF xs(1)] if_not_P [OF False]
      by (intro exI [of _ k]) (simp only: scan_file_other)
  qed
qed

lemma length_show_nat: "n < 10 ^ Suc k \<Longrightarrow> length (show_nat n) \<le> Suc k"
proof (induction k arbitrary: n)
  case 0
  then show ?case
    by (simp add: show_nat.simps)
next
  case (Suc k)
  then have "n div 10 < 10 ^ Suc k"
    by (simp add: div_less_iff_less_mult)
  with Suc.IH show ?case
    by (subst show_nat.simps) simp
qed

lemma unsigned_long_show: "n < 2 ^ 64 \<Longrightarrow> unsigned_long (show_nat n) = of_nat n"
  by (simp add: unsigned_long_def num_prefix_show_nat)

lemma scan_unsigned_show: "n < 2 ^ 64 \<Longrightarrow> scan_unsigned (show_nat n) = Some (of_nat n)"
proof -
  assume n: "n < 2 ^ 64"
  obtain c cs where c: "show_nat n = c # cs"
    by (cases "show_nat n") auto
  then have "is_digit c"
    using show_nat_digits by (metis list.set_intros(1))
  then have "scan_unsigned (show_nat n) = Some (ucast (unsigned_long (show_nat n)))"
    using c by (simp add: scan_unsigned_def digit_not_space digit_not_sign)
  also have "\<dots> = Some (of_nat n)"
    unfolding unsigned_long_show [OF n] by (simp only: ucast_of_nat_32)
  finally show ?thesis .
qed

lemma ssn_line: "n < 2 ^ 64 \<Longrightarrow>
    scan_line (''OSCORE_SSN='' @ show_nat n) st = st\<lparr>read_ssn := of_nat n, ssn_found := True\<rparr>"
proof -
  assume n: "n < 2 ^ 64"
  have "newline \<notin> set (''OSCORE_SSN='' @ show_nat n)"
    using show_nat_digits [of newline n] by (auto simp: is_digit_def newline_def)
  then have "takeWhile (\<lambda>c. c \<noteq> newline) (''OSCORE_SSN='' @ show_nat n) = ''OSCORE_SSN='' @ show_nat n"
    by (auto simp only: takeWhile_eq_all_conv)
  moreover have "scan_key (''OSCORE_SSN='' @ show_nat n) = None"
    by (simp add: scan_key_def strip_prefix_def)
  moreover have "scan_ssn (''OSCORE_SSN='' @ show_nat n) = Some (of_nat n)"
    using scan_unsigned_show [OF n] by (simp add: scan_ssn_def strip_prefix_def)
  ultimately show ?thesis
    by (simp only: scan_line_def Let_def option.case)
qed

lemma ssn_read:
  assumes n: "n < 2 ^ 64"
  shows "scan_file (''OSCORE_SSN='' @ show_nat n @ [newline]) st = st\<lparr>read_ssn := of_nat n, ssn_found := True\<rparr>"
proof -
  define xs where "xs = ''OSCORE_SSN='' @ show_nat n"
  have "newline \<notin> set xs"
    using show_nat_digits [of newline n] by (auto simp: xs_def is_digit_def newline_def)
  moreover have "length xs < 255"
    using length_show_nat [of n 19] n by (simp add: xs_def)
  ultimately have "scan_file (xs @ newline # []) st = scan_line xs st"
    using scan_file_line [of xs "[]" st] by simp
  then show ?thesis
    using ssn_line [OF n] by (simp add: xs_def)
qed

lemma scan_nvm_text:
  assumes "key_chars key" "key \<noteq> []" "n < 2 ^ 64"
  shows "\<exists>k. scan_file (nvm_text key n) st =
    st\<lparr>read_nvm_key := k, nvm_key_found := True, read_ssn := of_nat n, ssn_found := True\<rparr>"
proof -
  obtain k where "scan_file (''NVM_KEY='' @ key @ newline # ''OSCORE_SSN='' @ show_nat n @ [newline]) st =
      scan_file (''OSCORE_SSN='' @ show_nat n @ [newline]) (st\<lparr>read_nvm_key := k, nvm_key_found := True\<rparr>)"
    using key_read [OF assms(1,2)] by blast
  then have "scan_file (nvm_text key n) st =
      st\<lparr>read_nvm_key := k, nvm_key_found := True, read_ssn := of_nat n, ssn_found := True\<rparr>"
    unfolding nvm_text_def ssn_read [OF assms(3)] by simp
  then show ?thesis
    by blast
qed

text \<open>The key text consists of such characters.\<close>

lemma byte_cases: "list_all P (map of_nat [0 ..< 256]) \<Longrightarrow> P (b :: byte)"
proof -
  assume "list_all P (map of_nat [0 ..< 256])"
  moreover have "b \<in> set (map of_nat [0 ..< 256])"
    using byte_less [of b] by (auto intro!: image_eqI [of _ _ "unat b"])
  ultimately show ?thesis
    by (simp only: list_all_iff)
qed

lemma valid_char_key: "b64_isvalidchar b \<Longrightarrow> key_chars [char_of (unat b)]"
proof -
  assume b: "b64_isvalidchar b"
  then have "48 \<le> unat b \<and> unat b \<le> 57 \<or> 65 \<le> unat b \<and> unat b \<le> 90
      \<or> 97 \<le> unat b \<and> unat b \<le> 122 \<or> unat b = 43 \<or> unat b = 47 \<or> unat b = 61"
    by (auto simp: b64_isvalidchar_def word_le_nat_alt split: if_splits)
  moreover have "of_char (char_of (unat b)) = unat b"
    using byte_less [of b] by (simp add: of_char_of)
  then have "char_of (unat b) = c \<Longrightarrow> unat b = of_char c" for c
    by auto
  then have "char_of (unat b) \<noteq> CHR ''_''" "char_of (unat b) \<noteq> newline"
    using calculation by (fastforce simp: newline_def)+
  ultimately show ?thesis
    using \<open>of_char (char_of (unat b)) = unat b\<close> by (auto simp: key_chars_def is_space_def)
qed

lemma key_text_chars:
  assumes "malloc_ok malloc" "0 < n" "n \<le> length buf" "n < 2 ^ 62"
  shows "\<exists>p. b64_encode malloc (Some buf) n = Some p \<and> key_chars (c_string p) \<and> c_string p \<noteq> []"
proof -
  define e where "e = encoding (take n buf)"
  have "list_all (\<lambda>c. b64_isvalidchar c \<and> c \<noteq> 0) e"
    by (simp add: e_def encoding_valid)
  then have e: "takeWhile (\<lambda>b. b \<noteq> 0) (e @ [0]) = e" "\<forall>b \<in> set e. b64_isvalidchar b"
    by (auto simp: list_all_iff takeWhile_append takeWhile_eq_all_conv)
  have "e \<noteq> []"
    using assms(2,3) length_encoding [of "take n buf"] by (auto simp: e_def)
  moreover have "key_chars (map (\<lambda>b. char_of (unat b)) e)"
    using e(2) valid_char_key by (auto simp: key_chars_def)
  ultimately show ?thesis
    using b64_encode_eq [OF assms] e(1) by (simp add: c_string_def e_def)
qed

lemma low_32_bits: "(ucast (of_nat n :: u32) :: u64) = of_nat (n mod 2 ^ 32)"
proof (rule unsigned_word_eqI [where 'a = nat])
  have "unat (ucast (of_nat n :: u32) :: u64) = n mod 2 ^ 32 mod 2 ^ 64"
    by (simp only: unsigned_ucast_eq unsigned_of_nat take_bit_eq_mod) simp
  then show "unat (ucast (of_nat n :: u32) :: u64) = unat (of_nat (n mod 2 ^ 32) :: u64)"
    by (simp only: unsigned_of_nat take_bit_eq_mod) simp
qed

lemma copy_arrays_length: "copy_arrays mem_at i bs p buf = Some buf' \<Longrightarrow> length buf' = length buf"
proof (induction bs arbitrary: i p buf)
  case (Cons b bs)
  then obtain b1 bytes b2 where "store buf p (u32_bytes (ba_len b)) = Some b1"
      "store b1 0 bytes = Some b2" "copy_arrays mem_at (i + 1) bs (p + 4 + unat (ba_len b)) b2 = Some buf'"
    by (auto simp: Option.bind_eq_Some_conv Let_def)
  with Cons.IH show ?case
    by (metis store_length)
qed simp

section \<open>Properties\<close>

text \<open>\<open>nvm_write_ssn\<close> leaves a key text and the number, \<open>nvm_read_ssn\<close> finds the number again.\<close>

lemma write_text:
  assumes "malloc_ok malloc" and "\<And>n. length (stack n) = n"
    and "nvm_write_ssn malloc mem_at stack True k ssn file = Some (r, file')"
    and "nvm_key_bytes_len k \<noteq> 0"
  obtains key where "r = Ok" "file' = Some (nvm_text key (unat ssn))" "key_chars key" "key \<noteq> []"
proof -
  define n where "n = unat (nvm_key_bytes_len k)"
  have n: "0 < n" "n < 2 ^ 62"
    using assms(4) byte_less [of "nvm_key_bytes_len k"]
      unsigned_eq_0_iff [of "nvm_key_bytes_len k", where ?'a = nat]
    by (simp_all add: n_def)
  obtain buf p where buf: "copy_arrays mem_at 0 (key_arrays k) 0 (stack n) = Some buf"
      "b64_encode malloc (Some buf) n = Some p" "file' = Some (nvm_text (c_string p) (unat ssn))" "r = Ok"
    using assms(3) by (auto simp: nvm_write_ssn_def nvm_key_base64_encode_def n_def Let_def
        Option.bind_eq_Some_conv)
  then have "length buf = n"
    using copy_arrays_length assms(2) by metis
  then have "key_chars (c_string p)" "c_string p \<noteq> []"
    using key_text_chars [OF assms(1) n(1) _ n(2), of buf] buf(2) by auto
  with buf(3,4) show thesis
    using that by blast
qed

lemma read_text:
  assumes "key_chars key" "key \<noteq> []" "n < 2 ^ 64"
  shows "nvm_read_ssn malloc mem_at stack writable k old (Some (nvm_text key n)) =
    Some (Ok, of_nat (n mod 2 ^ 32), Some (nvm_text key n))"
  using scan_nvm_text [OF assms, of "\<lparr>nvm_key_found = False, ssn_found = False, read_nvm_key = [], read_ssn = 0\<rparr>"]
    low_32_bits [of n]
  by (auto simp: nvm_read_ssn_def)

lemma nvm_ssn_roundtrip:
  assumes "malloc_ok malloc" and "\<And>n. length (stack n) = n"
    and "nvm_write_ssn malloc mem_at stack True k ssn file = Some (r, file')"
    and "nvm_key_bytes_len k \<noteq> 0"
  shows "r = Ok \<and> nvm_read_ssn malloc mem_at stack writable k old file' =
    Some (Ok, of_nat (unat ssn mod 2 ^ 32), file')"
proof -
  obtain key where "r = Ok" "file' = Some (nvm_text key (unat ssn))" "key_chars key" "key \<noteq> []"
    using write_text [OF assms] by blast
  then show ?thesis
    using read_text unsigned_less [of ssn, where ?'a = nat] by simp
qed

section \<open>The store is one cell\<close>

text \<open>Keys whose arrays lie in memory and whose text fits the length byte of the encoder.\<close>

definition key_fits :: "(nat \<Rightarrow> memory) \<Rightarrow> nvm_key \<Rightarrow> bool" where
  "key_fits mem_at k \<longleftrightarrow>
     (let a = unat (ba_len (key_sender_id k)); b = unat (ba_len (key_recipient_id k)); c = unat (ba_len (key_id_context k))
      in a + b + c + 12 < 256 \<and> a \<le> length (mem_at 0) \<and> b \<le> length (mem_at 1) \<and> c \<le> length (mem_at 2))"

lemma key_len:
  assumes "key_fits mem_at k"
  shows "unat (nvm_key_bytes_len k) = unat (ba_len (key_sender_id k)) + unat (ba_len (key_recipient_id k))
    + unat (ba_len (key_id_context k)) + 12"
    (is "_ = ?n")
proof -
  have "ba_len (key_sender_id k) + ba_len (key_recipient_id k) + ba_len (key_id_context k) + 4 * 3 = of_nat ?n"
    by simp
  moreover have "?n < 256"
    using assms by (simp add: key_fits_def Let_def)
  ultimately show ?thesis
    unfolding nvm_key_bytes_len_def
    by (simp only: unsigned_of_nat unsigned_ucast_eq) (simp add: take_bit_nat_eq_self)
qed

lemma store_ok: "i + length bs \<le> length m \<Longrightarrow> \<exists>m'. store m i bs = Some m' \<and> length m' = length m"
  by (simp add: store_def)

lemma copy_arrays_ok:
  assumes "p + sum_list (map (\<lambda>b. 4 + unat (ba_len b)) bs) \<le> length buf"
    and "\<forall>j < length bs. unat (ba_len (bs ! j)) \<le> length (mem_at (i + j))"
  shows "\<exists>buf'. copy_arrays mem_at i bs p buf = Some buf'"
  using assms
proof (induction bs arbitrary: i p buf)
  case (Cons b bs)
  obtain b1 where b1: "store buf p (u32_bytes (ba_len b)) = Some b1" "length b1 = length buf"
    using store_ok [of p "u32_bytes (ba_len b)" buf] Cons.prems(1) by (auto simp: u32_bytes_def)
  have first: "unat (ba_len b) \<le> length (mem_at i)"
    using Cons.prems(2) by (metis length_greater_0_conv list.discI nth_Cons_0 add.right_neutral)
  then obtain b2 where b2: "store b1 0 (take (unat (ba_len b)) (mem_at i)) = Some b2" "length b2 = length buf"
    using store_ok [of 0 "take (unat (ba_len b)) (mem_at i)" b1] Cons.prems(1) b1(2) by auto
  have "\<forall>j < length bs. unat (ba_len (bs ! j)) \<le> length (mem_at (i + 1 + j))"
    using Cons.prems(2) by (metis Suc_less_eq length_Cons nth_Cons_Suc add_Suc_right add.assoc plus_1_eq_Suc)
  then show ?case
    using Cons.IH [of "p + 4 + unat (ba_len b)" b2 "i + 1"] Cons.prems(1) b1(1) b2 first by (simp add: load_def add.assoc)
qed simp

lemma write_ok:
  assumes "malloc_ok malloc" and "\<And>n. length (stack n) = n" and "key_fits mem_at k"
  obtains key where "nvm_write_ssn malloc mem_at stack True k ssn file = Some (Ok, Some (nvm_text key (unat ssn)))"
    "key_chars key" "key \<noteq> []"
proof -
  define n where "n = unat (nvm_key_bytes_len k)"
  have n: "0 < n" "n < 2 ^ 62"
    using key_len [OF assms(3)] byte_less [of "nvm_key_bytes_len k"] by (simp_all add: n_def)
  have "\<forall>j < length (key_arrays k). unat (ba_len (key_arrays k ! j)) \<le> length (mem_at (0 + j))"
    using assms(3) by (auto simp: key_arrays_def key_fits_def Let_def less_Suc_eq numeral_eq_Suc)
  then obtain buf where buf: "copy_arrays mem_at 0 (key_arrays k) 0 (stack n) = Some buf"
    using copy_arrays_ok [of 0 "key_arrays k" "stack n" mem_at 0] key_len [OF assms(3)]
    by (auto simp: assms(2) n_def key_arrays_def)
  then have "length buf = n"
    using copy_arrays_length assms(2) by metis
  then obtain p where "b64_encode malloc (Some buf) n = Some p" "key_chars (c_string p)" "c_string p \<noteq> []"
    using key_text_chars [OF assms(1) n(1) _ n(2), of buf] by auto
  with buf show thesis
    using that by (simp add: nvm_write_ssn_def nvm_key_base64_encode_def n_def Let_def)
qed

text \<open>The key of the shipped core and device configurations: an empty sender id, a one-byte
  recipient id and no context.\<close>

definition default_key :: "memory \<Rightarrow> nvm_key" where
  "default_key rid = \<lparr>key_sender_id = \<lparr>ba_len = 0, ba_bytes = []\<rparr>,
     key_recipient_id = \<lparr>ba_len = 1, ba_bytes = rid\<rparr>, key_id_context = \<lparr>ba_len = 0, ba_bytes = []\<rparr>\<rparr>"

lemma default_key_len: "nvm_key_bytes_len (default_key rid) = 13"
  by (simp add: nvm_key_bytes_len_def default_key_def)

lemma default_key_bytes:
  assumes "length m = 13" and "mem_at 1 = p # rest"
  shows "copy_arrays mem_at 0 (key_arrays (default_key rid)) 0 m =
    Some [p, 0, 0, 0, 1, 0, 0, 0, m ! 8, 0, 0, 0, 0]"
proof -
  obtain m0 m1 m2 m3 m4 m5 m6 m7 m8 m9 m10 m11 m12
    where "m = [m0, m1, m2, m3, m4, m5, m6, m7, m8, m9, m10, m11, m12]"
    using assms(1) by (auto simp: numeral_eq_Suc length_Suc_conv)
  then show ?thesis
    using assms(2) by (simp add: key_arrays_def default_key_def u32_bytes_def store_def poke_def load_def)
qed

lemma nvm_ssn_roundtrip_witness:
  "\<exists>file'. nvm_write_ssn plain_malloc (\<lambda>i. [7, 8]) (\<lambda>n. replicate n 0) True (default_key [1])
      4294967297 None = Some (Ok, file')
    \<and> nvm_read_ssn plain_malloc (\<lambda>i. [7, 8]) (\<lambda>n. replicate n 0) False (default_key [1]) 5 file' =
        Some (Ok, of_nat (unat (4294967297 :: u64) mod 2 ^ 32), file')"
proof -
  have "copy_arrays (\<lambda>i. [7, 8]) 0 (key_arrays (default_key [1])) 0 (replicate 13 0) =
      Some [7, 0, 0, 0, 1, 0, 0, 0, replicate 13 0 ! 8, 0, 0, 0, 0]"
    by (rule default_key_bytes [of _ _ _ "[8]"]) simp_all
  then obtain file' where w: "nvm_write_ssn plain_malloc (\<lambda>i. [7, 8]) (\<lambda>n. replicate n 0) True
      (default_key [1]) 4294967297 None = Some (Ok, file')"
    using b64_encode_eq [OF plain_malloc_ok, of 13 "[7, 0, 0, 0, 1, 0, 0, 0, replicate 13 0 ! 8, 0, 0, 0, 0]"]
    by (simp add: nvm_write_ssn_def nvm_key_base64_encode_def default_key_len del: encoding.simps)
  from nvm_ssn_roundtrip [OF plain_malloc_ok _ w, of False 5] show ?thesis
    using w by (simp add: default_key_len)
qed

text \<open>The key text does not survive its own decoder: with the shipped identifiers, decoding the
  text just encoded succeeds only if the byte that happens to lie at the address of the
  recipient's pointer is zero, because the encoder copies the pointer over the first length
  field instead of copying the identifier behind it.\<close>

lemma nvm_key_text_corrupted:
  assumes "malloc_ok malloc" and "\<And>n. length (stack n) = n" and "mem_at 1 = p # rest"
  shows "\<exists>s. nvm_key_base64_encode malloc mem_at stack (default_key rid) = Some (Some (s @ [0]))
    \<and> nvm_key_base64_decode malloc s (default_key rid) =
        Some (if p = 0 then Ok else Oscore_ssn_overflow)"
proof -
  define buf where "buf = [p, 0, 0, 0, 1, 0, 0, 0, stack 13 ! 8, 0, 0, 0, 0]"
  have "copy_arrays mem_at 0 (key_arrays (default_key rid)) 0 (stack 13) = Some buf"
    unfolding buf_def by (rule default_key_bytes) (use assms in simp_all)
  then have "nvm_key_base64_encode malloc mem_at stack (default_key rid) = Some (Some (encoding buf @ [0]))"
    using b64_encode_eq [OF assms(1), of 13 buf]
    by (simp add: nvm_key_base64_encode_def default_key_len buf_def del: encoding.simps)
  moreover have "b64_decode malloc (Some (encoding buf)) = Some (Some (buf @ [0], 13))"
    using decode_encoded [OF assms(1), of buf] by (simp add: buf_def del: encoding.simps)
  then have "nvm_key_base64_decode malloc (encoding buf) (default_key rid) =
      check_arrays (buf @ [0]) (key_arrays (default_key rid)) 0 13"
    by (simp add: nvm_key_base64_decode_def)
  moreover have "check_arrays (buf @ [0]) (key_arrays (default_key rid)) 0 13 =
      Some (if p = 0 then Ok else Oscore_ssn_overflow)"
  proof -
    have "unat (ucast p :: u32) = unat p"
      using byte_less [of p] by (simp add: unsigned_ucast_eq take_bit_nat_eq_self)
    then have "(ucast p :: u32) = 0 \<longleftrightarrow> p = 0"
      using unsigned_eq_0_iff [of p, where ?'a = nat] unsigned_eq_0_iff [of "ucast p :: u32", where ?'a = nat]
      by linarith
    then show ?thesis
      by (simp add: key_arrays_def default_key_def buf_def peek_def Let_def)
  qed
  ultimately show ?thesis
    by (intro exI [of _ "encoding buf"]) (simp only: simp_thms)
qed

lemma nvm_key_text_corrupted_witness:
  "\<exists>s. nvm_key_base64_encode plain_malloc (\<lambda>i. [7, 8]) (\<lambda>n. replicate n 0) (default_key [1]) = Some (Some (s @ [0]))
    \<and> nvm_key_base64_decode plain_malloc s (default_key [1]) =
        Some (if (7 :: byte) = 0 then Ok else Oscore_ssn_overflow)"
  by (rule nvm_key_text_corrupted [OF plain_malloc_ok]) simp_all

section \<open>All keys share the cell\<close>

datatype ssn_op = Write_ssn nvm_key u64 | Read_ssn nvm_key

fun op_key :: "ssn_op \<Rightarrow> nvm_key" where
  "op_key (Write_ssn k n) = k"
| "op_key (Read_ssn k) = k"

text \<open>A history of calls on the file, with the results of the reads, and the same history on one cell.\<close>

fun run_store :: "(nat \<Rightarrow> memory option) \<Rightarrow> (nat \<Rightarrow> memory) \<Rightarrow> (nat \<Rightarrow> memory) \<Rightarrow> ssn_op list \<Rightarrow> string option \<Rightarrow>
    ((err \<times> u64) list) ub" where
  "run_store malloc mem_at stack [] file = Some []"
| "run_store malloc mem_at stack (Write_ssn k n # os) file =
     do {
       (r, file) \<leftarrow> nvm_write_ssn malloc mem_at stack True k n file;
       run_store malloc mem_at stack os file
     }"
| "run_store malloc mem_at stack (Read_ssn k # os) file =
     do {
       (r, ssn, file) \<leftarrow> nvm_read_ssn malloc mem_at stack True k 0 file;
       rs \<leftarrow> run_store malloc mem_at stack os file;
       Some ((r, ssn) # rs)
     }"

fun run_cell :: "ssn_op list \<Rightarrow> u64 \<Rightarrow> (err \<times> u64) list" where
  "run_cell [] c = []"
| "run_cell (Write_ssn k n # os) c = run_cell os n"
| "run_cell (Read_ssn k # os) c = (Ok, of_nat (unat c mod 2 ^ 32)) # run_cell os c"

text \<open>The number a file stands for.\<close>

definition holds :: "string option \<Rightarrow> u64 \<Rightarrow> bool" where
  "holds file n \<longleftrightarrow> (case file of
     None \<Rightarrow> n = 0
   | Some text \<Rightarrow> \<exists>key. text = nvm_text key (unat n) \<and> key_chars key \<and> key \<noteq> [])"

lemma read_holds:
  assumes "malloc_ok malloc" and "\<And>n. length (stack n) = n" and "key_fits mem_at k" and "holds file n"
  shows "\<exists>file'. nvm_read_ssn malloc mem_at stack True k old file = Some (Ok, of_nat (unat n mod 2 ^ 32), file') \<and> holds file' n"
proof (cases "file")
  case None
  obtain key where "nvm_write_ssn malloc mem_at stack True k 0 None = Some (Ok, Some (nvm_text key (unat (0 :: u64))))"
    "key_chars key" "key \<noteq> []"
    using write_ok [OF assms(1-3), of 0 None] by blast
  then show ?thesis
    using None assms(4) by (auto simp: nvm_read_ssn_def holds_def)
next
  case (Some t)
  then obtain key where key: "t = nvm_text key (unat n)" "key_chars key" "key \<noteq> []"
    using assms(4) by (auto simp: holds_def)
  then show ?thesis
    using read_text [OF key(2,3), of "unat n"] unsigned_less [of n, where ?'a = nat] assms(4) Some by auto
qed

lemma run_store_cell:
  assumes "malloc_ok malloc" and "\<And>n. length (stack n) = n" and "\<forall>x \<in> set os. key_fits mem_at (op_key x)" and "holds file n"
  shows "run_store malloc mem_at stack os file = Some (run_cell os n)"
  using assms(3,4)
proof (induction os arbitrary: "file" n)
  case (Cons a os)
  show ?case
  proof (cases a)
    case (Write_ssn k m)
    then have "key_fits mem_at k"
      using Cons.prems(1) by simp
    then obtain key where "nvm_write_ssn malloc mem_at stack True k m file = Some (Ok, Some (nvm_text key (unat m)))"
      "key_chars key" "key \<noteq> []"
      using write_ok [OF assms(1,2)] by blast
    moreover from this have "holds (Some (nvm_text key (unat m))) m"
      by (auto simp: holds_def)
    ultimately show ?thesis
      using Cons.IH [of "Some (nvm_text key (unat m))" m] Cons.prems(1) Write_ssn by simp
  next
    case (Read_ssn k)
    then have "key_fits mem_at k"
      using Cons.prems(1) by simp
    then obtain file' where "nvm_read_ssn malloc mem_at stack True k 0 file = Some (Ok, of_nat (unat n mod 2 ^ 32), file')" "holds file' n"
      using read_holds [OF assms(1,2) _ Cons.prems(2), of mem_at k 0] by blast
    then show ?thesis
      using Cons.IH [of file' n] Cons.prems(1) Read_ssn by simp
  qed
qed simp

text \<open>C20: The store of sequence numbers refines one cell that all keys share: in every history of writes and
  reads with any keys, starting without a file, every call succeeds and every read returns the low 32
  bits of the number last written, under whichever key, or 0. So a number of 2 to the 32 or more is not
  restored although it is written in full, and a security context goes on from the number of another one.\<close>

theorem nvm_store_is_one_cell:
  assumes "malloc_ok malloc" and "\<And>n. length (stack n) = n" and "\<forall>x \<in> set os. key_fits mem_at (op_key x)"
  shows "run_store malloc mem_at stack os None = Some (run_cell os 0)"
  by (rule run_store_cell [OF assms]) (simp add: holds_def)

theorem nvm_store_is_one_cell_witness:
  "run_store plain_malloc (\<lambda>i. [7, 8]) (\<lambda>n. replicate n 0)
      [Read_ssn (default_key [1]), Write_ssn (default_key [1]) 4294967297, Read_ssn (default_key [2])] None =
    Some [(Ok, 0), (Ok, 1)]"
proof -
  have "key_fits (\<lambda>i. [7, 8]) (default_key rid)" for rid
    by (simp add: key_fits_def default_key_def)
  then show ?thesis
    using nvm_store_is_one_cell [OF plain_malloc_ok, of "\<lambda>n. replicate n 0"
        "[Read_ssn (default_key [1]), Write_ssn (default_key [1]) 4294967297, Read_ssn (default_key [2])]" "\<lambda>i. [7, 8]"]
    by simp
qed

end
