(* ===== verification/Platform_Fds.thy ===== *)
theory Platform_Fds
  imports Prelude "HOL-Library.Multiset"
begin

text \<open>
  The watched-descriptor table of \<open>platforms/linux/src/platform.c\<close> and the \<open>poll\<close> dispatch that
  reads it. The table is an array of eight slots; its used prefix ends at the first slot whose
  descriptor is -1 (or at the end), so the slots behind it are garbage the code never reads.

  The callback of a slot is a function pointer, a value of a type parameter here (None for NULL).
  The interface \<open>fd_registry\<close> is what the users of the table (the adaptation layer and the L2
  adapter) rely on; it is interpreted on the table below.
\<close>

section \<open>Definitions\<close>

record 'cb slot =
  slot_fd :: int
  slot_cb :: "'cb option"

text \<open>The two handlers the program registers: \<open>schc_al_tun_received_handler\<close> of \<open>schc_al.c\<close> and
  \<open>_downlink_available_callback\<close> of \<open>fullsdkl2a.c\<close>.\<close>

datatype fd_callback = Tun_received | Downlink_available

definition MAX_WATCHED_FDS :: nat where
  "MAX_WATCHED_FDS = 8"

text \<open>\<open>= {{-1, NULL}}\<close>: the first slot as given, the other slots zero.\<close>

definition initial_fds :: "'cb slot list" where
  "initial_fds = \<lparr>slot_fd = -1, slot_cb = None\<rparr>
     # replicate (MAX_WATCHED_FDS - 1) \<lparr>slot_fd = 0, slot_cb = None\<rparr>"

function find_slot :: "'cb slot list \<Rightarrow> int \<Rightarrow> nat \<Rightarrow> nat" where
  "find_slot fds fd idx =
     (if idx < MAX_WATCHED_FDS \<and> slot_fd (fds ! idx) \<noteq> -1 \<and> slot_fd (fds ! idx) \<noteq> fd
      then find_slot fds fd (idx + 1) else idx)"
  by pat_completeness auto
termination
  by (relation "measure (\<lambda>(_, _, idx). MAX_WATCHED_FDS - idx)") auto

function last_slot :: "'cb slot list \<Rightarrow> nat \<Rightarrow> nat" where
  "last_slot fds i =
     (if i + 1 < MAX_WATCHED_FDS \<and> slot_fd (fds ! (i + 1)) \<noteq> -1
      then last_slot fds (i + 1) else i)"
  by pat_completeness auto
termination
  by (relation "measure (\<lambda>(_, i). MAX_WATCHED_FDS - i)") auto

declare find_slot.simps [simp del] last_slot.simps [simp del]

definition watch_fd_for_input ::
    "int \<Rightarrow> 'cb option \<Rightarrow> 'cb slot list \<Rightarrow> bool \<times> 'cb slot list" where
  "watch_fd_for_input fd callback fds =
     (if fd < 0 then (False, fds)
      else let idx = find_slot fds fd 0 in
        if idx = MAX_WATCHED_FDS \<or> slot_fd (fds ! idx) = fd then (False, fds)
        else let
            fds = fds[idx := \<lparr>slot_fd = fd, slot_cb = callback\<rparr>];
            fds = (if idx + 1 < MAX_WATCHED_FDS
                   then fds[idx + 1 := (fds ! (idx + 1))\<lparr>slot_fd := -1\<rparr>] else fds)
          in (True, fds))"

definition unwatch_fd_for_input :: "int \<Rightarrow> 'cb slot list \<Rightarrow> bool \<times> 'cb slot list" where
  "unwatch_fd_for_input fd fds =
     (if fd < 0 then (False, fds)
      else let idx = find_slot fds fd 0 in
        if idx = MAX_WATCHED_FDS \<or> slot_fd (fds ! idx) = -1 then (False, fds)
        else let
            last = last_slot fds idx;
            fds = fds[idx := fds ! last];
            fds = fds[last := \<lparr>slot_fd = -1, slot_cb = None\<rparr>]
          in (True, fds))"

text \<open>
  \<open>platform_enter_low_power_ll\<close>. The result of \<open>poll\<close> is a parameter: its return value and the
  ready descriptors, by their index in the array it was given. A callback may change the table
  and the rest of the program's state \<open>'s\<close>; the loop reads the table again for every slot.
\<close>

definition poll_array :: "'cb slot list \<Rightarrow> int list" where
  "poll_array fds = map slot_fd (takeWhile (\<lambda>s. slot_fd s \<noteq> -1) (take MAX_WATCHED_FDS fds))"

fun dispatch_ready ::
    "('cb \<Rightarrow> 'cb slot list \<times> 's \<Rightarrow> 'cb slot list \<times> 's) \<Rightarrow> (nat \<Rightarrow> bool) \<Rightarrow> nat list \<Rightarrow>
     'cb slot list \<times> 's \<Rightarrow> 'cb slot list \<times> 's" where
  "dispatch_ready call ready [] st = st"
| "dispatch_ready call ready (i # is) st =
     (case (ready i, slot_cb (fst st ! i)) of
        (True, Some cb) \<Rightarrow> dispatch_ready call ready is (call cb st)
      | _ \<Rightarrow> dispatch_ready call ready is st)"

datatype sleep = Paused | Poll_idle | Poll_returned

definition platform_enter_low_power_ll ::
    "('cb \<Rightarrow> 'cb slot list \<times> 's \<Rightarrow> 'cb slot list \<times> 's) \<Rightarrow> int \<Rightarrow> (nat \<Rightarrow> bool) \<Rightarrow>
     'cb slot list \<times> 's \<Rightarrow> sleep \<times> 'cb slot list \<times> 's" where
  "platform_enter_low_power_ll call ret ready st =
     (if slot_fd (fst st ! 0) = -1 then (Paused, st)
      else let nbr_fds = length (poll_array (fst st)) in
        if ret \<le> 0 then (Poll_idle, st)
        else (Poll_returned, dispatch_ready call ready [0 ..< nbr_fds] st))"

section \<open>Abstraction and invariant\<close>

definition used_slots :: "'cb slot list \<Rightarrow> 'cb slot list" where
  "used_slots fds = takeWhile (\<lambda>s. slot_fd s \<noteq> -1) fds"

definition watched :: "'cb slot list \<Rightarrow> int \<rightharpoonup> 'cb option" where
  "watched fds = map_of (map (\<lambda>s. (slot_fd s, slot_cb s)) (used_slots fds))"

definition watch_inv :: "'cb slot list \<Rightarrow> bool" where
  "watch_inv fds \<longleftrightarrow> length fds = MAX_WATCHED_FDS
     \<and> distinct (map slot_fd (used_slots fds)) \<and> (\<forall>s \<in> set (used_slots fds). 0 \<le> slot_fd s)"

lemma watch_inv_initial [simp]: "watch_inv initial_fds"
  by (simp add: watch_inv_def initial_fds_def used_slots_def MAX_WATCHED_FDS_def)

lemma watched_initial [simp]: "watched initial_fds = Map.empty"
  by (simp add: watched_def initial_fds_def used_slots_def)

lemma poll_array_used: "watch_inv fds \<Longrightarrow> poll_array fds = map slot_fd (used_slots fds)"
  by (simp add: poll_array_def used_slots_def watch_inv_def)

lemma dom_watched: "dom (watched fds) = slot_fd ` set (used_slots fds)"
  by (simp add: watched_def dom_map_of_conv_image_fst image_image)

lemma card_watched: "watch_inv fds \<Longrightarrow> card (dom (watched fds)) = length (used_slots fds)"
  by (metis dom_watched distinct_card length_map list.set_map watch_inv_def)

text \<open>The table split at the end of its used prefix: the next slot is marked free, the rest is
  arbitrary.\<close>

lemma used_slots_split:
  assumes "watch_inv fds"
  obtains "length (used_slots fds) = MAX_WATCHED_FDS" "fds = used_slots fds"
  | e rest where "fds = used_slots fds @ e # rest" "slot_fd e = -1"
proof (cases "dropWhile (\<lambda>s. slot_fd s \<noteq> -1) fds")
  case Nil
  then have "fds = used_slots fds"
    by (metis append_Nil2 takeWhile_dropWhile_id used_slots_def)
  with assms that(1) show ?thesis
    by (simp add: watch_inv_def)
next
  case (Cons e rest)
  then have "slot_fd e = -1"
    using hd_dropWhile [of "\<lambda>s. slot_fd s \<noteq> -1" fds] by simp
  moreover have "fds = used_slots fds @ e # rest"
    using Cons by (metis takeWhile_dropWhile_id used_slots_def)
  ultimately show ?thesis
    using that(2) by blast
qed

lemma used_slots_append:
  "(\<forall>s \<in> set us. 0 \<le> slot_fd s) \<Longrightarrow> used_slots (us @ e # rest) =
    (if slot_fd e = -1 then us else us @ e # used_slots rest)"
  by (induction us) (auto simp: used_slots_def)

section \<open>The two scans\<close>

lemma find_slot_eq:
  "length fds = MAX_WATCHED_FDS \<Longrightarrow> idx \<le> MAX_WATCHED_FDS \<Longrightarrow>
    find_slot fds fd idx =
      idx + length (takeWhile (\<lambda>s. slot_fd s \<noteq> -1 \<and> slot_fd s \<noteq> fd) (drop idx fds))"
proof (induction fds fd idx rule: find_slot.induct)
  case (1 fds fd idx)
  show ?case
  proof (cases "idx < MAX_WATCHED_FDS")
    case True
    with 1 have "drop idx fds = fds ! idx # drop (idx + 1) fds"
      by (simp add: Cons_nth_drop_Suc)
    with 1 True show ?thesis
      by (subst find_slot.simps) auto
  qed (use 1 in \<open>subst find_slot.simps, simp\<close>)
qed

lemma find_slot_stop:
  assumes "length fds = MAX_WATCHED_FDS" and "fds = xs @ e # ys"
    and "\<forall>s \<in> set xs. slot_fd s \<noteq> -1 \<and> slot_fd s \<noteq> fd" and "slot_fd e = -1 \<or> slot_fd e = fd"
  shows "find_slot fds fd 0 = length xs"
  using assms by (auto simp: find_slot_eq takeWhile_append)

lemma last_slot_eq:
  "length fds = MAX_WATCHED_FDS \<Longrightarrow> i < MAX_WATCHED_FDS \<Longrightarrow>
    last_slot fds i = i + length (takeWhile (\<lambda>s. slot_fd s \<noteq> -1) (drop (i + 1) fds))"
proof (induction fds i rule: last_slot.induct)
  case (1 fds i)
  show ?case
  proof (cases "i + 1 < MAX_WATCHED_FDS")
    case True
    with 1 have "drop (i + 1) fds = fds ! (i + 1) # drop (i + 2) fds"
      by (simp add: Cons_nth_drop_Suc)
    with 1 True show ?thesis
      by (subst last_slot.simps) auto
  qed (use 1 in \<open>subst last_slot.simps, simp\<close>)
qed

lemma last_slot_used:
  assumes "length fds = MAX_WATCHED_FDS" and "i < length (used_slots fds)"
  shows "last_slot fds i = length (used_slots fds) - 1"
proof -
  have "length (used_slots fds) \<le> length fds"
    by (simp add: used_slots_def length_takeWhile_le)
  moreover have "takeWhile (\<lambda>s. slot_fd s \<noteq> -1) (drop (i + 1) fds) = drop (i + 1) (used_slots fds)"
    using assms(2) unfolding used_slots_def
  proof (induction fds arbitrary: i)
    case (Cons s fds)
    then show ?case
      by (cases i) (auto split: if_splits)
  qed simp
  ultimately show ?thesis
    using assms by (simp add: last_slot_eq)
qed

text \<open>Where the scan for a descriptor stops: at its slot, at the free slot, or past the end.\<close>

lemma find_slot_absent:
  assumes inv: "watch_inv fds" and "fd \<notin> dom (watched fds)"
  shows "find_slot fds fd 0 = length (used_slots fds)"
proof -
  have "takeWhile (\<lambda>s. slot_fd s \<noteq> -1 \<and> slot_fd s \<noteq> fd) fds = used_slots fds"
    using assms(2) unfolding dom_watched unfolding used_slots_def
    by (induction fds) auto
  with inv show ?thesis
    by (simp add: find_slot_eq watch_inv_def)
qed

lemma find_slot_present:
  assumes inv: "watch_inv fds" and "fd \<in> dom (watched fds)"
  obtains xs cb ys where "used_slots fds = xs @ \<lparr>slot_fd = fd, slot_cb = cb\<rparr> # ys"
    and "find_slot fds fd 0 = length xs"
proof -
  obtain e where e: "e \<in> set (used_slots fds)" "slot_fd e = fd"
    using assms(2) by (auto simp: dom_watched)
  obtain xs ys where us: "used_slots fds = xs @ e # ys"
    using split_list [OF e(1)] by blast
  have "\<forall>s \<in> set xs. slot_fd s \<noteq> -1 \<and> slot_fd s \<noteq> fd"
  proof
    fix s assume s: "s \<in> set xs"
    have "0 \<le> slot_fd s"
      using inv s by (simp add: watch_inv_def us)
    moreover have "fd \<notin> slot_fd ` set xs"
      using inv e(2) by (auto simp: watch_inv_def us)
    ultimately show "slot_fd s \<noteq> -1 \<and> slot_fd s \<noteq> fd"
      using s by auto
  qed
  moreover obtain rest where "fds = used_slots fds @ rest"
    by (metis takeWhile_dropWhile_id used_slots_def)
  then have "fds = xs @ e # (ys @ rest)"
    using us by simp
  ultimately have "find_slot fds fd 0 = length xs"
    using inv e(2) by (intro find_slot_stop) (auto simp: watch_inv_def)
  moreover have "e = \<lparr>slot_fd = fd, slot_cb = slot_cb e\<rparr>"
    using e(2) by simp
  ultimately show thesis
    using that us by metis
qed

section \<open>The interface of a descriptor registry\<close>

text \<open>What the users of the table rely on: a registration succeeds exactly when the descriptor is
  valid, new and there is room; a deregistration exactly when it is registered; failing leaves
  the registrations alone.\<close>

locale fd_registry =
  fixes watch :: "int \<Rightarrow> 'cb option \<Rightarrow> 't \<Rightarrow> bool \<times> 't"
    and unwatch :: "int \<Rightarrow> 't \<Rightarrow> bool \<times> 't"
    and lookup :: "'t \<Rightarrow> int \<rightharpoonup> 'cb option"
    and ok :: "'t \<Rightarrow> bool"
    and cap :: nat
  assumes watch_ok: "ok t \<Longrightarrow> ok (snd (watch fd cb t))"
    and watch_result: "ok t \<Longrightarrow>
      fst (watch fd cb t) \<longleftrightarrow> 0 \<le> fd \<and> fd \<notin> dom (lookup t) \<and> card (dom (lookup t)) < cap"
    and watch_lookup: "ok t \<Longrightarrow> lookup (snd (watch fd cb t)) =
      (if fst (watch fd cb t) then (lookup t)(fd \<mapsto> cb) else lookup t)"
    and unwatch_ok: "ok t \<Longrightarrow> ok (snd (unwatch fd t))"
    and unwatch_result: "ok t \<Longrightarrow> fst (unwatch fd t) \<longleftrightarrow> fd \<in> dom (lookup t)"
    and unwatch_lookup: "ok t \<Longrightarrow> lookup (snd (unwatch fd t)) = (lookup t)(fd := None)"
    and finite_lookup: "ok t \<Longrightarrow> finite (dom (lookup t))"
    and lookup_nonneg: "ok t \<Longrightarrow> fd \<in> dom (lookup t) \<Longrightarrow> 0 \<le> fd"
begin

lemma watch_twice: "ok t \<Longrightarrow> fst (watch fd cb t) \<Longrightarrow> \<not> fst (watch fd cb' (snd (watch fd cb t)))"
  by (simp add: watch_result [OF watch_ok] watch_lookup)

lemma unwatch_watched: "ok t \<Longrightarrow> fst (watch fd cb t) \<Longrightarrow> fst (unwatch fd (snd (watch fd cb t)))"
  by (simp add: unwatch_result [OF watch_ok] watch_lookup)

lemma unwatch_watch_lookup:
  "ok t \<Longrightarrow> fst (watch fd cb t) \<Longrightarrow> lookup (snd (unwatch fd (snd (watch fd cb t)))) = lookup t"
  by (auto simp: unwatch_lookup [OF watch_ok] watch_lookup watch_result fun_upd_idem_iff domIff)

text \<open>A descriptor that is not registered can always be registered after any deregistration that
  succeeded: the slot is reused.\<close>

lemma watch_after_unwatch:
  "ok t \<Longrightarrow> fst (unwatch fd t) \<Longrightarrow> card (dom (lookup t)) \<le> cap \<Longrightarrow>
    fst (watch fd cb (snd (unwatch fd t)))"
  using finite_lookup [of t] lookup_nonneg [of t fd] card_Diff1_less [of "dom (lookup t)" fd]
  by (simp add: watch_result [OF unwatch_ok] unwatch_lookup unwatch_result)

end

lemma map_of_remove: "map_of (filter (\<lambda>p. fst p \<noteq> k) ps) = (map_of ps)(k := None)"
  by (induction ps) auto

definition mark_free :: "'cb slot list \<Rightarrow> 'cb slot list" where
  "mark_free rest = (case rest of [] \<Rightarrow> [] | x # xs \<Rightarrow> x\<lparr>slot_fd := -1\<rparr> # xs)"

lemma watch_at_free:
  assumes "length (us @ e # rest) = MAX_WATCHED_FDS"
    and "find_slot (us @ e # rest) fd 0 = length us" and "slot_fd e = -1" and "0 \<le> fd"
  shows "watch_fd_for_input fd cb (us @ e # rest) =
    (True, us @ \<lparr>slot_fd = fd, slot_cb = cb\<rparr> # mark_free rest)"
proof (cases rest)
  case Nil
  then show ?thesis
    using assms by (simp add: watch_fd_for_input_def Let_def mark_free_def)
next
  case (Cons x xs)
  then have "length us + 1 < MAX_WATCHED_FDS" "length us \<noteq> MAX_WATCHED_FDS"
    using assms(1) by simp_all
  then show ?thesis
    using assms Cons
    by (simp add: watch_fd_for_input_def Let_def mark_free_def list_update_append nth_append)
qed

lemma used_slots_new:
  "(\<forall>s \<in> set us. 0 \<le> slot_fd s) \<Longrightarrow> 0 \<le> slot_fd e \<Longrightarrow> used_slots (us @ e # mark_free rest) = us @ [e]"
  by (simp add: used_slots_append) (simp add: mark_free_def used_slots_def split: list.split)

lemma length_mark_free [simp]: "length (mark_free rest) = length rest"
  by (simp add: mark_free_def split: list.split)

lemma watch_new:
  assumes inv: "watch_inv fds" and new: "0 \<le> fd" "fd \<notin> dom (watched fds)"
    and room: "length (used_slots fds) < MAX_WATCHED_FDS"
  shows "\<exists>fds'. watch_fd_for_input fd cb fds = (True, fds') \<and> watch_inv fds'
    \<and> used_slots fds' = used_slots fds @ [\<lparr>slot_fd = fd, slot_cb = cb\<rparr>]"
proof (rule used_slots_split [OF inv])
  fix e rest assume split: "fds = used_slots fds @ e # rest" "slot_fd e = -1"
  define us where "us = used_slots fds"
  have fds: "fds = us @ e # rest"
    using split(1) by (simp add: us_def)
  have us: "\<forall>s \<in> set us. 0 \<le> slot_fd s" "distinct (map slot_fd us)" "fd \<notin> slot_fd ` set us"
    using inv new(2) by (simp_all add: us_def watch_inv_def dom_watched)
  have len: "length (us @ e # rest) = MAX_WATCHED_FDS"
    using inv fds by (simp add: watch_inv_def)
  have "watch_fd_for_input fd cb fds = (True, us @ \<lparr>slot_fd = fd, slot_cb = cb\<rparr> # mark_free rest)"
    using find_slot_absent [OF inv new(2)] unfolding fds
    by (intro watch_at_free len) (simp_all add: split(2) new(1) used_slots_append us)
  then show ?thesis
    using us len new(1) by (simp add: watch_inv_def used_slots_new flip: us_def)
qed (use room in simp)

lemma watch_refused:
  assumes inv: "watch_inv fds"
    and "fd < 0 \<or> fd \<in> dom (watched fds) \<or> length (used_slots fds) = MAX_WATCHED_FDS"
  shows "watch_fd_for_input fd cb fds = (False, fds)"
proof -
  consider "fd < 0" | (present) "0 \<le> fd" "fd \<in> dom (watched fds)"
    | (full) "0 \<le> fd" "fd \<notin> dom (watched fds)" "length (used_slots fds) = MAX_WATCHED_FDS"
    using assms(2) by linarith
  then show ?thesis
  proof cases
    case present
    obtain xs c ys where us: "used_slots fds = xs @ \<lparr>slot_fd = fd, slot_cb = c\<rparr> # ys"
        "find_slot fds fd 0 = length xs"
      using find_slot_present [OF inv present(2)] by metis
    obtain rest where "fds = used_slots fds @ rest"
      by (metis takeWhile_dropWhile_id used_slots_def)
    then have "slot_fd (fds ! length xs) = fd"
      using us(1) by (metis append.assoc append_Cons nth_append_length select_convs(1))
    with us present show ?thesis
      by (simp add: watch_fd_for_input_def)
  next
    case full
    then show ?thesis
      using find_slot_absent [OF inv full(2)] by (simp add: watch_fd_for_input_def)
  qed (simp add: watch_fd_for_input_def)
qed

section \<open>Deregistration\<close>

lemma unwatch_at:
  assumes len: "length fds = MAX_WATCHED_FDS" and fds: "fds = xs @ e # ys @ rest"
    and used: "used_slots fds = xs @ e # ys"
    and find: "find_slot fds fd 0 = length xs" and fd: "slot_fd e \<noteq> -1" "0 \<le> fd"
  shows "unwatch_fd_for_input fd fds = (True,
    (if ys = [] then xs else xs @ last ys # butlast ys) @ \<lparr>slot_fd = -1, slot_cb = None\<rparr> # rest)"
proof -
  have idx: "length xs < MAX_WATCHED_FDS" "fds ! length xs = e"
    using len by (simp_all add: fds)
  have last: "last_slot fds (length xs) = length xs + length ys"
    using last_slot_used [of fds "length xs"] len used by simp
  show ?thesis
  proof (cases ys rule: rev_cases)
    case Nil
    with last idx find fd show ?thesis
      by (simp add: unwatch_fd_for_input_def) (simp add: fds list_update_append)
  next
    case (snoc zs l)
    have "fds ! (length xs + length ys) = l"
      by (simp add: fds snoc nth_append)
    moreover have "fds[length xs := l] = (xs @ l # zs) @ l # rest"
      by (simp add: fds snoc)
    moreover have "length xs + length ys = length (xs @ l # zs)"
      by (simp add: snoc)
    ultimately show ?thesis
      using last idx find fd
      using list_update_length [of "xs @ l # zs" l rest]
      by (simp add: unwatch_fd_for_input_def Let_def snoc)
  qed
qed

lemma unwatch_present:
  assumes inv: "watch_inv fds" and fd: "fd \<in> dom (watched fds)"
  shows "\<exists>fds'. unwatch_fd_for_input fd fds = (True, fds') \<and> watch_inv fds'
    \<and> watched fds' = (watched fds)(fd := None)"
proof -
  obtain xs c ys where us: "used_slots fds = xs @ \<lparr>slot_fd = fd, slot_cb = c\<rparr> # ys"
      "find_slot fds fd 0 = length xs"
    using find_slot_present [OF inv fd] by metis
  obtain rest where "fds = used_slots fds @ rest"
    by (metis takeWhile_dropWhile_id used_slots_def)
  then have fds: "fds = xs @ \<lparr>slot_fd = fd, slot_cb = c\<rparr> # ys @ rest"
    using us(1) by simp
  have len: "length fds = MAX_WATCHED_FDS"
    and nonneg: "\<forall>s \<in> set (xs @ ys). 0 \<le> slot_fd s" "0 \<le> fd"
    and dist: "distinct (map slot_fd (xs @ ys))" "fd \<notin> slot_fd ` set (xs @ ys)"
    using inv by (auto simp: watch_inv_def us(1))
  define us' where "us' = (if ys = [] then xs else xs @ last ys # butlast ys)"
  have m: "mset us' = mset (xs @ ys)"
    by (cases ys rule: rev_cases) (simp_all add: us'_def)
  then have us': "set us' = set (xs @ ys)" "distinct (map slot_fd us')" "length us' = length (xs @ ys)"
    using mset_eq_setD [OF m] mset_eq_length [OF m] dist(1)
      mset_eq_imp_distinct_iff [of "map slot_fd us'" "map slot_fd (xs @ ys)"]
    by (simp_all only: mset_map m)
  define fds' where "fds' = us' @ \<lparr>slot_fd = -1, slot_cb = None\<rparr> # rest"
  have run: "unwatch_fd_for_input fd fds = (True, fds')"
    unfolding fds'_def us'_def using us fds len nonneg by (intro unwatch_at) auto
  have used: "used_slots fds' = us'"
    using nonneg us'(1) by (simp add: fds'_def used_slots_append)
  have "watch_inv fds'"
    using len us' nonneg unfolding fds by (simp add: watch_inv_def used) (simp add: fds'_def)
  moreover have "watched fds' = (watched fds)(fd := None)"
  proof -
    let ?kv = "\<lambda>s. (slot_fd s, slot_cb s)"
    have "watched fds' = map_of (map ?kv (xs @ ys))"
      using us'(1,2) dist(1) unfolding watched_def used
      by (subst map_of_inject_set) (simp_all add: comp_def image_Un)
    moreover have "map ?kv (xs @ ys) = filter (\<lambda>p. fst p \<noteq> fd) (map ?kv (used_slots fds))"
    proof -
      have "filter (\<lambda>s. slot_fd s \<noteq> fd) xs = xs" "filter (\<lambda>s. slot_fd s \<noteq> fd) ys = ys"
        using dist(2) by (auto simp: filter_id_conv image_iff)
      then show ?thesis
        by (simp add: us(1) filter_map comp_def)
    qed
    ultimately show ?thesis
      by (simp only: map_of_remove watched_def)
  qed
  ultimately show ?thesis
    using run by blast
qed

lemma unwatch_refused:
  assumes inv: "watch_inv fds" and "fd \<notin> dom (watched fds)"
  shows "unwatch_fd_for_input fd fds = (False, fds)"
proof (rule used_slots_split [OF inv])
  fix e rest assume "fds = used_slots fds @ e # rest" "slot_fd e = -1"
  then have "slot_fd (fds ! length (used_slots fds)) = -1"
    by (metis nth_append_length)
  then show ?thesis
    using find_slot_absent [OF assms] by (simp add: unwatch_fd_for_input_def Let_def)
qed (use find_slot_absent [OF assms] in \<open>simp add: unwatch_fd_for_input_def\<close>)

lemma watched_new:
  assumes "watch_inv fds" "fd \<notin> dom (watched fds)"
    and "used_slots fds' = used_slots fds @ [\<lparr>slot_fd = fd, slot_cb = cb\<rparr>]"
  shows "watched fds' = (watched fds)(fd \<mapsto> cb)"
  using assms by (auto simp: watched_def map_add_def fun_eq_iff split: option.split)

lemma used_le_max: "watch_inv fds \<Longrightarrow> length (used_slots fds) \<le> MAX_WATCHED_FDS"
  by (metis length_takeWhile_le used_slots_def watch_inv_def)

interpretation fds: fd_registry watch_fd_for_input unwatch_fd_for_input watched watch_inv MAX_WATCHED_FDS
proof
  fix t :: "'cb slot list" and fd :: int and cb
  assume inv: "watch_inv t"
  note card = card_watched [OF inv]
  have ok: "watch_inv (snd (watch_fd_for_input fd cb t)) \<and>
      (fst (watch_fd_for_input fd cb t) \<longleftrightarrow>
        0 \<le> fd \<and> fd \<notin> dom (watched t) \<and> length (used_slots t) < MAX_WATCHED_FDS) \<and>
      watched (snd (watch_fd_for_input fd cb t)) =
        (if fst (watch_fd_for_input fd cb t) then (watched t)(fd \<mapsto> cb) else watched t)"
  proof (cases "0 \<le> fd \<and> fd \<notin> dom (watched t) \<and> length (used_slots t) < MAX_WATCHED_FDS")
    case True
    then obtain t' where "watch_fd_for_input fd cb t = (True, t')" "watch_inv t'"
        "used_slots t' = used_slots t @ [\<lparr>slot_fd = fd, slot_cb = cb\<rparr>]"
      using watch_new [OF inv] by metis
    with True watched_new [OF inv] show ?thesis
      by simp
  next
    case False
    then have "watch_fd_for_input fd cb t = (False, t)"
      using used_le_max [OF inv] by (intro watch_refused inv) auto
    with False inv show ?thesis
      by simp
  qed
  show "watch_inv (snd (watch_fd_for_input fd cb t))"
    using ok by blast
  show "fst (watch_fd_for_input fd cb t) \<longleftrightarrow>
      0 \<le> fd \<and> fd \<notin> dom (watched t) \<and> card (dom (watched t)) < MAX_WATCHED_FDS"
    using ok card by simp
  show "watched (snd (watch_fd_for_input fd cb t)) =
      (if fst (watch_fd_for_input fd cb t) then (watched t)(fd \<mapsto> cb) else watched t)"
    using ok by blast
  have un: "watch_inv (snd (unwatch_fd_for_input fd t)) \<and>
      (fst (unwatch_fd_for_input fd t) \<longleftrightarrow> fd \<in> dom (watched t)) \<and>
      watched (snd (unwatch_fd_for_input fd t)) = (watched t)(fd := None)"
    using unwatch_present [OF inv, of fd] unwatch_refused [OF inv, of fd] inv
    by (cases "fd \<in> dom (watched t)") (auto simp: domIff)
  then show "watch_inv (snd (unwatch_fd_for_input fd t))"
    and "fst (unwatch_fd_for_input fd t) \<longleftrightarrow> fd \<in> dom (watched t)"
    and "watched (snd (unwatch_fd_for_input fd t)) = (watched t)(fd := None)"
    by blast+
  show "finite (dom (watched t))"
    by (simp add: dom_watched)
  show "0 \<le> fd" if "fd \<in> dom (watched t)"
    using inv that by (auto simp: dom_watched watch_inv_def)
qed

section \<open>Properties\<close>

text \<open>A history of calls, on the table and on the abstract registrations.\<close>

datatype 'cb fd_call = Watch int "'cb option" | Unwatch int

fun run_calls :: "'cb fd_call list \<Rightarrow> 'cb slot list \<Rightarrow> bool list \<times> 'cb slot list" where
  "run_calls [] fds = ([], fds)"
| "run_calls (Watch fd cb # cs) fds =
     (let (r, fds) = watch_fd_for_input fd cb fds; (rs, fds) = run_calls cs fds in (r # rs, fds))"
| "run_calls (Unwatch fd # cs) fds =
     (let (r, fds) = unwatch_fd_for_input fd fds; (rs, fds) = run_calls cs fds in (r # rs, fds))"

fun run_spec :: "'cb fd_call list \<Rightarrow> (int \<rightharpoonup> 'cb option) \<Rightarrow> bool list \<times> (int \<rightharpoonup> 'cb option)" where
  "run_spec [] m = ([], m)"
| "run_spec (Watch fd cb # cs) m =
     (let r = (0 \<le> fd \<and> fd \<notin> dom m \<and> card (dom m) < 8);
          (rs, m) = run_spec cs (if r then m(fd \<mapsto> cb) else m) in (r # rs, m))"
| "run_spec (Unwatch fd # cs) m =
     (let r = (fd \<in> dom m); (rs, m) = run_spec cs (m(fd := None)) in (r # rs, m))"

lemma run_calls_spec:
  "watch_inv fds \<Longrightarrow> watch_inv (snd (run_calls cs fds))
    \<and> run_spec cs (watched fds) = (fst (run_calls cs fds), watched (snd (run_calls cs fds)))"
proof (induction cs fds rule: run_calls.induct)
  case (2 fd cb cs fds)
  obtain r fds' where w: "watch_fd_for_input fd cb fds = (r, fds')"
    by fastforce
  then have "watch_inv fds'"
      "watched fds' = (if r then (watched fds)(fd \<mapsto> cb) else watched fds)"
      "r \<longleftrightarrow> 0 \<le> fd \<and> fd \<notin> dom (watched fds) \<and> card (dom (watched fds)) < 8"
    using 2 fds.watch_ok [of fds fd cb] fds.watch_lookup [of fds fd cb]
      fds.watch_result [of fds fd cb]
    by (simp_all add: MAX_WATCHED_FDS_def)
  with 2(1) [OF w [symmetric] refl] show ?case
    by (simp add: w split_beta Let_def)
next
  case (3 fd cs fds)
  obtain r fds' where w: "unwatch_fd_for_input fd fds = (r, fds')"
    by fastforce
  then have inv: "watch_inv fds'" "watched fds' = (watched fds)(fd := None)"
    and r: "r \<longleftrightarrow> fd \<in> dom (watched fds)"
    using 3 fds.unwatch_ok [of fds fd] fds.unwatch_lookup [of fds fd]
      fds.unwatch_result [of fds fd]
    by simp_all
  from 3(1) [OF w [symmetric] refl inv(1)] inv
  have "watch_inv (snd (run_calls cs fds'))" "run_spec cs ((watched fds)(fd := None)) =
      (fst (run_calls cs fds'), watched (snd (run_calls cs fds')))"
    by (simp_all only:)
  with r show ?case
    by (simp add: w split_beta Let_def del: fun_upd_apply)
qed simp

text \<open>C15: Every history of \<open>watch_fd_for_input\<close> and \<open>unwatch_fd_for_input\<close> calls, starting from
  the table as it is initialised, returns what a finite map with at most eight keys would return
  and leaves the table in a consistent state whose abstraction is that map.\<close>

theorem watch_table_refines_map:
  "run_spec cs Map.empty = (fst (run_calls cs initial_fds), watched (snd (run_calls cs initial_fds)))
    \<and> watch_inv (snd (run_calls cs initial_fds))"
  using run_calls_spec [of initial_fds cs] by simp

definition ready_callbacks :: "(nat \<Rightarrow> bool) \<Rightarrow> 'cb slot list \<Rightarrow> 'cb list" where
  "ready_callbacks ready fds =
     concat (map (\<lambda>i. if ready i then case slot_cb (fds ! i) of None \<Rightarrow> [] | Some cb \<Rightarrow> [cb] else [])
       [0 ..< length (used_slots fds)])"

lemma dispatch_ready_fold:
  assumes "\<And>cb st. fst (call cb st) = fst st" and "fst st = fds"
  shows "dispatch_ready call ready is st = fold call
    (concat (map (\<lambda>i. if ready i then case slot_cb (fds ! i) of None \<Rightarrow> [] | Some cb \<Rightarrow> [cb] else []) is))
    st"
  using assms(2) by (induction "is" arbitrary: st) (simp_all add: assms(1) split: bool.split option.split)

text \<open>When callbacks leave the table alone (as both callbacks of the program do),
  \<open>platform_enter_low_power_ll\<close> runs, in table order and once each, exactly the callbacks of
  the registered descriptors that \<open>poll\<close> reported ready, and polls exactly the registered
  descriptors.\<close>

lemma poll_dispatches_ready:
  assumes "watch_inv fds" and "\<And>cb st. fst (call cb st) = fst st"
    and "0 < ret" and "used_slots fds \<noteq> []"
  shows "platform_enter_low_power_ll call ret ready (fds, s) =
      (Poll_returned, fold call (ready_callbacks ready fds) (fds, s))
    \<and> set (poll_array fds) = dom (watched fds) \<and> distinct (poll_array fds)"
proof -
  have "slot_fd (fds ! 0) \<noteq> -1"
    using assms(1,4) by (cases fds) (auto simp: used_slots_def split: if_splits)
  then show ?thesis
    using assms
    by (simp add: platform_enter_low_power_ll_def Let_def dispatch_ready_fold [of call _ fds] ready_callbacks_def
        poll_array_used dom_watched watch_inv_def)
qed

definition two_watched :: "nat slot list" where
  "two_watched = snd (run_calls [Watch 7 (Some 1), Watch 4 None, Watch 9 (Some 2)] initial_fds)"

lemma poll_dispatches_ready_witness:
  "platform_enter_low_power_ll (\<lambda>cb (t, log). (t, log @ [cb])) 2 (\<lambda>i. i \<noteq> 0) (two_watched, []) =
      (Poll_returned, fold (\<lambda>cb (t, log). (t, log @ [cb]))
        (ready_callbacks (\<lambda>i. i \<noteq> 0) two_watched) (two_watched, []))
    \<and> set (poll_array two_watched) = dom (watched two_watched) \<and> distinct (poll_array two_watched)"
proof (rule poll_dispatches_ready)
  show "watch_inv two_watched"
    unfolding two_watched_def by (simp only: run_calls_spec watch_inv_initial)
  let ?cs = "[Watch 7 (Some 1), Watch 4 None, Watch 9 (Some 2)] :: nat fd_call list"
  have "run_spec ?cs Map.empty = (fst (run_calls ?cs initial_fds), watched two_watched)"
    using run_calls_spec [of initial_fds ?cs]
    by (simp only: watched_initial watch_inv_initial two_watched_def simp_thms)
  then have "watched two_watched = snd (run_spec ?cs Map.empty)"
    by (simp only: snd_conv)
  then have "7 \<in> dom (watched two_watched)"
    by (simp add: Let_def split_beta)
  then show "used_slots two_watched \<noteq> []"
    by (auto simp: dom_watched)
qed auto

end
