(* ===== verification/Schc_Al.thy ===== *)
theory Schc_Al
  imports Net_Udp Oscore_Proxy Platform_Fds
begin

text \<open>
  The SCHC adaptation layer, \<open>applications/schc_worker_linux/src/schc_al.c\<close>, with the TUN device
  of \<open>libs/net/src/tun.c\<close>: packets read from the TUN interface are checked, converted to OSCORE in
  place and handed to the SCHC stack; packets from the stack go the other way.

  The state holds the module's static variables, the state of the OSCORE proxy, the watched
  descriptors, and what the module did to the outside: the packets passed to \<open>net_sendto\<close>, those
  written to the TUN device, the shell commands run and the descriptors closed. The build
  options of \<open>schc_al_params.h\<close> are a configuration record.

  Parameters: the results of system calls, the SDK's \<open>net_sendto\<close> (its status, and the
  transmission results it reports before it returns), and the OSCORE conversions.
\<close>

section \<open>The TUN device (tun.c)\<close>

definition IFNAMSIZ :: nat where
  "IFNAMSIZ = 16"

text \<open>\<open>strncpy\<close> into a zeroed array of which the last byte is kept zero.\<close>

definition strncpy :: "nat \<Rightarrow> string \<Rightarrow> string" where
  "strncpy n s = take n (takeWhile (\<lambda>c. c \<noteq> CHR 0x00) s)"

text \<open>\<open>open\<close> returned \<open>fd\<close>; \<open>ioctl\<close> maps the requested name to the name of the interface, or
  fails. The result is the descriptor, the actual name and the descriptors closed.\<close>

definition create_tun ::
    "int \<Rightarrow> (string \<Rightarrow> string option) \<Rightarrow> string option \<Rightarrow> string \<Rightarrow> nat \<Rightarrow> int \<times> string \<times> int list" where
  "create_tun fd ioctl requested_name actual_name actual_name_len =
     (if fd < 0 then (-1, actual_name, [])
      else let ifr_name =
          (case requested_name of
             Some r \<Rightarrow> if r \<noteq> [] then strncpy (IFNAMSIZ - 1) r else []
           | None \<Rightarrow> [])
        in case ioctl ifr_name of
            None \<Rightarrow> (-1, actual_name, [fd])
          | Some ifr_name \<Rightarrow>
              (fd, if actual_name_len > 0 then strncpy (actual_name_len - 1) ifr_name else actual_name, []))"

section \<open>State\<close>

record al_config =
  oscore_proxy_enabled :: bool
  drop_non_coap :: bool
  oscore_drop_on_error :: bool
  schc_peer_mode :: bool
  TUN_NAME :: string
  tun_ipv6 :: string
  oscore_master_secret :: memory
  oscore_master_salt :: memory

definition CONNECTIVITY_AVAILABLE_EVENT :: u32 where "CONNECTIVITY_AVAILABLE_EVENT = flag_bit 0"
definition IP_PACKET_AVAILABLE :: u32 where "IP_PACKET_AVAILABLE = flag_bit 1"
definition ONGOING_TRANSMISSION :: u32 where "ONGOING_TRANSMISSION = flag_bit 2"

lemmas al_flags = CONNECTIVITY_AVAILABLE_EVENT_def IP_PACKET_AVAILABLE_def ONGOING_TRANSMISSION_def

definition IPv6_MAX_PACKET_SIZE :: nat where
  "IPv6_MAX_PACKET_SIZE = 256"

record 'ctx al =
  processing_required :: bool
  event :: u32
  tun_fd :: int
  tun_name :: string
  net_buffer :: memory
  proxy :: "'ctx proxy"
  fds :: "fd_callback slot list"
  sent :: "memory list"
  written :: "memory list"
  commands :: "string list"
  closed :: "int list"

definition NO_EVENT :: u32 where
  "NO_EVENT = 0"

datatype schc_al_process_status =
  SEND_DOWN_OK | SEND_DOWN_BUSY | SEND_DOWN_OSCORE_ERROR | SEND_DOWN_INTERNAL_ERROR

datatype net_status = NET_SUCCESS | NET_RULES_NOT_FOUND_ERR | Net_other_error nat

section \<open>Initialisation and termination\<close>

text \<open>\<open>system\<close> is a predicate: which commands succeed.\<close>

definition run_cmd :: "(string \<Rightarrow> bool) \<Rightarrow> string \<Rightarrow> 'ctx al \<Rightarrow> int \<times> 'ctx al" where
  "run_cmd system cmd al =
     (let al = al\<lparr>commands := commands al @ [cmd]\<rparr> in if \<not> system cmd then (-1, al) else (0, al))"

definition schc_al_tun_received_handler :: "'ctx al \<Rightarrow> 'ctx al" where
  "schc_al_tun_received_handler al =
     al\<lparr>event := raise_flag (event al) IP_PACKET_AVAILABLE, processing_required := True\<rparr>"

text \<open>\<open>close(tun_fd); tun_fd = -1;\<close>\<close>

definition close_tun :: "'ctx al \<Rightarrow> 'ctx al" where
  "close_tun al = al\<lparr>closed := closed al @ [tun_fd al], tun_fd := -1\<rparr>"

definition snprintf128 :: "string \<Rightarrow> string" where
  "snprintf128 s = take 127 s"

definition schc_al_init ::
    "al_config \<Rightarrow> (init_params \<Rightarrow> err \<times> 'ctx) \<Rightarrow> int \<Rightarrow> (string \<Rightarrow> string option) \<Rightarrow> (string \<Rightarrow> bool) \<Rightarrow>
     'ctx al \<Rightarrow> (int \<times> 'ctx al) ub" where
  "schc_al_init cfg oscore_context_init tun_open ioctl system al =
     do {
       let al = al\<lparr>event := NO_EVENT, processing_required := False\<rparr>;
       (ok, px) \<leftarrow>
         (if oscore_proxy_enabled cfg then
            oscore_security_context_init (schc_peer_mode cfg) oscore_context_init
              (oscore_master_secret cfg) 16 (oscore_master_salt cfg) 16 (proxy al)
          else Some (True, proxy al));
       let al = al\<lparr>proxy := px\<rparr>;
       if \<not> ok then Some (-1, al)
       else if tun_fd al \<ge> 0 then Some (0, al)
       else
         let (fd, name, cl) = create_tun tun_open ioctl (Some (TUN_NAME cfg)) (tun_name al) IFNAMSIZ;
             al = al\<lparr>tun_fd := fd, tun_name := name, closed := closed al @ cl\<rparr>
         in if tun_fd al < 0 then Some (-1, al)
         else let (rc, al) = run_cmd system (snprintf128 (''ip link set dev '' @ tun_name al @ '' up'')) al
         in if rc \<noteq> 0 then Some (-1, close_tun al)
         else let (rc, al) = run_cmd system
             (snprintf128 (''ip -6 addr add '' @ tun_ipv6 cfg @ '' dev '' @ tun_name al)) al
         in if rc \<noteq> 0 then Some (-1, close_tun al)
         else let (rc, al) = run_cmd system
             (snprintf128 (''ip -6 route replace default dev '' @ tun_name al)) al
         in if rc \<noteq> 0 then Some (-1, close_tun al)
         else let (r, t) = watch_fd_for_input (tun_fd al) (Some Tun_received) (fds al);
                  al = al\<lparr>fds := t\<rparr>
         in if \<not> r then Some (-1, close_tun al)
         else Some (0, al\<lparr>event := raise_flag (event al) CONNECTIVITY_AVAILABLE_EVENT,
                          processing_required := True\<rparr>)
     }"

definition schc_al_is_processing_required :: "'ctx al \<Rightarrow> bool" where
  "schc_al_is_processing_required al = processing_required al"

definition schc_al_terminate :: "'ctx al \<Rightarrow> int \<times> 'ctx al" where
  "schc_al_terminate al =
     (let al = (if tun_fd al \<ge> 0
                then close_tun (al\<lparr>fds := snd (unwatch_fd_for_input (tun_fd al) (fds al))\<rparr>) else al)
      in (0, al\<lparr>event := NO_EVENT, processing_required := False\<rparr>))"

section \<open>Sending down\<close>

datatype read_result = Read memory | Read_error errno

text \<open>The \<open>do ... while\<close> loop around \<open>read\<close>: the results of the attempts are given in order; None
  when they are used up while the loop still retries.\<close>

fun read_tun :: "read_result list \<Rightarrow> read_result option" where
  "read_tun [] = None"
| "read_tun (r # rs) = (if r = Read_error EINTR then read_tun rs else Some r)"

text \<open>The transmission result callback of the module.\<close>

definition net_transmission_result :: "net_status \<Rightarrow> u16 \<Rightarrow> 'ctx al \<Rightarrow> 'ctx al" where
  "net_transmission_result status error al = al\<lparr>event := clear_flag (event al) ONGOING_TRANSMISSION\<rparr>"

text \<open>\<open>net_sendto\<close> of the SDK: it reads the packet, may report results at once, and returns a status.\<close>

type_synonym net_sendto = "memory \<Rightarrow> net_status \<times> net_status list"

definition call_net_sendto :: "net_sendto \<Rightarrow> nat \<Rightarrow> 'ctx al \<Rightarrow> (net_status \<times> 'ctx al) ub" where
  "call_net_sendto net_sendto n al =
     do {
       packet \<leftarrow> load (net_buffer al) 0 n;
       let (status, results) = net_sendto packet;
       let al = al\<lparr>sent := sent al @ [packet]\<rparr>;
       Some (status, fold (\<lambda>r. net_transmission_result r 0) results al)
     }"

text \<open>The tail of \<open>schc_al_send_down\<close>, from the event on.\<close>

definition transmit :: "net_sendto \<Rightarrow> nat \<Rightarrow> 'ctx al \<Rightarrow> (schc_al_process_status \<times> 'ctx al) ub" where
  "transmit net_sendto pkt_len al =
     do {
       let al = al\<lparr>event := raise_flag (event al) ONGOING_TRANSMISSION\<rparr>;
       (status, al) \<leftarrow> call_net_sendto net_sendto pkt_len al;
       if status \<noteq> NET_SUCCESS then
         Some (SEND_DOWN_INTERNAL_ERROR, al\<lparr>event := clear_flag (event al) ONGOING_TRANSMISSION\<rparr>)
       else Some (SEND_DOWN_OK, al)
     }"

text \<open>The OSCORE branch: converts in place, then rewrites lengths and checksum. The result is None
  for a dropped packet, or the length to send.\<close>

definition convert_down ::
    "al_config \<Rightarrow> sdk_codec \<Rightarrow> 'ctx osc_conv \<Rightarrow> u32 \<Rightarrow> 'ctx al \<Rightarrow> (nat option \<times> 'ctx al) ub" where
  "convert_down cfg sdk_compress coap2oscore coap_packet_len al =
     do {
       let oscore_len = of_nat (length (net_buffer al)) - of_nat sizeof_ip6_hdr - of_nat sizeof_udphdr;
       (st, px, buf, oscore_len) \<leftarrow>
         coap_to_oscore sdk_compress coap2oscore (proxy al) (net_buffer al)
           (sizeof_ip6_hdr + sizeof_udphdr) (ucast coap_packet_len)
           (sizeof_ip6_hdr + sizeof_udphdr) oscore_len;
       let al = al\<lparr>proxy := px, net_buffer := buf\<rparr>;
       let oscore_len = (if st \<noteq> CO_SUCCESS then coap_packet_len else oscore_len);
       if st \<noteq> CO_SUCCESS \<and> oscore_drop_on_error cfg then Some (None, al)
       else do {
         let pkt_len = of_nat sizeof_ip6_hdr + of_nat sizeof_udphdr + oscore_len;
         buf \<leftarrow> update_ip6_udp_len (net_buffer al) (ucast oscore_len);
         buf \<leftarrow> update_udp_checksum buf;
         Some (Some (unat pkt_len), al\<lparr>net_buffer := buf\<rparr>)
       }
     }"

definition schc_al_send_down ::
    "al_config \<Rightarrow> sdk_codec \<Rightarrow> 'ctx osc_conv \<Rightarrow> net_sendto \<Rightarrow> read_result list \<Rightarrow> 'ctx al \<Rightarrow>
     (schc_al_process_status \<times> 'ctx al) ub" where
  "schc_al_send_down cfg sdk_compress coap2oscore net_sendto reads al =
     (if tun_fd al < 0 then Some (SEND_DOWN_INTERNAL_ERROR, al)
      else if has_flag (event al) ONGOING_TRANSMISSION then Some (SEND_DOWN_BUSY, al)
      else do {
        r \<leftarrow> read_tun reads;
        case r of
          Read_error e \<Rightarrow>
            if e \<noteq> EAGAIN \<and> e \<noteq> EWOULDBLOCK then Some (SEND_DOWN_INTERNAL_ERROR, al)
            else Some (SEND_DOWN_OK, al)
        | Read packet \<Rightarrow> do {
            let packet = take (length (net_buffer al)) packet;
            let pkt_len = length packet;
            let al = al\<lparr>net_buffer := poke (net_buffer al) 0 packet\<rparr>;
            udp \<leftarrow> is_ipv6_udp_packet (Some (net_buffer al)) pkt_len;
            if \<not> udp then Some (SEND_DOWN_OK, al)
            else do {
              n \<leftarrow> ipv6_udp_payload_len (net_buffer al);
              let coap_packet_len = (ucast n :: u32);
              coap \<leftarrow> is_coap_packet (drop (sizeof_ip6_hdr + sizeof_udphdr) (net_buffer al)) (unat coap_packet_len);
              if \<not> coap then
                (if drop_non_coap cfg then Some (SEND_DOWN_OK, al) else transmit net_sendto pkt_len al)
              else if oscore_proxy_enabled cfg then do {
                (len, al) \<leftarrow> convert_down cfg sdk_compress coap2oscore coap_packet_len al;
                case len of
                  None \<Rightarrow> Some (SEND_DOWN_OSCORE_ERROR, al)
                | Some pkt_len \<Rightarrow> transmit net_sendto pkt_len al
              }
              else transmit net_sendto pkt_len al
            }
          }
      })"

definition schc_al_process ::
    "al_config \<Rightarrow> sdk_codec \<Rightarrow> 'ctx osc_conv \<Rightarrow> net_sendto \<Rightarrow> read_result list \<Rightarrow> 'ctx al \<Rightarrow>
     (schc_al_process_status \<times> 'ctx al) ub" where
  "schc_al_process cfg sdk_compress coap2oscore net_sendto reads al =
     (if has_flag (event al) IP_PACKET_AVAILABLE then
        schc_al_send_down cfg sdk_compress coap2oscore net_sendto reads
          (al\<lparr>event := clear_flag (event al) IP_PACKET_AVAILABLE, processing_required := False\<rparr>)
      else Some (SEND_DOWN_OK, al))"

section \<open>Forwarding up\<close>

text \<open>\<open>buffer\<close> is the region the stack passes to the callback; \<open>write_ok\<close> is the outcome of \<open>write\<close>.\<close>

definition write_tun :: "bool \<Rightarrow> memory \<Rightarrow> u16 \<Rightarrow> 'ctx al \<Rightarrow> (int \<times> memory \<times> 'ctx al) ub" where
  "write_tun write_ok buffer data_size al =
     do {
       packet \<leftarrow> load buffer 0 (unat data_size);
       if \<not> write_ok then Some (-1, buffer, al)
       else Some (0, buffer, al\<lparr>written := written al @ [packet]\<rparr>)
     }"

definition schc_al_forward_up ::
    "al_config \<Rightarrow> sdk_codec \<Rightarrow> u16 \<Rightarrow> 'ctx osc_conv \<Rightarrow> bool \<Rightarrow> memory \<Rightarrow> u16 \<Rightarrow> 'ctx al \<Rightarrow>
     (int \<times> memory \<times> 'ctx al) ub" where
  "schc_al_forward_up cfg sdk_decompress stack oscore2coap write_ok buffer data_size al =
     (if tun_fd al < 0 \<or> data_size = 0 then Some (-1, buffer, al)
      else do {
        udp \<leftarrow> is_ipv6_udp_packet (Some buffer) (unat data_size);
        if \<not> udp then Some (0, buffer, al)
        else do {
          n \<leftarrow> ipv6_udp_payload_len buffer;
          let coap_packet_len = (ucast n :: u32);
          coap \<leftarrow> is_coap_packet (drop (sizeof_ip6_hdr + sizeof_udphdr) buffer) (unat data_size);
          if coap then
            (if oscore_proxy_enabled cfg then do {
               (st, px, buffer, coap_packet_len) \<leftarrow>
                 oscore_to_coap sdk_decompress stack oscore2coap (proxy al) buffer
                   (sizeof_ip6_hdr + sizeof_udphdr) (ucast coap_packet_len)
                   (sizeof_ip6_hdr + sizeof_udphdr) coap_packet_len;
               let al = al\<lparr>proxy := px\<rparr>;
               case st of
                 CO_SUCCESS \<Rightarrow> do {
                   buffer \<leftarrow> update_ip6_udp_len buffer (ucast coap_packet_len);
                   buffer \<leftarrow> update_udp_checksum buffer;
                   write_tun write_ok buffer
                     (ucast (of_nat sizeof_ip6_hdr + of_nat sizeof_udphdr + coap_packet_len)) al
                 }
               | CO_NOT_OSCORE \<Rightarrow> write_tun write_ok buffer data_size al
               | _ \<Rightarrow> Some (-1, buffer, al)
             }
             else write_tun write_ok buffer data_size al)
          else if drop_non_coap cfg then Some (0, buffer, al)
          else write_tun write_ok buffer data_size al
        }
      })"

definition net_data_received ::
    "al_config \<Rightarrow> sdk_codec \<Rightarrow> u16 \<Rightarrow> 'ctx osc_conv \<Rightarrow> bool \<Rightarrow> memory \<Rightarrow> u16 \<Rightarrow> net_status \<Rightarrow> 'ctx al \<Rightarrow>
     (memory \<times> 'ctx al) ub" where
  "net_data_received cfg sdk_decompress stack oscore2coap write_ok buffer data_size status al =
     (case status of
        NET_SUCCESS \<Rightarrow>
          do {
            (r, buffer, al) \<leftarrow>
              schc_al_forward_up cfg sdk_decompress stack oscore2coap write_ok buffer data_size al;
            Some (buffer, al)
          }
      | NET_RULES_NOT_FOUND_ERR \<Rightarrow> Some (buffer, al)
      | _ \<Rightarrow> Some (buffer, al))"

end
