(* ===== verification/Schc_Al_Props.thy ===== *)
theory Schc_Al_Props
  imports Schc_Al
begin

text \<open>
  The properties of the adaptation layer: the packets it emits, at most one transmission at a
  time, memory safety under the contract of the OSCORE conversions, and what initialisation and
  termination leave behind.
\<close>

section \<open>Event flags\<close>

lemma al_flag_simps [simp]:
  "has_flag (raise_flag e ONGOING_TRANSMISSION) ONGOING_TRANSMISSION"
  "\<not> has_flag (clear_flag e ONGOING_TRANSMISSION) ONGOING_TRANSMISSION"
  "has_flag (clear_flag e IP_PACKET_AVAILABLE) ONGOING_TRANSMISSION = has_flag e ONGOING_TRANSMISSION"
  "has_flag (raise_flag e IP_PACKET_AVAILABLE) ONGOING_TRANSMISSION = has_flag e ONGOING_TRANSMISSION"
  "has_flag (raise_flag e IP_PACKET_AVAILABLE) IP_PACKET_AVAILABLE"
  "\<not> has_flag (clear_flag e IP_PACKET_AVAILABLE) IP_PACKET_AVAILABLE"
  "has_flag (raise_flag e ONGOING_TRANSMISSION) IP_PACKET_AVAILABLE = has_flag e IP_PACKET_AVAILABLE"
  "has_flag (clear_flag e ONGOING_TRANSMISSION) IP_PACKET_AVAILABLE = has_flag e IP_PACKET_AVAILABLE"
  "\<not> has_flag NO_EVENT f"
  by (simp_all add: al_flags NO_EVENT_def)

lemma results_event:
  "has_flag (event (fold (\<lambda>r. net_transmission_result r 0) rs al)) ONGOING_TRANSMISSION \<longleftrightarrow>
    rs = [] \<and> has_flag (event al) ONGOING_TRANSMISSION"
  by (induction rs arbitrary: al) (simp_all add: net_transmission_result_def)

lemma results_fields [simp]:
  "sent (fold (\<lambda>r. net_transmission_result r 0) rs al) = sent al"
  "net_buffer (fold (\<lambda>r. net_transmission_result r 0) rs al) = net_buffer al"
  "tun_fd (fold (\<lambda>r. net_transmission_result r 0) rs al) = tun_fd al"
  "proxy (fold (\<lambda>r. net_transmission_result r 0) rs al) = proxy al"
  "tun_name (fold (\<lambda>r. net_transmission_result r 0) rs al) = tun_name al"
  "fds (fold (\<lambda>r. net_transmission_result r 0) rs al) = fds al"
  "written (fold (\<lambda>r. net_transmission_result r 0) rs al) = written al"
  by (induction rs arbitrary: al) (simp_all add: net_transmission_result_def)

section \<open>One transmission at a time\<close>

lemma transmit_effect:
  assumes "transmit ns n al = Some (st, al')"
  shows "\<exists>pkt. sent al' = sent al @ [pkt] \<and> load (net_buffer al) 0 n = Some pkt
    \<and> (has_flag (event al') ONGOING_TRANSMISSION \<longleftrightarrow> fst (ns pkt) = NET_SUCCESS \<and> snd (ns pkt) = [])
    \<and> (st = SEND_DOWN_OK \<longleftrightarrow> fst (ns pkt) = NET_SUCCESS)"
  using assms
  by (cases "load (net_buffer al) 0 n"; cases "ns (the (load (net_buffer al) 0 n))")
    (auto simp: transmit_def call_net_sendto_def results_event split: if_split_asm)

lemma convert_down_sent:
  "convert_down cfg sdk conv n al = Some (r, al') \<Longrightarrow> sent al' = sent al \<and> event al' = event al"
  by (auto simp: convert_down_def Let_def split: Option.bind_split_asm if_split_asm prod.split_asm)

lemma send_down_effect:
  assumes "schc_al_send_down cfg sdk conv ns reads al = Some (st, al')"
  shows "sent al' = sent al \<and> event al' = event al
    \<or> (\<exists>pkt. sent al' = sent al @ [pkt] \<and> \<not> has_flag (event al) ONGOING_TRANSMISSION
      \<and> (has_flag (event al') ONGOING_TRANSMISSION \<longleftrightarrow> fst (ns pkt) = NET_SUCCESS \<and> snd (ns pkt) = []))"
  using assms
  by (auto simp: schc_al_send_down_def Let_def
      split: Option.bind_split_asm if_split_asm read_result.split_asm option.split_asm prod.split_asm
      dest!: transmit_effect convert_down_sent)

lemma process_effect:
  assumes "schc_al_process cfg sdk conv ns reads al = Some (st, al')"
  shows "sent al' = sent al
      \<and> has_flag (event al') ONGOING_TRANSMISSION = has_flag (event al) ONGOING_TRANSMISSION
    \<or> (\<exists>pkt. sent al' = sent al @ [pkt] \<and> \<not> has_flag (event al) ONGOING_TRANSMISSION
      \<and> (has_flag (event al') ONGOING_TRANSMISSION \<longleftrightarrow> fst (ns pkt) = NET_SUCCESS \<and> snd (ns pkt) = []))"
  using assms send_down_effect [of cfg sdk conv ns reads _ st al']
  by (fastforce simp: schc_al_process_def split: if_splits)

lemma forward_up_frame:
  "schc_al_forward_up cfg sdk stack conv ok buf n al = Some (r, buf', al') \<Longrightarrow>
    event al' = event al \<and> sent al' = sent al"
  by (auto simp: schc_al_forward_up_def write_tun_def Let_def
      split: Option.bind_split_asm if_split_asm prod.split_asm coap_oscore_res.split_asm)

lemma data_received_frame:
  "net_data_received cfg sdk stack conv ok buf n status al = Some (buf', al') \<Longrightarrow>
    event al' = event al \<and> sent al' = sent al"
  by (auto simp: net_data_received_def split: Option.bind_split_asm net_status.split_asm prod.split_asm
      dest!: forward_up_frame)

text \<open>
  The module in its environment: descriptor events, processing, received data, and the results
  of transmissions. The second component counts the transmissions the stack has accepted and not
  yet reported; the stack reports every accepted packet once, at once or later, and no other
  (\<open>sendto_contract\<close>).
\<close>

definition sendto_contract :: "net_sendto \<Rightarrow> bool" where
  "sendto_contract ns \<longleftrightarrow> (\<forall>pkt. length (snd (ns pkt)) \<le> 1 \<and> (fst (ns pkt) \<noteq> NET_SUCCESS \<longrightarrow> snd (ns pkt) = []))"

definition accepted :: "net_sendto \<Rightarrow> memory list \<Rightarrow> nat" where
  "accepted ns pkts = sum_list (map (\<lambda>p. if fst (ns p) = NET_SUCCESS then 1 - length (snd (ns p)) else 0) pkts)"

inductive al_step :: "al_config \<Rightarrow> net_sendto \<Rightarrow> 'ctx al \<times> nat \<Rightarrow> 'ctx al \<times> nat \<Rightarrow> bool"
  for cfg ns where
  tun_event: "al_step cfg ns (al, n) (schc_al_tun_received_handler al, n)"
| process: "schc_al_process cfg sdk conv ns reads al = Some (st, al') \<Longrightarrow>
    al_step cfg ns (al, n) (al', n + accepted ns (drop (length (sent al)) (sent al')))"
| result: "al_step cfg ns (al, Suc n) (net_transmission_result status error al, n)"
| received: "net_data_received cfg sdk stack conv ok buf sz status al = Some (buf', al') \<Longrightarrow>
    al_step cfg ns (al, n) (al', n)"

inductive al_reachable :: "al_config \<Rightarrow> net_sendto \<Rightarrow> 'ctx al \<times> nat \<Rightarrow> bool" for cfg ns where
  start: "schc_al_init cfg ctx_init fd ioctl sys al0 = Some (0, al) \<Longrightarrow> al_reachable cfg ns (al, 0)"
| step: "al_reachable cfg ns st \<Longrightarrow> al_step cfg ns st st' \<Longrightarrow> al_reachable cfg ns st'"

definition al_inv :: "'ctx al \<times> nat \<Rightarrow> bool" where
  "al_inv st \<longleftrightarrow> snd st \<le> 1 \<and> (has_flag (event (fst st)) ONGOING_TRANSMISSION \<longleftrightarrow> snd st = 1)"

lemma init_no_transmission:
  "schc_al_init cfg ctx_init fd ioctl sys al0 = Some (0, al) \<Longrightarrow>
    \<not> has_flag (event al) ONGOING_TRANSMISSION"
  by (auto simp: schc_al_init_def run_cmd_def Let_def close_tun_def NO_EVENT_def al_flags
      split: Option.bind_split_asm if_split_asm prod.split_asm)

lemma al_inv_step:
  assumes "sendto_contract ns" and "al_step cfg ns st st'" and "al_inv st"
  shows "al_inv st'"
  using assms(2,3)
proof cases
  case (process sdk conv reads al s al' n)
  from process_effect [OF process(3)] show ?thesis
  proof
    assume "sent al' = sent al
      \<and> has_flag (event al') ONGOING_TRANSMISSION = has_flag (event al) ONGOING_TRANSMISSION"
    then show ?thesis
      using process assms(3) by (simp add: al_inv_def accepted_def)
  next
    assume "\<exists>pkt. sent al' = sent al @ [pkt] \<and> \<not> has_flag (event al) ONGOING_TRANSMISSION
      \<and> (has_flag (event al') ONGOING_TRANSMISSION \<longleftrightarrow> fst (ns pkt) = NET_SUCCESS \<and> snd (ns pkt) = [])"
    then obtain pkt where pkt: "sent al' = sent al @ [pkt]" "\<not> has_flag (event al) ONGOING_TRANSMISSION"
      "has_flag (event al') ONGOING_TRANSMISSION \<longleftrightarrow> fst (ns pkt) = NET_SUCCESS \<and> snd (ns pkt) = []"
      by blast
    have "snd (ns pkt) = [] \<or> length (snd (ns pkt)) = 1"
      using assms(1) by (metis le_less less_one length_0_conv sendto_contract_def)
    then show ?thesis
      using process assms(3) pkt by (auto simp: al_inv_def accepted_def)
  qed
qed (use assms(3) in \<open>auto simp: al_inv_def schc_al_tun_received_handler_def net_transmission_result_def
      dest!: data_received_frame\<close>)

text \<open>C2: From initialisation on, under every interleaving of descriptor events, processing,
  received data and transmission results, the module has at most one packet in the hands of the
  stack, and its ONGOING flag is set exactly while it has one.\<close>

theorem one_transmission_at_a_time:
  assumes "sendto_contract ns" and "al_reachable cfg ns (al, n)"
  shows "n \<le> 1 \<and> (has_flag (event al) ONGOING_TRANSMISSION \<longleftrightarrow> n = 1)"
proof -
  from assms(2) have "al_inv (al, n)"
  proof (induction "(al, n)" arbitrary: al n rule: al_reachable.induct)
    case (start ctx_init fd ioctl sys al0 al)
    then show ?case
      by (simp add: al_inv_def init_no_transmission)
  next
    case (step st al n)
    then show ?case
      using al_inv_step [OF assms(1)] by (metis surj_pair)
  qed
  then show ?thesis
    by (simp add: al_inv_def)
qed

section \<open>The packets sent down\<close>

text \<open>The callback the proxy passes to the library.\<close>

definition down_cb :: "sdk_codec \<Rightarrow> 'ctx proxy \<Rightarrow> plaintext_cb option" where
  "down_cb sdk px = (if oscore_inner_schc_enabled px then Some (oscore_msg_inner_compression sdk) else None)"

text \<open>
  What the OSCORE library documents of a conversion: it writes only to the output buffer it was
  given, and on success reports a size within it (\<open>conv_contract\<close>). It returns, given buffers that exist
  and a callback that returns for every plaintext in a buffer of the library's largest plaintext, of
  \<open>B\<close> bytes (\<open>conv_returns\<close>).
\<close>

definition conv_contract :: "'ctx osc_conv \<Rightarrow> bool" where
  "conv_contract conv \<longleftrightarrow> (\<forall>cb ctx region i n j cap r ctx' region' m.
     i + unat n \<le> length region \<and> j + unat cap \<le> length region
       \<and> conv cb ctx region i n j cap = Some (r, ctx', region', m) \<longrightarrow>
     length region' = length region
       \<and> (\<forall>k < length region. k < j \<or> j + unat cap \<le> k \<longrightarrow> region' ! k = region ! k)
       \<and> (r = Ok \<longrightarrow> m \<le> cap))"

definition conv_returns :: "nat \<Rightarrow> 'ctx osc_conv \<Rightarrow> bool" where
  "conv_returns B conv \<longleftrightarrow> (\<forall>cb ctx region i n j cap.
     cb_safe B cb \<and> i + unat n \<le> length region \<and> j + unat cap \<le> length region \<longrightarrow>
     conv cb ctx region i n j cap \<noteq> None)"

lemma down_cb_safe: "codec_bounded sdk \<Longrightarrow> 128 \<le> B \<Longrightarrow> B < 65536 \<Longrightarrow> cb_safe B (down_cb sdk px)"
  using inner_compression_safe by (simp add: down_cb_def cb_safe_def)

definition coap_in_udp :: "memory \<Rightarrow> bool" where
  "coap_in_udp p \<longleftrightarrow> 49 \<le> length p \<and> length p \<le> 256 \<and> drop_bit 4 (p ! 0) = IPv6_VERSION
     \<and> p ! 6 = IPPROTO_UDP \<and> 9 \<le> be16_at p 44 \<and> p ! 48 AND COAP_VERSION_MASK = COAP_VERSION_1"

lemma be16_at_poke_prefix:
  "i + 2 \<le> length p \<Longrightarrow> length p \<le> length m \<Longrightarrow> be16_at (poke m 0 p) i = be16_at p i"
  by (simp add: be16_at_def nth_poke)

lemma unat_ucast_u16_u32: "unat (ucast (w :: u16) :: u32) = unat w"
  by (rule unat_ucast_16_32)

lemma send_down_coap:
  assumes "oscore_proxy_enabled cfg" "0 \<le> tun_fd al" "\<not> has_flag (event al) ONGOING_TRANSMISSION"
    and "read_tun reads = Some (Read p)" "length (net_buffer al) = 256" and p: "coap_in_udp p"
  shows "\<exists>n. unat n = be16_at p 44 - 8 \<and> schc_al_send_down cfg sdk conv ns reads al =
    do { (len, al) \<leftarrow> convert_down cfg sdk conv (ucast (n :: u16)) (al\<lparr>net_buffer := poke (net_buffer al) 0 p\<rparr>);
         case len of None \<Rightarrow> Some (SEND_DOWN_OSCORE_ERROR, al) | Some k \<Rightarrow> transmit ns k al }"
proof -
  define b where "b = poke (net_buffer al) 0 p"
  note p = p [unfolded coap_in_udp_def]
  have b: "length b = 256"
    using assms(5) p by (simp add: b_def)
  have bytes: "b ! 0 = p ! 0" "b ! 6 = p ! 6" "b ! 48 = p ! 48" "be16_at b 44 = be16_at p 44"
    using assms(5) p by (auto simp: b_def nth_poke be16_at_poke_prefix)
  obtain n where n: "ipv6_udp_payload_len b = Some n" "unat n = be16_at p 44 - 8"
    using payload_len_eq [of b] b bytes(4) by auto
  have udp: "is_ipv6_udp_packet (Some b) (length p) = Some True"
    using b bytes p by (subst is_ipv6_udp_packet_eq) simp_all
  have coap: "is_coap_packet (drop (sizeof_ip6_hdr + sizeof_udphdr) b) (unat (ucast n :: u32)) = Some True"
    using b bytes p n(2) by (simp add: is_coap_packet_def header_sizes peek_def unat_ucast_u16_u32)
  show ?thesis
    using assms(1-5) p n(2)
    by (intro exI [of _ n] conjI)
      (simp_all add: schc_al_send_down_def Let_def udp coap n(1) flip: b_def)
qed

lemma convert_down_ok:
  assumes contract: "conv_contract conv" and buf: "length (net_buffer al) = 256"
    and hdr: "drop_bit 4 (net_buffer al ! 0) = IPv6_VERSION" "net_buffer al ! 6 = IPPROTO_UDP"
    and n: "unat n \<le> 208"
    and conv: "conv (down_cb sdk (proxy al)) (osc_ctx (proxy al)) (net_buffer al) 48 n 48 208 =
      Some (Ok, ctx', region, m)"
  shows "\<exists>q al'. convert_down cfg sdk conv (ucast n) al = Some (Some (48 + unat m), al')
    \<and> net_buffer al' = q \<and> length q = 256 \<and> sent al' = sent al \<and> unat m \<le> 208
    \<and> proxy al' = (proxy al)\<lparr>osc_ctx := ctx'\<rparr> \<and> tun_fd al' = tun_fd al \<and> length region = 256
    \<and> (\<forall>i < 256. i \<notin> {4, 5, 44, 45, 46, 47} \<longrightarrow> q ! i = region ! i)
    \<and> (\<forall>i < 48. region ! i = net_buffer al ! i)
    \<and> be16_at q 4 = 8 + unat m
    \<and> udp_checksum_ok (take (48 + unat m) q)
    \<and> is_ipv6_udp_packet (Some (take (48 + unat m) q)) (48 + unat m) = Some True
    \<and> ipv6_udp_payload_len (take (48 + unat m) q) = Some (of_nat (unat m))"
proof -
  have "48 + unat n \<le> length (net_buffer al) \<and> 48 + unat (208 :: u32) \<le> length (net_buffer al)"
    using buf n by simp
  then have region: "length region = 256" "m \<le> 208" "\<forall>i < 48. region ! i = net_buffer al ! i"
    using contract [unfolded conv_contract_def, rule_format, of 48 n "net_buffer al" 48 208
        "down_cb sdk (proxy al)" "osc_ctx (proxy al)"] conv buf by auto
  then have m: "unat m \<le> 208"
    by (simp add: word_le_nat_alt)
  have um: "unat (ucast m :: u64) = unat m"
    by (simp add: unsigned_ucast_eq) (rule take_bit_nat_eq_self, use m in simp)
  have "unat (of_nat sizeof_ip6_hdr + of_nat sizeof_udphdr + m :: u32) = 48 + unat m"
    using m by (simp add: header_sizes unat_word_ariths)
  moreover obtain p' q where q: "update_ip6_udp_len region (ucast m) = Some p'" "update_udp_checksum p' = Some q"
      "length q = 256" "\<forall>i < 256. i \<notin> {4, 5, 44, 45, 46, 47} \<longrightarrow> q ! i = region ! i"
      "be16_at q 4 = 8 + unat m" "udp_checksum_ok (take (48 + unat m) q)"
      "is_ipv6_udp_packet (Some (take (48 + unat m) q)) (48 + unat m) = Some True"
      "ipv6_udp_payload_len (take (48 + unat m) q) = Some (of_nat (unat m))"
    using finish_packet [of "ucast m" region] region m hdr um by auto
  moreover have "coap_to_oscore sdk conv (proxy al) (net_buffer al) 48 (ucast (ucast n :: u32)) 48 208 =
      Some (CO_SUCCESS, (proxy al)\<lparr>osc_ctx := ctx'\<rparr>, region, m)"
  proof -
    have "(ucast (ucast n :: u32) :: u16) = n"
      using n by (intro unsigned_word_eqI [where 'a = nat])
        (simp add: unat_ucast_32_16 unat_ucast_16_32 u16_less)
    then show ?thesis
      using conv by (simp add: coap_to_oscore_def down_cb_def)
  qed
  ultimately show ?thesis
    using region m buf
    by (intro exI [of _ q] exI [of _ "al\<lparr>proxy := (proxy al)\<lparr>osc_ctx := ctx'\<rparr>, net_buffer := q\<rparr>"])
      (simp add: convert_down_def header_sizes Let_def)
qed

lemma transmit_total:
  assumes "load (net_buffer al) 0 n = Some pkt"
  shows "\<exists>st al'. transmit ns n al = Some (st, al') \<and> sent al' = sent al @ [pkt]
    \<and> (st = SEND_DOWN_OK \<longleftrightarrow> fst (ns pkt) = NET_SUCCESS)"
  using assms by (cases "ns pkt") (simp add: transmit_def call_net_sendto_def Let_def)

lemma be16_at_eqI:
  "i + 2 \<le> length p \<Longrightarrow> p ! i = q ! i \<Longrightarrow> p ! (i + 1) = q ! (i + 1) \<Longrightarrow> be16_at p i = be16_at q i"
  by (simp add: be16_at_def)

lemma packet_sent:
  assumes "oscore_proxy_enabled cfg" "conv_contract conv"
    and "has_flag (event al) IP_PACKET_AVAILABLE" "\<not> has_flag (event al) ONGOING_TRANSMISSION"
    and "0 \<le> tun_fd al" "length (net_buffer al) = 256"
    and "read_tun reads = Some (Read p)" "coap_in_udp p" "be16_at p 44 \<le> 216"
    and "conv (down_cb sdk (proxy al)) (osc_ctx (proxy al)) (poke (net_buffer al) 0 p)
      48 (of_nat (be16_at p 44 - 8)) 48 208 = Some (Ok, ctx', region, m)"
  obtains al1 q where "schc_al_process cfg sdk conv ns reads al = transmit ns (48 + unat m) al1"
    and "load (net_buffer al1) 0 (48 + unat m) = Some q" and "sent al1 = sent al"
    and "proxy al1 = (proxy al)\<lparr>osc_ctx := ctx'\<rparr>" and "tun_fd al1 = tun_fd al" and "length (net_buffer al1) = 256"
    and "length q = 48 + unat m" and "unat m \<le> 208" and "drop 48 q = take (unat m) (drop 48 region)"
    and "\<forall>i < 48. i \<notin> {4, 5, 44, 45, 46, 47} \<longrightarrow> q ! i = p ! i"
    and "be16_at q 4 = 8 + unat m" and "udp_checksum_ok q"
    and "is_ipv6_udp_packet (Some q) (48 + unat m) = Some True"
    and "ipv6_udp_payload_len q = Some (of_nat (unat m))"
proof -
  define al1 where "al1 = al\<lparr>event := clear_flag (event al) IP_PACKET_AVAILABLE, processing_required := False\<rparr>"
  define b where "b = poke (net_buffer al) 0 p"
  note p = assms(8) [unfolded coap_in_udp_def]
  obtain n where n: "unat n = be16_at p 44 - 8"
    and down: "schc_al_send_down cfg sdk conv ns reads al1 =
      do { (len, al) \<leftarrow> convert_down cfg sdk conv (ucast (n :: u16)) (al1\<lparr>net_buffer := b\<rparr>);
           case len of None \<Rightarrow> Some (SEND_DOWN_OSCORE_ERROR, al) | Some k \<Rightarrow> transmit ns k al }"
    using send_down_coap [of cfg al1 reads p sdk conv ns] assms by (auto simp: al1_def b_def)
  have hdr: "b ! i = p ! i" if "i < 48" for i
    using that p assms(6) by (simp add: b_def nth_poke)
  have nu: "n = of_nat (be16_at p 44 - 8)"
    using word_eq_of_nat [OF n] .
  have "conv (down_cb sdk (proxy (al1\<lparr>net_buffer := b\<rparr>))) (osc_ctx (proxy (al1\<lparr>net_buffer := b\<rparr>)))
      (net_buffer (al1\<lparr>net_buffer := b\<rparr>)) 48 n 48 208 = Some (Ok, ctx', region, m)"
    using assms(10) by (simp add: b_def al1_def nu)
  moreover have "length (net_buffer (al1\<lparr>net_buffer := b\<rparr>)) = 256"
    "drop_bit 4 (net_buffer (al1\<lparr>net_buffer := b\<rparr>) ! 0) = IPv6_VERSION"
    "net_buffer (al1\<lparr>net_buffer := b\<rparr>) ! 6 = IPPROTO_UDP" "unat n \<le> 208"
    using assms(6,9) p hdr n by (simp_all add: b_def)
  ultimately obtain q al' where q: "convert_down cfg sdk conv (ucast n) (al1\<lparr>net_buffer := b\<rparr>) = Some (Some (48 + unat m), al')"
      "net_buffer al' = q" "length q = 256" "sent al' = sent (al1\<lparr>net_buffer := b\<rparr>)" "unat m \<le> 208"
      "proxy al' = (proxy (al1\<lparr>net_buffer := b\<rparr>))\<lparr>osc_ctx := ctx'\<rparr>" "tun_fd al' = tun_fd (al1\<lparr>net_buffer := b\<rparr>)"
      "length region = 256"
      "\<forall>i < 256. i \<notin> {4, 5, 44, 45, 46, 47} \<longrightarrow> q ! i = region ! i"
      "\<forall>i < 48. region ! i = net_buffer (al1\<lparr>net_buffer := b\<rparr>) ! i"
      "be16_at q 4 = 8 + unat m" "udp_checksum_ok (take (48 + unat m) q)"
      "is_ipv6_udp_packet (Some (take (48 + unat m) q)) (48 + unat m) = Some True"
      "ipv6_udp_payload_len (take (48 + unat m) q) = Some (of_nat (unat m))"
    using convert_down_ok [OF assms(2), of "al1\<lparr>net_buffer := b\<rparr>" n sdk ctx' region m cfg] by blast
  define k where "k = take (48 + unat m) q"
  have k: "length k = 48 + unat m" "load (net_buffer al') 0 (48 + unat m) = Some k"
    using q(2,3,5) by (simp_all add: k_def load_def)
  show thesis
  proof (rule that [of al' k])
    show "schc_al_process cfg sdk conv ns reads al = transmit ns (48 + unat m) al'"
      using assms(3) down q(1) by (simp add: schc_al_process_def al1_def)
    show "\<forall>i < 48. i \<notin> {4, 5, 44, 45, 46, 47} \<longrightarrow> k ! i = p ! i"
      using q(9,10) hdr by (simp add: k_def)
    show "drop 48 k = take (unat m) (drop 48 region)"
      using q(3,5,8,9) by (intro nth_equalityI) (simp_all add: k_def)
    show "be16_at k 4 = 8 + unat m"
      using q(11) k(1) be16_at_eqI [of 4 k q] by (simp add: k_def)
  qed (use k q(2-7,12-14) in \<open>simp_all add: al1_def k_def\<close>)
qed

lemma header_bytes_kept:
  assumes "\<forall>i < 48. i \<notin> {4, 5, 44, 45, 46, 47} \<longrightarrow> q ! i = p ! i" and "48 \<le> length q" "48 \<le> length p"
  shows "take 32 (drop 8 q) = take 32 (drop 8 p)" and "be16_at q 40 = be16_at p 40" and "be16_at q 42 = be16_at p 42"
proof -
  have len: "length (take 32 (drop 8 q)) = 32" "length (take 32 (drop 8 p)) = 32"
    using assms(2,3) by simp_all
  show "take 32 (drop 8 q) = take 32 (drop 8 p)"
    using assms by (intro nth_equalityI) (simp_all add: len del: length_take)
  show "be16_at q 40 = be16_at p 40" "be16_at q 42 = be16_at p 42"
    using assms by (auto intro!: be16_at_eqI)
qed

lemma coap_sent_once:
  assumes "oscore_proxy_enabled cfg" "conv_contract conv"
    and "has_flag (event al) IP_PACKET_AVAILABLE" "\<not> has_flag (event al) ONGOING_TRANSMISSION"
    and "0 \<le> tun_fd al" "length (net_buffer al) = 256"
    and "read_tun reads = Some (Read p)" "coap_in_udp p" "be16_at p 44 \<le> 216"
    and "conv (down_cb sdk (proxy al)) (osc_ctx (proxy al)) (poke (net_buffer al) 0 p)
      48 (of_nat (be16_at p 44 - 8)) 48 208 = Some (Ok, ctx', region, m)"
  shows "\<exists>st al' q. schc_al_process cfg sdk conv ns reads al = Some (st, al')
    \<and> sent al' = sent al @ [q] \<and> length q = 48 + unat m
    \<and> drop 48 q = take (unat m) (drop 48 region)
    \<and> is_ipv6_udp_packet (Some q) (length q) = Some True
    \<and> be16_at q 4 = 8 + unat m \<and> ipv6_udp_payload_len q = Some (of_nat (unat m))
    \<and> udp_checksum_ok q
    \<and> take 32 (drop 8 q) = take 32 (drop 8 p) \<and> be16_at q 40 = be16_at p 40 \<and> be16_at q 42 = be16_at p 42
    \<and> (st = SEND_DOWN_OK \<longleftrightarrow> fst (ns q) = NET_SUCCESS)"
proof -
  obtain al1 q where q: "schc_al_process cfg sdk conv ns reads al = transmit ns (48 + unat m) al1"
    "load (net_buffer al1) 0 (48 + unat m) = Some q" "sent al1 = sent al"
    "length q = 48 + unat m" "drop 48 q = take (unat m) (drop 48 region)"
    "\<forall>i < 48. i \<notin> {4, 5, 44, 45, 46, 47} \<longrightarrow> q ! i = p ! i"
    "be16_at q 4 = 8 + unat m" "udp_checksum_ok q" "is_ipv6_udp_packet (Some q) (48 + unat m) = Some True"
    "ipv6_udp_payload_len q = Some (of_nat (unat m))"
    by (rule packet_sent [OF assms, where ns = ns])
  moreover have "48 \<le> length p"
    using assms(8) by (simp add: coap_in_udp_def)
  moreover obtain st al2 where "transmit ns (48 + unat m) al1 = Some (st, al2)" "sent al2 = sent al1 @ [q]"
      "st = SEND_DOWN_OK \<longleftrightarrow> fst (ns q) = NET_SUCCESS"
    using transmit_total [OF q(2)] by blast
  ultimately show ?thesis
    using header_bytes_kept [OF q(6)] by (intro exI [of _ st] exI [of _ al2] exI [of _ q]) simp
qed

text \<open>C7: A CoAP packet read from the TUN device and converted by the library leaves the module
  as exactly one IPv6/UDP packet carrying the converted bytes: 48 header bytes and the size the
  library reported, both length fields consistent with it, the UDP checksum valid, addresses and
  ports those of the packet read; the status tells whether the stack took it.\<close>

theorem oscore_packet_sent:
  assumes "oscore_proxy_enabled cfg" "conv_contract conv"
    and "has_flag (event al) IP_PACKET_AVAILABLE" "\<not> has_flag (event al) ONGOING_TRANSMISSION"
    and "0 \<le> tun_fd al" "length (net_buffer al) = 256"
    and "read_tun reads = Some (Read p)" "coap_in_udp p" "be16_at p 44 \<le> 216"
    and "conv (down_cb sdk (proxy al)) (osc_ctx (proxy al)) (poke (net_buffer al) 0 p)
      48 (of_nat (be16_at p 44 - 8)) 48 208 = Some (Ok, ctx', region, m)"
  shows "\<exists>st al' q. schc_al_process cfg sdk conv ns reads al = Some (st, al')
    \<and> sent al' = sent al @ [q] \<and> length q = 48 + unat m
    \<and> drop 48 q = take (unat m) (drop 48 region)
    \<and> is_ipv6_udp_packet (Some q) (length q) = Some True
    \<and> be16_at q 4 = 8 + unat m \<and> ipv6_udp_payload_len q = Some (of_nat (unat m))
    \<and> udp_checksum_ok q
    \<and> take 32 (drop 8 q) = take 32 (drop 8 p) \<and> be16_at q 40 = be16_at p 40 \<and> be16_at q 42 = be16_at p 42
    \<and> (st = SEND_DOWN_OK \<longleftrightarrow> fst (ns q) = NET_SUCCESS)"
  by (rule coap_sent_once [OF assms])

section \<open>Concrete runs\<close>

text \<open>A CoAP packet of nine UDP bytes; the state after start-up; a conversion that overwrites the
  payload byte and reports two bytes; a stack that takes every packet.\<close>

definition example_packet :: memory where
  "example_packet = [0x60, 0, 0, 0, 0, 9, 17, 64] @ replicate 16 1 @ replicate 16 2
     @ [0x16, 0x33, 0x16, 0x34, 0, 9, 0, 0, 0x40]"

definition example_al :: "unit al" where
  "example_al = \<lparr>processing_required = False, event = 0, tun_fd = -1, tun_name = [],
     net_buffer = replicate 256 0, proxy = \<lparr>osc_ctx = (), oscore_inner_schc_enabled = True\<rparr>,
     fds = initial_fds, sent = [], written = [], commands = [], closed = []\<rparr>"

definition example_cfg :: al_config where
  "example_cfg = \<lparr>oscore_proxy_enabled = True, drop_non_coap = True, oscore_drop_on_error = True,
     schc_peer_mode = True, TUN_NAME = ''schc0'', tun_ipv6 = ''5454::1/64'',
     oscore_master_secret = replicate 16 3, oscore_master_salt = replicate 16 4\<rparr>"

definition example_conv :: "unit osc_conv" where
  "example_conv cb ctx region i n j cap =
     (if 2 \<le> unat cap then Some (Ok, ctx, poke region j [0x58, 0x59], 2) else Some (Buffer_to_small, ctx, region, 0))"

definition example_sendto :: net_sendto where
  "example_sendto pkt = (NET_SUCCESS, [])"

definition example_run :: "(int \<times> unit al) ub" where
  "example_run = schc_al_init example_cfg (\<lambda>p. (Ok, ())) 5 Some (\<lambda>c. True) example_al"

definition example_up :: "unit al" where
  "example_up = (case example_run of Some (r, al) \<Rightarrow> al | None \<Rightarrow> example_al)"

lemma example_up_ok: "example_run = Some (0, example_up)"
  by code_simp

lemma example_conv_contract: "conv_contract example_conv"
  unfolding conv_contract_def
  by (auto simp: example_conv_def nth_poke word_le_nat_alt split: if_splits)

lemma example_conv_returns: "conv_returns B example_conv"
  by (simp add: conv_returns_def example_conv_def)

definition example_read :: "unit al" where
  "example_read = schc_al_tun_received_handler example_up"

lemma example_sent:
  "\<exists>al. schc_al_process example_cfg (\<lambda>cap out x. (COMP_RULES_NOT_FOUND_ERR, out, 0)) example_conv example_sendto [Read example_packet]
    example_read = Some (SEND_DOWN_OK, al) \<and> length (sent al) = 1"
  by (rule exI [of _ "snd (the (schc_al_process example_cfg (\<lambda>cap out x. (COMP_RULES_NOT_FOUND_ERR, out, 0)) example_conv
     example_sendto [Read example_packet] example_read))"]) code_simp

theorem one_transmission_at_a_time_witness:
  "\<exists>al n. al_reachable example_cfg example_sendto (al :: unit al, n) \<and> length (sent al) = 1
    \<and> n \<le> 1 \<and> (has_flag (event al) ONGOING_TRANSMISSION \<longleftrightarrow> n = 1)"
proof -
  have contract: "sendto_contract example_sendto"
    by (simp add: sendto_contract_def example_sendto_def)
  have "al_reachable example_cfg example_sendto (example_up, 0)"
    using example_up_ok unfolding example_run_def by (rule al_reachable.start)
  then have "al_reachable example_cfg example_sendto (example_read, 0)"
    unfolding example_read_def by (rule al_reachable.step) (rule tun_event)
  then obtain al n where "al_reachable example_cfg example_sendto (al :: unit al, n)" "length (sent al) = 1"
    using example_sent by (blast intro: al_reachable.step process)
  then show ?thesis
    using one_transmission_at_a_time [OF contract] by blast
qed

theorem oscore_packet_sent_witness:
  "\<exists>st al' q. schc_al_process example_cfg (\<lambda>cap out x. (COMP_RULES_NOT_FOUND_ERR, out, 0)) example_conv
      example_sendto [Read example_packet] example_read = Some (st, al')
    \<and> sent al' = sent example_read @ [q] \<and> length q = 48 + unat (2 :: u32)
    \<and> drop 48 q = take (unat (2 :: u32)) (drop 48 (poke (poke (net_buffer example_read) 0 example_packet) 48 [0x58, 0x59]))
    \<and> is_ipv6_udp_packet (Some q) (length q) = Some True
    \<and> be16_at q 4 = 8 + unat (2 :: u32) \<and> ipv6_udp_payload_len q = Some (of_nat (unat (2 :: u32)))
    \<and> udp_checksum_ok q
    \<and> take 32 (drop 8 q) = take 32 (drop 8 example_packet)
    \<and> be16_at q 40 = be16_at example_packet 40 \<and> be16_at q 42 = be16_at example_packet 42
    \<and> (st = SEND_DOWN_OK \<longleftrightarrow> fst (example_sendto q) = NET_SUCCESS)"
proof (rule oscore_packet_sent [where ctx' = "()"])
  show "conv_contract example_conv" by (rule example_conv_contract)
  show "read_tun [Read example_packet] = Some (Read example_packet)" by simp
  show "coap_in_udp example_packet" "be16_at example_packet 44 \<le> 216" by code_simp+
  show "oscore_proxy_enabled example_cfg" "has_flag (event example_read) IP_PACKET_AVAILABLE"
    "\<not> has_flag (event example_read) ONGOING_TRANSMISSION" "0 \<le> tun_fd example_read"
    "length (net_buffer example_read) = 256" by code_simp+
  show "example_conv (down_cb (\<lambda>cap out x. (COMP_RULES_NOT_FOUND_ERR, out, 0)) (proxy example_read))
     (osc_ctx (proxy example_read)) (poke (net_buffer example_read) 0 example_packet) 48
     (of_nat (be16_at example_packet 44 - 8)) 48 208 =
    Some (Ok, (), poke (poke (net_buffer example_read) 0 example_packet) 48 [0x58, 0x59], 2)"
    by (simp add: example_conv_def)
qed

section \<open>Memory safety of the downlink\<close>

lemma err_res_success [simp]: "uoscore_err_to_res r = CO_SUCCESS \<longleftrightarrow> r = Ok"
  by (cases r) simp_all

lemma unat_ucast_32_64: "unat (ucast (w :: u32) :: u64) = unat w"
  using unsigned_less [of w, where ?'a = nat]
  by (simp add: unsigned_ucast_eq) (rule take_bit_nat_eq_self, simp)

lemma convert_down_failed:
  assumes "length (net_buffer al) = 256" and "r \<noteq> Ok"
    and "conv (down_cb sdk (proxy al)) (osc_ctx (proxy al)) (net_buffer al) 48 n 48 208 = Some (r, ctx', region, m)"
  shows "convert_down cfg sdk conv (ucast n) al =
    (let al' = al\<lparr>proxy := (proxy al)\<lparr>osc_ctx := ctx'\<rparr>, net_buffer := region\<rparr>
     in if oscore_drop_on_error cfg then Some (None, al')
        else do { buf \<leftarrow> update_ip6_udp_len region (ucast n); buf \<leftarrow> update_udp_checksum buf;
                  Some (Some (48 + unat n), al'\<lparr>net_buffer := buf\<rparr>) })"
proof -
  have n: "(ucast (ucast n :: u32) :: u16) = n"
    by (intro unsigned_word_eqI [where 'a = nat]) (simp add: unat_ucast_32_16 unat_ucast_16_32 u16_less)
  have "unat (of_nat sizeof_ip6_hdr + of_nat sizeof_udphdr + ucast n :: u32) = 48 + unat n"
    using u16_less [of n] by (simp add: header_sizes unat_word_ariths unat_ucast_16_32)
  moreover have "unat (ucast (ucast n :: u32) :: u64) = unat n"
    by (simp add: unat_ucast_32_64 unat_ucast_16_32)
  then have "(ucast (ucast n :: u32) :: u64) = ucast n"
    using u16_less [of n]
    by (intro unsigned_word_eqI [where 'a = nat]) (simp add: unsigned_ucast_eq take_bit_nat_eq_self)
  ultimately show ?thesis
    using assms by (simp add: convert_down_def coap_to_oscore_def header_sizes down_cb_def n Let_def)
qed

lemma convert_down_total:
  fixes n :: u16
  assumes contract: "conv_contract conv" and returns: "conv_returns B conv" "cb_safe B (down_cb sdk (proxy al))"
    and buf: "length (net_buffer al) = 256"
    and hdr: "drop_bit 4 (net_buffer al ! 0) = IPv6_VERSION" "net_buffer al ! 6 = IPPROTO_UDP"
    and n: "unat n \<le> 208"
  shows "\<exists>r al'. convert_down cfg sdk conv (ucast n) al = Some (r, al') \<and> length (net_buffer al') = 256
    \<and> (\<forall>k. r = Some k \<longrightarrow> k \<le> 256)"
proof -
  have "48 + unat n \<le> length (net_buffer al) \<and> 48 + unat (208 :: u32) \<le> length (net_buffer al)"
    using buf n by simp
  then obtain r ctx' region m where conv: "conv (down_cb sdk (proxy al)) (osc_ctx (proxy al)) (net_buffer al) 48 n 48 208 =
      Some (r, ctx', region, m)" "length region = 256" "\<forall>i < 48. region ! i = net_buffer al ! i"
    using contract [unfolded conv_contract_def, rule_format, of 48 n "net_buffer al" 48 208
        "down_cb sdk (proxy al)" "osc_ctx (proxy al)"] buf
      returns(1) [unfolded conv_returns_def, rule_format, of "down_cb sdk (proxy al)" 48 n "net_buffer al" 48 208
        "osc_ctx (proxy al)"] returns(2) by auto
  show ?thesis
  proof (cases "r = Ok")
    case True
    obtain q al' where "convert_down cfg sdk conv (ucast n) al = Some (Some (48 + unat m), al')"
        "length (net_buffer al') = 256" "unat m \<le> 208"
      using convert_down_ok [OF contract buf hdr n, of sdk ctx' region m cfg] conv(1) True by blast
    then show ?thesis
      by simp
  next
    case False
    have "unat (ucast n :: u64) = unat n"
      using u16_less [of n] by (simp add: unsigned_ucast_eq take_bit_nat_eq_self)
    then obtain p' q where "update_ip6_udp_len region (ucast n) = Some p'" "update_udp_checksum p' = Some q"
        "length q = 256"
      using finish_packet [of "ucast n" region] conv(2,3) hdr n by auto
    then show ?thesis
      using convert_down_failed [where al = al and r = r and conv = conv and sdk = sdk and n = n and ctx' = ctx'
          and region = region and m = m and cfg = cfg] conv(1,2) buf False n by (simp add: Let_def)
  qed
qed

lemma transmit_buffer: "transmit ns k al = Some (st, al') \<Longrightarrow> net_buffer al' = net_buffer al"
  by (auto simp: transmit_def call_net_sendto_def split: Option.bind_split_asm if_split_asm prod.split_asm)

lemma transmit_in_bounds:
  assumes "k \<le> length (net_buffer al)"
  shows "\<exists>st al'. transmit ns k al = Some (st, al') \<and> length (net_buffer al') = length (net_buffer al)"
  using transmit_total [of al k "take k (net_buffer al)" ns] transmit_buffer [of ns k al] assms
  by (fastforce simp: load_def)

lemma al_coap_check:
  assumes "length b = 256" and "k \<le> 256" and "is_ipv6_udp_packet (Some b) k = Some True"
  shows "\<exists>n c. ipv6_udp_payload_len b = Some n \<and> unat n = be16_at b 44 - 8
    \<and> is_coap_packet (drop (sizeof_ip6_hdr + sizeof_udphdr) b) (unat (ucast n :: u32)) = Some c
    \<and> (c \<longleftrightarrow> 9 \<le> be16_at b 44 \<and> b ! 48 AND COAP_VERSION_MASK = COAP_VERSION_1)"
proof -
  obtain n where "ipv6_udp_payload_len b = Some n" "unat n = be16_at b 44 - 8"
    using payload_len_eq [of b] assms(1) by auto
  then show ?thesis
    using assms(1) by (auto simp: is_coap_packet_def header_sizes peek_def unat_ucast_u16_u32)
qed

lemma process_frame:
  assumes "schc_al_process cfg sdk conv ns reads al = Some (st, al')"
  shows "tun_fd al' = tun_fd al" and "tun_name al' = tun_name al" and "fds al' = fds al" and "written al' = written al"
proof -
  have t: "transmit ns k a = Some (st, a') \<Longrightarrow>
      tun_fd a' = tun_fd a \<and> tun_name a' = tun_name a \<and> fds a' = fds a \<and> written a' = written a" for k a st a'
    by (auto simp: transmit_def call_net_sendto_def split: Option.bind_split_asm if_split_asm prod.split_asm)
  have c: "convert_down cfg sdk conv n a = Some (l, a') \<Longrightarrow>
      tun_fd a' = tun_fd a \<and> tun_name a' = tun_name a \<and> fds a' = fds a \<and> written a' = written a" for n a l a'
    by (auto simp: convert_down_def Let_def split: Option.bind_split_asm if_split_asm prod.split_asm)
  have "tun_fd al' = tun_fd al \<and> tun_name al' = tun_name al \<and> fds al' = fds al \<and> written al' = written al"
    using assms
    by (auto simp: schc_al_process_def schc_al_send_down_def Let_def
        split: Option.bind_split_asm if_split_asm read_result.split_asm option.split_asm prod.split_asm
        dest!: t c)
  then show "tun_fd al' = tun_fd al" and "tun_name al' = tun_name al" and "fds al' = fds al" and "written al' = written al"
    by simp_all
qed

text \<open>A packet read from the TUN device announces a UDP segment that fits the buffer.\<close>

definition segment_fits :: "read_result \<Rightarrow> bool" where
  "segment_fits r \<longleftrightarrow> (case r of Read p \<Rightarrow> 48 \<le> length p \<longrightarrow> be16_at p 44 \<le> 216 | Read_error e \<Rightarrow> True)"

text \<open>At most one packet, no larger than the buffer.\<close>

definition sent_one :: "memory list \<Rightarrow> memory list \<Rightarrow> bool" where
  "sent_one qs qs' \<longleftrightarrow> qs' = qs \<or> (\<exists>q. qs' = qs @ [q] \<and> length q \<le> 256)"

lemma transmit_typed:
  assumes "length (net_buffer al) = 256" "k \<le> 256"
  shows "\<exists>st al'. transmit ns k al = Some (st, al') \<and> length (net_buffer al') = 256 \<and> sent_one (sent al) (sent al')"
proof -
  have "load (net_buffer al) 0 k = Some (take k (net_buffer al))"
    using assms by (simp add: load_def)
  from transmit_total [OF this, of ns] show ?thesis
    using transmit_buffer [of ns k al] assms by (fastforce simp: sent_one_def)
qed

lemma process_total:
  assumes "conv_contract conv" "conv_returns B conv" "codec_bounded sdk" "128 \<le> B" "B < 65536"
    and "length (net_buffer al) = 256" and "read_tun reads = Some r" and "segment_fits r"
  shows "\<exists>st al'. schc_al_process cfg sdk conv ns reads al = Some (st, al') \<and> length (net_buffer al') = 256
    \<and> sent_one (sent al) (sent al')"
proof (cases "has_flag (event al) IP_PACKET_AVAILABLE")
  case True
  define al1 where "al1 = al\<lparr>event := clear_flag (event al) IP_PACKET_AVAILABLE, processing_required := False\<rparr>"
  have al1: "length (net_buffer al1) = 256" "sent al1 = sent al"
    using assms(6) by (simp_all add: al1_def)
  have "\<exists>st al'. schc_al_send_down cfg sdk conv ns reads al1 = Some (st, al') \<and> length (net_buffer al') = 256
      \<and> sent_one (sent al) (sent al')"
  proof (cases r)
    case (Read p)
    define b k al2 where "b = poke (net_buffer al1) 0 (take 256 p)" and "k = length (take 256 p)"
      and "al2 = al1\<lparr>net_buffer := b\<rparr>"
    have b: "length b = 256" "k \<le> 256" and al2: "net_buffer al2 = b" "sent al2 = sent al"
      using al1 by (simp_all add: b_def k_def al2_def)
    have send: "\<exists>st al'. transmit ns k al2 = Some (st, al') \<and> length (net_buffer al') = 256 \<and> sent_one (sent al) (sent al')"
      using transmit_typed [of al2 k ns] b al2 by simp
    have quiet: "sent_one (sent al) (sent al)"
      by (simp add: sent_one_def)
    define udp where "udp \<longleftrightarrow> 48 \<le> k \<and> drop_bit 4 (b ! 0) = IPv6_VERSION \<and> b ! 6 = IPPROTO_UDP"
    have udp: "is_ipv6_udp_packet (Some b) k = Some udp"
        "udp \<Longrightarrow> drop_bit 4 (b ! 0) = IPv6_VERSION \<and> b ! 6 = IPPROTO_UDP"
      using is_ipv6_udp_packet_eq [of k b] b by (simp_all add: udp_def)
    show ?thesis
    proof (cases udp)
      case udp_pkt: True
      then have "48 \<le> length p"
        by (simp add: udp_def k_def)
      then have "be16_at b 44 = be16_at p 44" "be16_at p 44 \<le> 216"
        using assms(8) Read al1 be16_at_poke_prefix [of 44 "take 256 p" "net_buffer al1"]
        by (simp_all add: b_def segment_fits_def be16_at_def)
      then have seg: "be16_at b 44 \<le> 216"
        by simp
      obtain n c where n: "ipv6_udp_payload_len b = Some n" "unat n = be16_at b 44 - 8"
          "is_coap_packet (drop (sizeof_ip6_hdr + sizeof_udphdr) b) (unat (ucast n :: u32)) = Some c"
        using al_coap_check [OF b] udp(1) udp_pkt by auto
      obtain l al' where conv: "convert_down cfg sdk conv (ucast n) al2 = Some (l, al')" "length (net_buffer al') = 256"
          "\<forall>k. l = Some k \<longrightarrow> k \<le> 256"
      proof -
        have "unat n \<le> 208"
          using seg n(2) by simp
        moreover have "drop_bit 4 (net_buffer al2 ! 0) = IPv6_VERSION" "net_buffer al2 ! 6 = IPPROTO_UDP"
          using udp udp_pkt al2 by simp_all
        ultimately show thesis
          using convert_down_total [OF assms(1,2) down_cb_safe [OF assms(3-5)], of al2 n cfg] al2 b(1) that by blast
      qed
      have "sent al' = sent al"
        using convert_down_sent [OF conv(1)] al2 by simp
      then have "\<exists>st a. transmit ns m al' = Some (st, a) \<and> length (net_buffer a) = 256 \<and> sent_one (sent al) (sent a)"
        if "l = Some m" for m
        using transmit_typed [of al' m ns] conv that by simp
      then show ?thesis
        using send quiet udp(1) udp_pkt n b al1 al2 assms(7) Read conv(1,2) \<open>sent al' = sent al\<close>
        by (cases l) (auto simp: schc_al_send_down_def Let_def b_def k_def al2_def)
    next
      case False
      then show ?thesis
        using quiet udp(1) assms(7) Read b al1 al2
        by (auto simp: schc_al_send_down_def Let_def b_def k_def)
    qed
  qed (use assms(7) al1 in \<open>auto simp: schc_al_send_down_def sent_one_def\<close>)
  with True show ?thesis
    by (simp add: schc_al_process_def al1_def)
qed (use assms(6) in \<open>simp add: schc_al_process_def sent_one_def\<close>)

text \<open>C9: With a library that keeps its contract and a codec that keeps its sizes, processing never reads or
  writes outside the packet buffer or the buffers of inner compression, for every packet the TUN
  device can deliver, every conversion result and every configuration, as long as the UDP length
  field announces a segment that fits the packet buffer (at most 216 bytes); and it hands the stack at
  most one packet, no larger than that buffer.\<close>

theorem process_in_bounds:
  assumes "conv_contract conv" "conv_returns B conv" "codec_bounded sdk" "128 \<le> B" "B < 65536"
    and "length (net_buffer al) = 256" and "read_tun reads = Some r" and "segment_fits r"
  shows "\<exists>st al'. schc_al_process cfg sdk conv ns reads al = Some (st, al') \<and> length (net_buffer al') = 256
    \<and> sent_one (sent al) (sent al')"
  by (rule process_total [OF assms])

theorem process_in_bounds_witness:
  "\<exists>st al'. schc_al_process example_cfg (\<lambda>cap out x. (COMP_RULES_NOT_FOUND_ERR, out, 0)) example_conv
      example_sendto [Read_error EINTR, Read example_packet] example_read = Some (st, al')
    \<and> length (net_buffer al') = 256 \<and> sent_one (sent example_read) (sent al')"
proof (rule process_in_bounds [where B = 256])
  show "conv_contract example_conv" by (rule example_conv_contract)
  show "conv_returns 256 example_conv" by (rule example_conv_returns)
  show "128 \<le> (256 :: nat)" "256 < (65536 :: nat)" by simp_all
  show "codec_bounded (\<lambda>cap out x. (COMP_RULES_NOT_FOUND_ERR, out, 0))" by (simp add: codec_bounded_def)
  show "read_tun [Read_error EINTR, Read example_packet] = Some (Read example_packet)" by simp
  show "length (net_buffer example_read) = 256" by code_simp
  show "segment_fits (Read example_packet)" by code_simp
qed

text \<open>The UDP length field of a packet read from the TUN device is not compared with the
  number of bytes read. When a conversion fails without touching the buffer and the module is
  built to send such packets unconverted, rewriting the checksum follows that field: it stays in
  the buffer exactly when the field is at most 216.\<close>

lemma unchecked_udp_length:
  assumes "oscore_proxy_enabled cfg" "\<not> oscore_drop_on_error cfg"
    and "has_flag (event al) IP_PACKET_AVAILABLE" "\<not> has_flag (event al) ONGOING_TRANSMISSION"
    and "0 \<le> tun_fd al" "length (net_buffer al) = 256"
    and "read_tun reads = Some (Read p)" "coap_in_udp p"
    and "\<And>cb ctx region i n j cap. conv cb ctx region i n j cap = Some (Other_err e, ctx, region, 0)"
  shows "(\<exists>st al'. schc_al_process cfg sdk conv ns reads al = Some (st, al')) \<longleftrightarrow> be16_at p 44 \<le> 216"
proof -
  define al1 where "al1 = al\<lparr>event := clear_flag (event al) IP_PACKET_AVAILABLE, processing_required := False\<rparr>"
  define b where "b = poke (net_buffer al) 0 p"
  note p = assms(8) [unfolded coap_in_udp_def]
  obtain n where n: "unat n = be16_at p 44 - 8"
    and down: "schc_al_send_down cfg sdk conv ns reads al1 =
      do { (len, al) \<leftarrow> convert_down cfg sdk conv (ucast (n :: u16)) (al1\<lparr>net_buffer := b\<rparr>);
           case len of None \<Rightarrow> Some (SEND_DOWN_OSCORE_ERROR, al) | Some k \<Rightarrow> transmit ns k al }"
    using send_down_coap [of cfg al1 reads p sdk conv ns] assms by (auto simp: al1_def b_def)
  have b: "length b = 256"
    using p assms(6) by (simp add: b_def)
  have u: "unat (ucast n :: u64) = unat n"
    using u16_less [of n] by (simp add: unsigned_ucast_eq take_bit_nat_eq_self)
  have n_le: "unat n \<le> 65527"
    using n be16_at_less [of p 44] by simp
  obtain p' where p': "update_ip6_udp_len b (ucast n) = Some p'"
    using update_len_eq [of b "ucast n"] b by auto
  then have fields: "length p' = 256" "be16_at p' 44 = 8 + unat n"
    using update_len_fields [of b "ucast n" p'] b u n_le by auto
  have run: "convert_down cfg sdk conv (ucast n) (al1\<lparr>net_buffer := b\<rparr>) =
      (case update_udp_checksum p' of None \<Rightarrow> None
       | Some q \<Rightarrow> Some (Some (48 + unat n), al1\<lparr>proxy := (proxy al)\<lparr>osc_ctx := osc_ctx (proxy al)\<rparr>, net_buffer := q\<rparr>))"
    using convert_down_failed [where al = "al1\<lparr>net_buffer := b\<rparr>" and r = "Other_err e" and conv = conv and sdk = sdk
        and n = n and ctx' = "osc_ctx (proxy al1)" and region = b and m = 0 and cfg = cfg] b assms(2,9) p'
    by (simp add: Let_def al1_def split: option.split)
  have proc: "schc_al_process cfg sdk conv ns reads al = schc_al_send_down cfg sdk conv ns reads al1"
    using assms(3) by (simp add: schc_al_process_def al1_def)
  show ?thesis
  proof (cases "update_udp_checksum p'")
    case None
    then have "\<not> 40 + be16_at p' 44 \<le> 256"
      using update_udp_checksum_Some_iff [of p'] fields(1) by simp
    then show ?thesis
      using None n fields(2) p by (simp add: proc down run)
  next
    case (Some q)
    then have "40 + be16_at p' 44 \<le> 256"
      using update_udp_checksum_Some_iff [of p'] fields(1) by simp
    moreover from this have "length q = 256"
      using update_udp_checksum_correct [of p'] fields Some by auto
    ultimately show ?thesis
      using Some n fields(2) p transmit_in_bounds [of "48 + unat n" "al1\<lparr>proxy := (proxy al)\<lparr>osc_ctx := osc_ctx (proxy al)\<rparr>, net_buffer := q\<rparr>" ns]
      by (auto simp: proc down run)
  qed
qed

lemma unchecked_udp_length_witness:
  "(\<exists>st al'. schc_al_process (example_cfg\<lparr>oscore_drop_on_error := False\<rparr>)
       (\<lambda>cap out x. (COMP_RULES_NOT_FOUND_ERR, out, 0))
       (\<lambda>cb ctx region i n j cap. Some (Other_err 3, ctx, region, 0)) example_sendto
       [Read (example_packet[44 := 1])] example_read = Some (st, al'))
    \<longleftrightarrow> be16_at (example_packet[44 := 1]) 44 \<le> 216"
proof (rule unchecked_udp_length)
  show "read_tun [Read (example_packet[44 := 1])] = Some (Read (example_packet[44 := 1]))" by simp
  show "coap_in_udp (example_packet[44 := 1])" by code_simp
  show "oscore_proxy_enabled (example_cfg\<lparr>oscore_drop_on_error := False\<rparr>)"
    "has_flag (event example_read) IP_PACKET_AVAILABLE"
    "\<not> has_flag (event example_read) ONGOING_TRANSMISSION" "0 \<le> tun_fd example_read"
    "length (net_buffer example_read) = 256" by code_simp+
qed simp_all

end
