(* ===== verification/Schc_Al_Lifecycle.thy ===== *)
theory Schc_Al_Lifecycle
  imports Schc_Al_Props
begin

text \<open>
  The adaptation layer from start to stop, and the packets it writes to the TUN device: what
  \<open>schc_al_init\<close> and \<open>schc_al_terminate\<close> leave open, and the uplink path \<open>schc_al_forward_up\<close>.
\<close>

section \<open>Initialisation and termination\<close>

definition secured :: "al_config \<Rightarrow> (init_params \<Rightarrow> err \<times> 'ctx) \<Rightarrow> 'ctx al \<Rightarrow> bool" where
  "secured cfg ctx_init al \<longleftrightarrow> oscore_proxy_enabled cfg \<longrightarrow>
     map_option fst (oscore_security_context_init (schc_peer_mode cfg) ctx_init
       (oscore_master_secret cfg) 16 (oscore_master_salt cfg) 16 (proxy al)) = Some True"

lemma close_tun_fields [simp]:
  "tun_fd (close_tun al) = -1" "closed (close_tun al) = closed al @ [tun_fd al]" "fds (close_tun al) = fds al"
  by (simp_all add: close_tun_def)

lemma run_cmd_fields:
  "run_cmd sys c al = (rc, al') \<Longrightarrow> tun_fd al' = tun_fd al \<and> closed al' = closed al \<and> fds al' = fds al"
  by (auto simp: run_cmd_def Let_def split: if_splits)

lemma init_effect:
  assumes "schc_al_init cfg ctx_init fd ioctl sys al = Some (rc, al')" and "tun_fd al = -1"
  shows "(rc = 0 \<longrightarrow> tun_fd al' = fd \<and> closed al' = closed al
      \<and> watch_fd_for_input fd (Some Tun_received) (fds al) = (True, fds al'))
    \<and> (rc \<noteq> 0 \<longrightarrow> rc = -1 \<and> tun_fd al' = -1
      \<and> closed al' = closed al @ (if secured cfg ctx_init al \<and> 0 \<le> fd then [fd] else [])
      \<and> (fds al' = fds al \<or> watch_fd_for_input fd (Some Tun_received) (fds al) = (False, fds al')))"
  using assms
  by (auto simp: schc_al_init_def Let_def secured_def create_tun_def
      split: Option.bind_split_asm if_split_asm prod.split_asm option.split_asm dest!: run_cmd_fields)

text \<open>C21: A failing \<open>schc_al_init\<close> leaves no descriptor open and the watched descriptors as they
  were: the TUN descriptor, if it got that far, is closed exactly once. After a successful one the
  TUN descriptor is watched, and \<open>schc_al_terminate\<close> closes it and restores the watched
  descriptors.\<close>

theorem init_terminate_restores:
  assumes "tun_fd al = -1" "watch_inv (fds al)"
    and "schc_al_init cfg ctx_init fd ioctl sys al = Some (rc, al1)"
    and "schc_al_terminate al1 = (r, al2)"
  shows "if rc = 0
    then tun_fd al1 = fd \<and> closed al1 = closed al
      \<and> watched (fds al1) = (watched (fds al))(fd \<mapsto> Some Tun_received)
      \<and> tun_fd al2 = -1 \<and> closed al2 = closed al @ [fd] \<and> watched (fds al2) = watched (fds al)
      \<and> \<not> processing_required al2 \<and> event al2 = NO_EVENT
    else rc = -1 \<and> tun_fd al1 = -1 \<and> watched (fds al1) = watched (fds al)
      \<and> closed al1 = closed al @ (if secured cfg ctx_init al \<and> 0 \<le> fd then [fd] else [])"
proof (cases "rc = 0")
  case True
  note init = init_effect [OF assms(3,1)]
  have w: "watch_fd_for_input fd (Some Tun_received) (fds al) = (True, fds al1)"
    using init True by blast
  then have "0 \<le> fd"
    using fds.watch_result [OF assms(2), of fd "Some Tun_received"] by simp
  moreover have "watched (snd (unwatch_fd_for_input fd (fds al1))) = watched (fds al)"
    using fds.unwatch_watch_lookup [OF assms(2), of fd "Some Tun_received"] w by simp
  ultimately show ?thesis
    using True init assms(4) fds.watch_lookup [OF assms(2), of fd "Some Tun_received"] w
    by (auto simp: schc_al_terminate_def Let_def)
next
  case False
  note init = init_effect [OF assms(3,1)]
  have "watched (fds al1) = watched (fds al)"
    using init False fds.watch_lookup [OF assms(2), of fd "Some Tun_received"] by auto
  with False init show ?thesis
    by simp
qed

theorem init_terminate_restores_witness:
  "if (0 :: int) = 0
    then tun_fd example_up = 5 \<and> closed example_up = closed example_al
      \<and> watched (fds example_up) = (watched (fds example_al))(5 \<mapsto> Some Tun_received)
      \<and> tun_fd (snd (schc_al_terminate example_up)) = -1
      \<and> closed (snd (schc_al_terminate example_up)) = closed example_al @ [5]
      \<and> watched (fds (snd (schc_al_terminate example_up))) = watched (fds example_al)
      \<and> \<not> processing_required (snd (schc_al_terminate example_up))
      \<and> event (snd (schc_al_terminate example_up)) = NO_EVENT
    else (0 :: int) = -1 \<and> tun_fd example_up = -1 \<and> watched (fds example_up) = watched (fds example_al)
      \<and> closed example_up = closed example_al
        @ (if secured example_cfg (\<lambda>p. (Ok, ())) example_al \<and> 0 \<le> (5 :: int) then [5] else [])"
  by (rule init_terminate_restores [where ioctl = Some and sys = "\<lambda>c. True" and
        r = "fst (schc_al_terminate example_up)"])
    (simp_all add: example_up_ok flip: example_run_def, simp_all add: example_al_def)

section \<open>The uplink\<close>

definition up_cb :: "sdk_codec \<Rightarrow> u16 \<Rightarrow> 'ctx proxy \<Rightarrow> plaintext_cb option" where
  "up_cb sdk stack px =
     (if oscore_inner_schc_enabled px then Some (oscore_msg_inner_decompression sdk stack) else None)"

text \<open>An IPv6/UDP packet with a CoAP version and a UDP segment inside the packet.\<close>

definition coap_received :: "memory \<Rightarrow> bool" where
  "coap_received p \<longleftrightarrow> 49 \<le> length p \<and> drop_bit 4 (p ! 0) = IPv6_VERSION \<and> p ! 6 = IPPROTO_UDP
     \<and> p ! 48 AND COAP_VERSION_MASK = COAP_VERSION_1 \<and> 9 \<le> be16_at p 44 \<and> 40 + be16_at p 44 \<le> length p"

lemma forward_up_coap:
  assumes "oscore_proxy_enabled cfg" "0 \<le> tun_fd al" "unat sz = length p" "coap_received p"
    and "unat n = be16_at p 44 - 8"
    and "conv (up_cb sdk stack (proxy al)) (osc_ctx (proxy al)) p 48 n 48 (ucast n) = Some (r, ctx', region, m)"
  shows "schc_al_forward_up cfg sdk stack conv ok p sz al =
    (let al' = al\<lparr>proxy := (proxy al)\<lparr>osc_ctx := ctx'\<rparr>\<rparr> in
     if r = Ok then
       do { buf \<leftarrow> update_ip6_udp_len region (ucast m); buf \<leftarrow> update_udp_checksum buf;
            write_tun ok buf (ucast (48 + m)) al' }
     else if r = Not_oscore_pkt then write_tun ok region sz al'
     else Some (-1, region, al'))"
proof -
  note p = assms(4) [unfolded coap_received_def]
  have "sz \<noteq> 0"
    using assms(3) p by (metis le_zero_eq unsigned_0 not_numeral_le_zero)
  moreover have "is_ipv6_udp_packet (Some p) (unat sz) = Some True"
    using p assms(3) by (subst is_ipv6_udp_packet_eq) simp_all
  moreover have "ipv6_udp_payload_len p = Some n"
  proof -
    obtain n' where "ipv6_udp_payload_len p = Some n'" "unat n' = unat n"
      using payload_len_eq [of p] p assms(5) by auto
    then show ?thesis
      by (simp add: unsigned_word_eqI)
  qed
  moreover have "is_coap_packet (drop 48 p) (unat sz) = Some True"
    using p assms(3) by (cases p) (simp_all add: is_coap_packet_def peek_def)
  moreover have "(ucast (ucast n :: u32) :: u16) = n"
    by (intro unsigned_word_eqI [where 'a = nat]) (simp add: unat_ucast_32_16 unat_ucast_16_32 u16_less)
  moreover have "oscore_to_coap sdk stack conv (proxy al) p 48 n 48 (ucast n) =
      Some (uoscore_err_to_res r, (proxy al)\<lparr>osc_ctx := ctx'\<rparr>, region, m)"
    using assms(6) by (simp add: oscore_to_coap_def up_cb_def)
  ultimately show ?thesis
    using assms(1,2)
    by (cases r) (simp_all add: schc_al_forward_up_def header_sizes Let_def)
qed

lemma packet_received:
  assumes "oscore_proxy_enabled cfg" "conv_contract conv" "0 \<le> tun_fd al"
    and "unat sz = length p" "coap_received p"
    and "conv (up_cb sdk stack (proxy al)) (osc_ctx (proxy al)) p 48 (of_nat (be16_at p 44 - 8)) 48
      (of_nat (be16_at p 44 - 8)) = Some (r, ctx', region, m)"
  shows "length region = length p" and "r = Ok \<Longrightarrow> 48 + unat m \<le> length p"
    and "r \<noteq> Ok \<Longrightarrow> schc_al_forward_up cfg sdk stack conv True p sz al =
      (let al' = al\<lparr>proxy := (proxy al)\<lparr>osc_ctx := ctx'\<rparr>\<rparr> in
       if r = Not_oscore_pkt then Some (0, region, al'\<lparr>written := written al @ [region]\<rparr>) else Some (-1, region, al'))"
    and "r = Ok \<Longrightarrow> \<exists>buf q. schc_al_forward_up cfg sdk stack conv True p sz al =
        Some (0, buf, al\<lparr>proxy := (proxy al)\<lparr>osc_ctx := ctx'\<rparr>, written := written al @ [q]\<rparr>)
      \<and> length q = 48 + unat m \<and> drop 48 q = take (unat m) (drop 48 region)
      \<and> (\<forall>i < 48. i \<notin> {4, 5, 44, 45, 46, 47} \<longrightarrow> q ! i = p ! i)
      \<and> be16_at q 4 = 8 + unat m \<and> udp_checksum_ok q
      \<and> is_ipv6_udp_packet (Some q) (48 + unat m) = Some True
      \<and> ipv6_udp_payload_len q = Some (of_nat (unat m))"
proof -
  note p = assms(5) [unfolded coap_received_def]
  define n :: u16 where "n = of_nat (be16_at p 44 - 8)"
  have n: "unat n = be16_at p 44 - 8"
    using be16_at_less [of p 44] by (simp add: n_def unat_of_nat_small)
  have un: "unat (ucast n :: u32) = unat n"
    by (rule unat_ucast_16_32)
  then have "(ucast n :: u32) = of_nat (be16_at p 44 - 8)"
    using word_eq_of_nat [of "ucast n :: u32"] n by simp
  then have conv: "conv (up_cb sdk stack (proxy al)) (osc_ctx (proxy al)) p 48 n 48 (ucast n) = Some (r, ctx', region, m)"
    using assms(6) by (simp add: n_def)
  have "48 + unat n \<le> length p \<and> 48 + unat (ucast n :: u32) \<le> length p"
    using p n un by simp
  then have region: "length region = length p" "\<forall>i < 48. region ! i = p ! i" "r = Ok \<longrightarrow> unat m \<le> unat n"
    using assms(2) [unfolded conv_contract_def, rule_format, of 48 n p 48 "ucast n"
        "up_cb sdk stack (proxy al)" "osc_ctx (proxy al)" r ctx' region m] conv p un
    by (simp_all add: word_le_nat_alt)
  note run = forward_up_coap [where conv = conv and n = n and r = r and ok = True, OF assms(1,3,4,5) n conv]
  show "length region = length p"
    by (rule region(1))
  show "48 + unat m \<le> length p" if "r = Ok"
    using that region(3) n p by linarith
  show "schc_al_forward_up cfg sdk stack conv True p sz al =
      (let al' = al\<lparr>proxy := (proxy al)\<lparr>osc_ctx := ctx'\<rparr>\<rparr> in
       if r = Not_oscore_pkt then Some (0, region, al'\<lparr>written := written al @ [region]\<rparr>) else Some (-1, region, al'))"
    if "r \<noteq> Ok"
    using that run region(1) assms(4) by (simp add: Let_def write_tun_def load_def)
  assume Ok: "r = Ok"
  have m: "unat m \<le> unat n" "unat n + 48 \<le> length p" "length p < 65536"
    using Ok region(3) n p assms(4) u16_less [of sz] by simp_all
  obtain p' q where q: "update_ip6_udp_len region (ucast m) = Some p'" "update_udp_checksum p' = Some q"
      "length q = length p" "\<forall>i < length p. i \<notin> {4, 5, 44, 45, 46, 47} \<longrightarrow> q ! i = region ! i"
      "be16_at q 4 = 8 + unat m" "udp_checksum_ok (take (48 + unat m) q)"
      "is_ipv6_udp_packet (Some (take (48 + unat m) q)) (48 + unat m) = Some True"
      "ipv6_udp_payload_len (take (48 + unat m) q) = Some (of_nat (unat m))"
    using finish_packet [of "ucast m" region] region(1,2) m p by (auto simp: unat_ucast_32_64)
  define k where "k = take (48 + unat m) q"
  have "unat (48 + m :: u32) = 48 + unat m"
    using m by (simp add: unat_word_ariths)
  then have "unat (ucast (48 + m :: u32) :: u16) = 48 + unat m"
    using m by (simp add: unat_ucast_32_16)
  then have load: "load q 0 (unat (ucast (48 + m :: u32) :: u16)) = Some k"
    using m q(3) by (simp add: load_def k_def)
  have k: "length k = 48 + unat m"
    using m q(3) by (simp add: k_def)
  have "k ! i = p ! i" if "i < 48" "i \<notin> {4, 5, 44, 45, 46, 47}" for i
    using q(4) region(2) that p by (simp add: k_def)
  moreover have "drop 48 k = take (unat m) (drop 48 region)"
    using q(3,4) m region(1) by (intro nth_equalityI) (simp_all add: k_def)
  moreover have "be16_at k 4 = 8 + unat m"
    using k q(5) be16_at_eqI [of 4 k q] by (simp add: k_def)
  ultimately show "\<exists>buf q. schc_al_forward_up cfg sdk stack conv True p sz al =
        Some (0, buf, al\<lparr>proxy := (proxy al)\<lparr>osc_ctx := ctx'\<rparr>, written := written al @ [q]\<rparr>)
      \<and> length q = 48 + unat m \<and> drop 48 q = take (unat m) (drop 48 region)
      \<and> (\<forall>i < 48. i \<notin> {4, 5, 44, 45, 46, 47} \<longrightarrow> q ! i = p ! i)
      \<and> be16_at q 4 = 8 + unat m \<and> udp_checksum_ok q
      \<and> is_ipv6_udp_packet (Some q) (48 + unat m) = Some True
      \<and> ipv6_udp_payload_len q = Some (of_nat (unat m))"
    using Ok run q(1,2,6-8) load k
    by (intro exI [of _ q] exI [of _ k]) (simp add: Let_def write_tun_def flip: k_def)
qed

text \<open>C8: What happens to a CoAP packet delivered by the stack depends on the library's verdict
  alone. Decrypted: the packet written to the TUN device has the 48 header bytes and the reported
  payload, consistent length fields, a valid checksum, and the addresses and ports of the packet
  received. Not OSCORE: the packet is passed on at its size. Any other error: nothing is
  written.\<close>

theorem received_packet_written:
  assumes "oscore_proxy_enabled cfg" "conv_contract conv" "0 \<le> tun_fd al"
    and "unat sz = length p" "coap_received p"
    and "conv (up_cb sdk stack (proxy al)) (osc_ctx (proxy al)) p 48 (of_nat (be16_at p 44 - 8)) 48
      (of_nat (be16_at p 44 - 8)) = Some (r, ctx', region, m)"
  shows "\<exists>rc buf al'. schc_al_forward_up cfg sdk stack conv True p sz al = Some (rc, buf, al')
    \<and> (case r of
        Ok \<Rightarrow> rc = 0 \<and> (\<exists>q. written al' = written al @ [q] \<and> length q = 48 + unat m
          \<and> drop 48 q = take (unat m) (drop 48 region)
          \<and> is_ipv6_udp_packet (Some q) (length q) = Some True
          \<and> be16_at q 4 = 8 + unat m \<and> ipv6_udp_payload_len q = Some (of_nat (unat m))
          \<and> udp_checksum_ok q
          \<and> take 32 (drop 8 q) = take 32 (drop 8 p) \<and> be16_at q 40 = be16_at p 40 \<and> be16_at q 42 = be16_at p 42)
      | Not_oscore_pkt \<Rightarrow> rc = 0 \<and> buf = region \<and> written al' = written al @ [region]
      | _ \<Rightarrow> rc = -1 \<and> written al' = written al)"
proof -
  note received = packet_received [OF assms]
  have p: "48 \<le> length p"
    using assms(5) by (simp add: coap_received_def)
  show ?thesis
  proof (cases "r = Ok")
    case True
    with received(4) obtain buf q where q:
      "schc_al_forward_up cfg sdk stack conv True p sz al =
        Some (0, buf, al\<lparr>proxy := (proxy al)\<lparr>osc_ctx := ctx'\<rparr>, written := written al @ [q]\<rparr>)"
      "length q = 48 + unat m" "drop 48 q = take (unat m) (drop 48 region)"
      "\<forall>i < 48. i \<notin> {4, 5, 44, 45, 46, 47} \<longrightarrow> q ! i = p ! i" "be16_at q 4 = 8 + unat m" "udp_checksum_ok q"
      "is_ipv6_udp_packet (Some q) (48 + unat m) = Some True" "ipv6_udp_payload_len q = Some (of_nat (unat m))"
      by blast
    then show ?thesis
      using True header_bytes_kept [OF q(4)] p by simp
  next
    case False
    then show ?thesis
      using received(3) by (cases r) (simp_all add: Let_def)
  qed
qed

theorem received_packet_written_witness:
  "\<exists>rc buf al'. schc_al_forward_up example_cfg (\<lambda>cap out x. (COMP_RULES_NOT_FOUND_ERR, out, 0)) 7
      (\<lambda>cb ctx region i n j cap. Some (Not_oscore_pkt, ctx, region, cap)) True example_packet 49 example_up =
      Some (rc, buf, al')
    \<and> (case Not_oscore_pkt of
        Ok \<Rightarrow> rc = 0 \<and> (\<exists>q. written al' = written example_up @ [q] \<and> length q = 48 + unat (1 :: u32)
          \<and> drop 48 q = take (unat (1 :: u32)) (drop 48 example_packet)
          \<and> is_ipv6_udp_packet (Some q) (length q) = Some True
          \<and> be16_at q 4 = 8 + unat (1 :: u32) \<and> ipv6_udp_payload_len q = Some (of_nat (unat (1 :: u32)))
          \<and> udp_checksum_ok q
          \<and> take 32 (drop 8 q) = take 32 (drop 8 example_packet)
          \<and> be16_at q 40 = be16_at example_packet 40 \<and> be16_at q 42 = be16_at example_packet 42)
      | Not_oscore_pkt \<Rightarrow> rc = 0 \<and> buf = example_packet \<and> written al' = written example_up @ [example_packet]
      | _ \<Rightarrow> rc = -1 \<and> written al' = written example_up)"
proof (rule received_packet_written [where ctx' = "()"])
  show "conv_contract (\<lambda>cb (ctx :: unit) region i n j cap. Some (Not_oscore_pkt, ctx, region, cap))"
    by (auto simp: conv_contract_def)
  show "oscore_proxy_enabled example_cfg" "0 \<le> tun_fd example_up"
    "unat (49 :: u16) = length example_packet" "coap_received example_packet" by code_simp+
  have "of_nat (be16_at example_packet 44 - 8) = (1 :: u32)" by code_simp
  then show "Some (Not_oscore_pkt, osc_ctx (proxy example_up), example_packet, of_nat (be16_at example_packet 44 - 8)) =
      Some (Not_oscore_pkt, (), example_packet, 1 :: u32)"
    by simp
qed

text \<open>C24: \<open>schc_al_forward_up\<close> hands \<open>is_coap_packet\<close> the size of the whole packet, not that of the
  CoAP part: a UDP packet that ends with its headers is read one byte past its end. For a buffer of
  exactly the delivered size and without the proxy this is the only access out of bounds.\<close>

theorem forward_up_overread:
  assumes "\<not> oscore_proxy_enabled cfg" "unat sz = length p" "0 \<le> tun_fd al"
  shows "schc_al_forward_up cfg sdk stack conv ok p sz al = None \<longleftrightarrow>
    length p = 48 \<and> drop_bit 4 (p ! 0) = IPv6_VERSION \<and> p ! 6 = IPPROTO_UDP"
proof (cases "sz = 0")
  case False
  define udp where "udp \<longleftrightarrow> 48 \<le> length p \<and> drop_bit 4 (p ! 0) = IPv6_VERSION \<and> p ! 6 = IPPROTO_UDP"
  have udp: "is_ipv6_udp_packet (Some p) (length p) = Some udp"
    using is_ipv6_udp_packet_eq [of "length p" p] by (simp add: udp_def)
  have w: "write_tun ok p sz al \<noteq> None"
    using assms(2) by (simp add: write_tun_def load_def)
  show ?thesis
  proof (cases "udp \<and> 48 < length p")
    case True
    then obtain n where n: "ipv6_udp_payload_len p = Some n"
      using payload_len_eq [of p] by auto
    have "is_coap_packet (drop 48 p) (length p) \<noteq> None"
      using True by (cases p) (simp_all add: is_coap_packet_def peek_def)
    then obtain c where c: "is_coap_packet (drop 48 p) (length p) = Some c"
      by blast
    have "schc_al_forward_up cfg sdk stack conv ok p sz al =
        (if c \<or> \<not> drop_non_coap cfg then write_tun ok p sz al else Some (0, p, al))"
      using True assms False udp n c by (simp add: schc_al_forward_up_def header_sizes Let_def)
    with True w show ?thesis
      by simp
  next
    case F: False
    show ?thesis
    proof (cases udp)
      case True
      then have len: "length p = 48"
        using F by (simp add: udp_def)
      obtain n where n: "ipv6_udp_payload_len p = Some n"
        using payload_len_eq [of p] len by auto
      have "is_coap_packet (drop 48 p) (length p) = None"
        using len by (simp add: is_coap_packet_def peek_def)
      then show ?thesis
        using True assms False udp n len by (simp add: schc_al_forward_up_def header_sizes udp_def)
    next
      case False
      then show ?thesis
        using assms udp \<open>sz \<noteq> 0\<close> by (auto simp: schc_al_forward_up_def udp_def)
    qed
  qed
qed (use assms in \<open>simp add: schc_al_forward_up_def\<close>)

theorem forward_up_overread_witness:
  "schc_al_forward_up (example_cfg\<lparr>oscore_proxy_enabled := False\<rparr>) (\<lambda>cap out x. (COMP_RULES_NOT_FOUND_ERR, out, 0)) 7
      example_conv True (take 48 example_packet) 48 example_up = None \<longleftrightarrow>
    length (take 48 example_packet) = 48 \<and> drop_bit 4 (take 48 example_packet ! 0) = IPv6_VERSION
      \<and> take 48 example_packet ! 6 = IPPROTO_UDP"
  by (rule forward_up_overread) code_simp+

end
