(* ===== verification/End_To_End.thy ===== *)
theory End_To_End
  imports Schc_Al_Lifecycle
begin

text \<open>
  Two adaptation layers at the two ends of a link: what the host of one end puts into its TUN
  device, and what comes out of the TUN device of the other. The models of \<open>schc_al_process\<close> and
  \<open>net_data_received\<close> are composed with the OSCORE library and the SCHC stack in between, which are
  parameters with contracts.
\<close>

section \<open>Contracts\<close>

text \<open>
  The OSCORE library at the two ends. \<open>sync c d\<close>: the receiver \<open>d\<close> expects what the sender
  \<open>c\<close> protects next. A protected message is a CoAP message; unprotecting it, wherever it lies, gives the
  original back when the announced room is enough for it, and the error for small buffers otherwise.
\<close>

definition osc_channel :: "('c \<Rightarrow> 'd \<Rightarrow> bool) \<Rightarrow> 'c osc_conv \<Rightarrow> 'd osc_conv \<Rightarrow> bool" where
  "osc_channel sync down up \<longleftrightarrow>
     (\<forall>f g c d region i n j cap c' region' m.
        inner_pair f g \<and> sync c d \<and> 1 \<le> unat n \<and> unat n \<le> 208 \<and> i + unat n \<le> length region
          \<and> j + unat cap \<le> length region \<and> down f c region i n j cap = Some (Ok, c', region', m) \<longrightarrow>
        1 \<le> unat m \<and> region' ! j AND COAP_VERSION_MASK = COAP_VERSION_1 \<and>
        (\<forall>mem i2 n2 j2 cap2.
           i2 + unat n2 \<le> length mem \<and> j2 + unat cap2 \<le> length mem \<and> unat n2 = unat m
             \<and> take (unat n2) (drop i2 mem) = take (unat m) (drop j region') \<longrightarrow>
           (\<exists>d' mem' k. up g d mem i2 n2 j2 cap2 =
                Some (if unat n \<le> unat cap2 then Ok else Buffer_to_small, d', mem', k)
              \<and> (unat n \<le> unat cap2 \<longrightarrow> sync c' d' \<and> unat k = unat n
                  \<and> take (unat n) (drop j2 mem') = take (unat n) (drop i region)))))"

text \<open>
  The SCHC stack between the ends: the packet arrives with its size and its bytes, up to the flow
  label and the hop limit, which the compression rules do not carry.
\<close>

definition schc_link :: "(memory \<Rightarrow> memory) \<Rightarrow> bool" where
  "schc_link link \<longleftrightarrow> (\<forall>q. length (link q) = length q \<and> (\<forall>i < length q. i \<notin> {1, 2, 3, 7} \<longrightarrow> link q ! i = q ! i))"

text \<open>An IPv6/UDP/CoAP packet of consistent lengths, and the packet the other host gets for it.\<close>

definition coap_datagram :: "memory \<Rightarrow> bool" where
  "coap_datagram p \<longleftrightarrow> coap_in_udp p \<and> be16_at p 4 = be16_at p 44 \<and> length p = 40 + be16_at p 44"

definition same_datagram :: "memory \<Rightarrow> memory \<Rightarrow> bool" where
  "same_datagram p w \<longleftrightarrow> length w = length p \<and> (\<forall>i < length p. i \<notin> {1, 2, 3, 7, 46, 47} \<longrightarrow> w ! i = p ! i)
     \<and> udp_checksum_ok w"

section \<open>One packet\<close>

record ('c, 'd) ends =
  sender :: "'c al"
  receiver :: "'d al"

record ('c, 'd) path =
  sender_cfg :: al_config
  receiver_cfg :: al_config
  compress :: sdk_codec
  decompress :: sdk_codec
  protect :: "'c osc_conv"
  unprotect :: "'d osc_conv"
  stack_sendto :: net_sendto
  stack_link :: "memory \<Rightarrow> memory"
  stack_garbage :: u16

text \<open>The packets handed to the stack are delivered one after the other.\<close>

fun deliver :: "('c, 'd) path \<Rightarrow> memory list \<Rightarrow> 'd al \<Rightarrow> 'd al ub" where
  "deliver h [] r = Some r"
| "deliver h (q # qs) r =
     do {
       (buf, r) \<leftarrow> net_data_received (receiver_cfg h) (decompress h) (stack_garbage h) (unprotect h) True
         (stack_link h q) (of_nat (length q)) NET_SUCCESS r;
       deliver h qs r
     }"

text \<open>The host of the sender writes a packet: the descriptor becomes readable, the packet is
  processed and delivered, and the stack reports the end of the transmission.\<close>

definition transfer :: "('c, 'd) path \<Rightarrow> memory \<Rightarrow> ('c, 'd) ends \<Rightarrow> ('c, 'd) ends ub" where
  "transfer h p e =
     do {
       (st, s) \<leftarrow> schc_al_process (sender_cfg h) (compress h) (protect h) (stack_sendto h) [Read p]
         (schc_al_tun_received_handler (sender e));
       r \<leftarrow> deliver h (drop (length (sent (sender e))) (sent s)) (receiver e);
       Some \<lparr>sender = net_transmission_result NET_SUCCESS 0 s, receiver = r\<rparr>
     }"

fun transfers :: "('c, 'd) path \<Rightarrow> memory list \<Rightarrow> ('c, 'd) ends \<Rightarrow> ('c, 'd) ends ub" where
  "transfers h [] e = Some e"
| "transfers h (p # ps) e = do { e \<leftarrow> transfer h p e; transfers h ps e }"

text \<open>Both ends are up and idle, and agree on the security context and on inner compression.\<close>

definition both_ready :: "('c \<Rightarrow> 'd \<Rightarrow> bool) \<Rightarrow> ('c, 'd) ends \<Rightarrow> bool" where
  "both_ready sync e \<longleftrightarrow> 0 \<le> tun_fd (sender e) \<and> 0 \<le> tun_fd (receiver e) \<and> length (net_buffer (sender e)) = 256
     \<and> \<not> has_flag (event (sender e)) ONGOING_TRANSMISSION \<and> sync (osc_ctx (proxy (sender e))) (osc_ctx (proxy (receiver e)))
     \<and> oscore_inner_schc_enabled (proxy (sender e)) = oscore_inner_schc_enabled (proxy (receiver e))"

definition sound_path :: "('c \<Rightarrow> 'd \<Rightarrow> bool) \<Rightarrow> ('c, 'd) path \<Rightarrow> bool" where
  "sound_path sync h \<longleftrightarrow> oscore_proxy_enabled (sender_cfg h) \<and> oscore_proxy_enabled (receiver_cfg h)
     \<and> conv_contract (protect h) \<and> conv_contract (unprotect h) \<and> osc_channel sync (protect h) (unprotect h)
     \<and> codec_pair (compress h) (decompress h) \<and> schc_link (stack_link h)
     \<and> (\<forall>q. fst (stack_sendto h q) = NET_SUCCESS)"

section \<open>The sender\<close>

lemma transmit_accepted:
  assumes "load (net_buffer al) 0 n = Some q" and "fst (ns q) = NET_SUCCESS"
  shows "\<exists>al'. transmit ns n al = Some (SEND_DOWN_OK, al') \<and> sent al' = sent al @ [q] \<and> proxy al' = proxy al
    \<and> tun_fd al' = tun_fd al \<and> net_buffer al' = net_buffer al"
  using assms by (cases "ns q") (simp add: transmit_def call_net_sendto_def Let_def)

lemma handler_fields [simp]:
  "sent (schc_al_tun_received_handler al) = sent al" "proxy (schc_al_tun_received_handler al) = proxy al"
  "tun_fd (schc_al_tun_received_handler al) = tun_fd al"
  "net_buffer (schc_al_tun_received_handler al) = net_buffer al"
  "has_flag (event (schc_al_tun_received_handler al)) IP_PACKET_AVAILABLE"
  "has_flag (event (schc_al_tun_received_handler al)) ONGOING_TRANSMISSION = has_flag (event al) ONGOING_TRANSMISSION"
  by (simp_all add: schc_al_tun_received_handler_def)

lemma result_fields [simp]:
  "sent (net_transmission_result st er al) = sent al" "proxy (net_transmission_result st er al) = proxy al"
  "tun_fd (net_transmission_result st er al) = tun_fd al"
  "net_buffer (net_transmission_result st er al) = net_buffer al"
  "\<not> has_flag (event (net_transmission_result st er al)) ONGOING_TRANSMISSION"
  by (simp_all add: net_transmission_result_def)

lemma datagram_fields:
  assumes "coap_datagram p"
  shows "9 \<le> be16_at p 44" "be16_at p 44 \<le> 216" "length p = 40 + be16_at p 44" "coap_in_udp p"
    and "be16_at p 4 = be16_at p 44" and "unat (of_nat (be16_at p 44 - 8) :: u16) = be16_at p 44 - 8"
proof -
  show "unat (of_nat (be16_at p 44 - 8) :: u16) = be16_at p 44 - 8"
    using be16_at_less [of p 44] by (intro unat_of_nat_small) simp
qed (use assms in \<open>auto simp: coap_datagram_def coap_in_udp_def\<close>)

lemma inner_callbacks_pair:
  assumes "codec_pair c d" and "oscore_inner_schc_enabled px = oscore_inner_schc_enabled qx"
  shows "inner_pair (down_cb c px) (up_cb d stack qx)"
proof (cases "oscore_inner_schc_enabled px")
  case True
  then show ?thesis
    using assms(2) codec_inner_pair [OF assms(1), of stack] by (simp only: down_cb_def up_cb_def if_True)
qed (use assms(2) in \<open>simp add: down_cb_def up_cb_def inner_pair_def\<close>)

section \<open>The receiver\<close>

text \<open>What the stack delivers is a CoAP message for the receiver.\<close>

lemma linked_received:
  assumes "schc_link link" and "length q = 48 + m" "1 \<le> m" "m \<le> 208"
    and "is_ipv6_udp_packet (Some q) (48 + m) = Some True" and "ipv6_udp_payload_len q = Some (of_nat m)"
    and "q ! 48 AND COAP_VERSION_MASK = COAP_VERSION_1"
  shows "coap_received (link q)" and "be16_at (link q) 44 = 8 + m" and "drop 48 (link q) = drop 48 q"
proof -
  have l: "length (link q) = length q" "link q ! i = q ! i" if "i < length q" "i \<notin> {1, 2, 3, 7}" for i
    using assms(1) that unfolding schc_link_def by auto
  have len: "length (link q) = 48 + m"
    using assms(1,2) by (simp add: schc_link_def)
  have "unat (of_nat m :: u16) = be16_at q 44 - 8"
    using payload_len_eq [of q] assms(2,6) by auto
  then have "be16_at q 44 = 8 + m"
    using assms(3,4) by (simp add: unat_of_nat_small)
  moreover have "be16_at (link q) 44 = be16_at q 44"
    using l len assms(2) by (intro be16_at_eqI) simp_all
  ultimately show n: "be16_at (link q) 44 = 8 + m"
    by simp
  have "drop_bit 4 (q ! 0) = IPv6_VERSION \<and> q ! 6 = IPPROTO_UDP"
    using is_ipv6_udp_packet_eq [of "48 + m" q] assms(2,5) by simp
  then show "coap_received (link q)"
    using l n len assms(2,3,7) by (simp add: coap_received_def)
  show "drop 48 (link q) = drop 48 q"
    using l len assms(2) by (intro nth_equalityI) simp_all
qed

lemma two_digits:
  assumes "256 * a + b = 256 * c + d" and "b < 256" "d < 256"
  shows "a = c \<and> b = (d :: nat)"
proof -
  have "(256 * a + b) div 256 = (256 * c + d) div 256"
    by (simp only: assms(1))
  then have "a = c"
    using assms(2,3) by simp
  then show ?thesis
    using assms(1) by simp
qed

lemma be16_at_bytes:
  assumes "be16_at p i = be16_at q i"
  shows "p ! i = q ! i" and "p ! (i + 1) = q ! (i + 1)"
proof -
  have "256 * unat (p ! i) + unat (p ! (i + 1)) = 256 * unat (q ! i) + unat (q ! (i + 1))"
    using assms by (simp add: be16_at_def be_word_def)
  then have "unat (p ! i) = unat (q ! i) \<and> unat (p ! (i + 1)) = unat (q ! (i + 1))"
    by (rule two_digits) (rule byte_less)+
  then show "p ! i = q ! i" and "p ! (i + 1) = q ! (i + 1)"
    by (auto intro: unsigned_word_eqI [where 'a = nat])
qed

lemma same_datagramI:
  assumes "\<forall>i < 48. i \<notin> {1, 2, 3, 7, 4, 5, 44, 45, 46, 47} \<longrightarrow> w ! i = p ! i"
    and "drop 48 w = drop 48 p" "length p = 48 + n" "length w = 48 + n" "1 \<le> n" "n \<le> 208"
    and "be16_at p 4 = 8 + n" "be16_at p 44 = 8 + n" "be16_at w 4 = 8 + n"
    and "ipv6_udp_payload_len w = Some (of_nat n)" "udp_checksum_ok w"
  shows "same_datagram p w"
proof -
  have "unat (of_nat n :: u16) = be16_at w 44 - 8"
    using payload_len_eq [of w] assms(4,10) by auto
  then have "be16_at w 44 = be16_at p 44"
    using assms(5,6,8) by (simp add: unat_of_nat_small)
  then have len: "w ! 4 = p ! 4" "w ! 5 = p ! 5" "w ! 44 = p ! 44" "w ! 45 = p ! 45"
    using be16_at_bytes [of w 4 p] be16_at_bytes [of w 44 p] assms(7,9) by simp_all
  have tail: "w ! i = p ! i" if "48 \<le> i" "i < 48 + n" for i
  proof -
    have "drop 48 w ! (i - 48) = drop 48 p ! (i - 48)"
      by (simp only: assms(2))
    with that assms(3,4) show ?thesis
      by simp
  qed
  have "w ! i = p ! i" if "i < length p" "i \<notin> {1, 2, 3, 7, 46, 47}" for i
  proof (cases "i < 48")
    case True
    then show ?thesis
      using assms(1) that(2) len by (cases "i \<in> {4, 5, 44, 45}") auto
  qed (use tail that(1) assms(3) in simp)
  then show ?thesis
    using assms(3,4,11) by (simp add: same_datagram_def)
qed

section \<open>From one host to the other\<close>

lemma osc_channelD:
  assumes "osc_channel sync down up" and "inner_pair f g" "sync c d" "1 \<le> unat n" "unat n \<le> 208"
    and "i + unat n \<le> length region" "j + unat cap \<le> length region"
    and "down f c region i n j cap = Some (Ok, c', region', m)"
  shows "1 \<le> unat m" and "region' ! j AND COAP_VERSION_MASK = COAP_VERSION_1"
    and "\<lbrakk>i2 + unat n2 \<le> length mem; j2 + unat cap2 \<le> length mem; unat n2 = unat m;
        take (unat n2) (drop i2 mem) = take (unat m) (drop j region')\<rbrakk> \<Longrightarrow>
      \<exists>d' mem' k. up g d mem i2 n2 j2 cap2 =
          Some (if unat n \<le> unat cap2 then Ok else Buffer_to_small, d', mem', k)
        \<and> (unat n \<le> unat cap2 \<longrightarrow> sync c' d' \<and> unat k = unat n
            \<and> take (unat n) (drop j2 mem') = take (unat n) (drop i region))"
  using assms(1) [unfolded osc_channel_def, rule_format, of f g c d n i region j cap c' region' m] assms(2-)
  by blast+

lemma transfer_step:
  assumes "sound_path sync h" and "both_ready sync e" and p: "coap_datagram p"
    and conv: "protect h (down_cb (compress h) (proxy (sender e))) (osc_ctx (proxy (sender e)))
      (poke (net_buffer (sender e)) 0 p) 48 (of_nat (be16_at p 44 - 8)) 48 208 = Some (Ok, c', region, m)"
  shows "\<exists>e'. transfer h p e = Some e'
    \<and> (if be16_at p 44 - 8 \<le> unat m
       then both_ready sync e' \<and> proxy (sender e') = (proxy (sender e))\<lparr>osc_ctx := c'\<rparr>
         \<and> (\<exists>w. written (receiver e') = written (receiver e) @ [w] \<and> same_datagram p w)
       else written (receiver e') = written (receiver e))"
proof -
  define s n where "s = schc_al_tun_received_handler (sender e)" and "n = be16_at p 44 - 8"
  note h = assms(1) [unfolded sound_path_def] and rd = assms(2) [unfolded both_ready_def] and pf = datagram_fields [OF p]
  have n: "1 \<le> n" "n \<le> 208" "length p = 48 + n" "be16_at p 44 = 8 + n"
    using pf(1,2,3) by (simp_all add: n_def)
  have un: "unat (of_nat n :: u16) = n"
    using pf(6) by (simp add: n_def)
  \<comment> \<open>what is sent\<close>
  have pre: "oscore_proxy_enabled (sender_cfg h)" "conv_contract (protect h)" "has_flag (event s) IP_PACKET_AVAILABLE"
    "\<not> has_flag (event s) ONGOING_TRANSMISSION" "0 \<le> tun_fd s" "length (net_buffer s) = 256"
    "read_tun [Read p] = Some (Read p)" "coap_in_udp p" "be16_at p 44 \<le> 216"
    "protect h (down_cb (compress h) (proxy s)) (osc_ctx (proxy s)) (poke (net_buffer s) 0 p)
      48 (of_nat (be16_at p 44 - 8)) 48 208 = Some (Ok, c', region, m)"
    using h rd pf(2,4) conv by (simp_all add: s_def)
  obtain al1 q where q: "schc_al_process (sender_cfg h) (compress h) (protect h) (stack_sendto h) [Read p] s =
      transmit (stack_sendto h) (48 + unat m) al1"
    "load (net_buffer al1) 0 (48 + unat m) = Some q" "sent al1 = sent s"
    "proxy al1 = (proxy s)\<lparr>osc_ctx := c'\<rparr>" "tun_fd al1 = tun_fd s" "length (net_buffer al1) = 256"
    "length q = 48 + unat m" "unat m \<le> 208" "drop 48 q = take (unat m) (drop 48 region)"
    "\<forall>i < 48. i \<notin> {4, 5, 44, 45, 46, 47} \<longrightarrow> q ! i = p ! i"
    "is_ipv6_udp_packet (Some q) (48 + unat m) = Some True" "ipv6_udp_payload_len q = Some (of_nat (unat m))"
    by (rule packet_sent [OF pre, where ns = "stack_sendto h"])
  obtain al2 where al2: "transmit (stack_sendto h) (48 + unat m) al1 = Some (SEND_DOWN_OK, al2)"
    "sent al2 = sent al1 @ [q]" "proxy al2 = proxy al1" "tun_fd al2 = tun_fd al1" "net_buffer al2 = net_buffer al1"
    using transmit_accepted [OF q(2), of "stack_sendto h"] h by blast
  have new: "drop (length (sent (sender e))) (sent al2) = [q]"
    using al2(2) q(3) by (simp add: s_def)
  \<comment> \<open>what arrives\<close>
  define g where "g = up_cb (decompress h) (stack_garbage h) (proxy (receiver e))"
  have pair: "inner_pair (down_cb (compress h) (proxy (sender e))) g"
    unfolding g_def by (rule inner_callbacks_pair) (use h rd in auto)
  have buf: "length (poke (net_buffer (sender e)) 0 p) = 256" "take n (drop 48 (poke (net_buffer (sender e)) 0 p)) = drop 48 p"
    using rd n by (simp_all add: poke_def)
  have chan: "osc_channel sync (protect h) (unprotect h)" "sync (osc_ctx (proxy (sender e))) (osc_ctx (proxy (receiver e)))"
    "1 \<le> unat (of_nat n :: u16)" "unat (of_nat n :: u16) \<le> 208"
    "48 + unat (of_nat n :: u16) \<le> length (poke (net_buffer (sender e)) 0 p)"
    "48 + unat (208 :: u32) \<le> length (poke (net_buffer (sender e)) 0 p)"
    using h rd n un buf(1) by simp_all
  note ch = osc_channelD [OF chan(1) pair chan(2-6) conv [folded n_def]]
  define x where "x = stack_link h q"
  have first: "q ! 48 = region ! 48"
  proof -
    have "q ! 48 = (drop 48 q) ! 0"
      using q(7) by simp
    also have "\<dots> = drop 48 region ! 0"
      using ch(1) by (simp add: q(9))
    also have "\<dots> = region ! 48"
      using arg_cong [OF q(9), of length] q(7) ch(1) by simp
    finally show ?thesis .
  qed
  have x: "coap_received x" "be16_at x 44 = 8 + unat m" "drop 48 x = drop 48 q" "length x = 48 + unat m"
    using linked_received [of "stack_link h" q "unat m"] h q(7,8,11,12) ch(1,2) first
    by (simp_all add: x_def schc_link_def)
  have sz: "unat (of_nat (length q) :: u16) = length x"
  proof -
    have "length q < 2 ^ LENGTH(16)"
      using q(7,8) by simp
    from unat_of_nat_small [OF this] show ?thesis
      by (simp only: q(7) x(4))
  qed
  have um: "unat (of_nat (unat m) :: u16) = unat m" "(of_nat (unat m) :: u32) = m"
  proof -
    have "unat m < 2 ^ LENGTH(16)"
      using q(8) by simp
    then show "unat (of_nat (unat m) :: u16) = unat m"
      by (rule unat_of_nat_small)
  qed simp
  obtain d' mem k where up: "unprotect h g (osc_ctx (proxy (receiver e))) x 48 (of_nat (unat m)) 48 m =
      Some (if n \<le> unat m then Ok else Buffer_to_small, d', mem, k)"
    "n \<le> unat m \<longrightarrow> sync c' d' \<and> unat k = n \<and> take n (drop 48 mem) = drop 48 p"
    using ch(3) [of 48 "of_nat (unat m)" x 48 m] x(3,4) q(9) um un buf(2) by auto
  have rec: "oscore_proxy_enabled (receiver_cfg h)" "conv_contract (unprotect h)" "0 \<le> tun_fd (receiver e)"
    "unat (of_nat (length q) :: u16) = length x" "coap_received x"
    "unprotect h (up_cb (decompress h) (stack_garbage h) (proxy (receiver e))) (osc_ctx (proxy (receiver e))) x 48
      (of_nat (be16_at x 44 - 8)) 48 (of_nat (be16_at x 44 - 8)) =
      Some (if n \<le> unat m then Ok else Buffer_to_small, d', mem, k)"
    using h rd sz x(1,2) up(1) um(2) by (simp_all add: g_def)
  note received = packet_received [OF rec]
  show ?thesis
  proof (cases "n \<le> unat m")
    case False
    then have "schc_al_forward_up (receiver_cfg h) (decompress h) (stack_garbage h) (unprotect h) True x (of_nat (length q)) (receiver e) =
        Some (-1, mem, (receiver e)\<lparr>proxy := (proxy (receiver e))\<lparr>osc_ctx := d'\<rparr>\<rparr>)"
      using received(3) by (simp add: Let_def)
    then show ?thesis
      using False new q(1) al2(1)
      by (simp add: transfer_def net_data_received_def n_def flip: s_def x_def)
  next
    case True
    then obtain w buf where w: "schc_al_forward_up (receiver_cfg h) (decompress h) (stack_garbage h) (unprotect h) True x
        (of_nat (length q)) (receiver e) =
        Some (0, buf, (receiver e)\<lparr>proxy := (proxy (receiver e))\<lparr>osc_ctx := d'\<rparr>, written := written (receiver e) @ [w]\<rparr>)"
      "length w = 48 + unat k" "drop 48 w = take (unat k) (drop 48 mem)"
      "\<forall>i < 48. i \<notin> {4, 5, 44, 45, 46, 47} \<longrightarrow> w ! i = x ! i" "be16_at w 4 = 8 + unat k" "udp_checksum_ok w"
      "ipv6_udp_payload_len w = Some (of_nat (unat k))"
      using received(4) by auto
    have k: "unat k = n" "drop 48 w = drop 48 p"
      using True up(2) w(3) by simp_all
    have "x ! i = p ! i" if "i < 48" "i \<notin> {1, 2, 3, 7, 4, 5, 44, 45, 46, 47}" for i
      using that q(7,10) h by (simp add: x_def schc_link_def)
    then have "\<forall>i < 48. i \<notin> {1, 2, 3, 7, 4, 5, 44, 45, 46, 47} \<longrightarrow> w ! i = p ! i"
      using w(4) by simp
    then have "same_datagram p w"
      using same_datagramI [of w p n] n k w(2,5-7) pf(5) by simp
    then show ?thesis
      using True new q(1,3,4,5,6) al2 w(1) up(2) rd
      by (simp add: transfer_def net_data_received_def both_ready_def n_def [symmetric] flip: s_def x_def) (simp add: s_def)
  qed
qed


section \<open>A stream of packets\<close>

text \<open>
  What the library guarantees when it is not shortened by inner compression: \<open>fresh k c\<close> says that a
  context \<open>c\<close> has sequence numbers left for \<open>k\<close> messages; while it has, every message of at most
  \<open>limit\<close> bytes is protected, and not made shorter.
\<close>

definition protects :: "(nat \<Rightarrow> 'c \<Rightarrow> bool) \<Rightarrow> nat \<Rightarrow> plaintext_cb option \<Rightarrow> 'c osc_conv \<Rightarrow> bool" where
  "protects fresh limit f down \<longleftrightarrow>
     (\<forall>k c region i n j cap.
        fresh (Suc k) c \<and> 1 \<le> unat n \<and> unat n \<le> limit \<and> i + unat n \<le> length region \<and> j + unat cap \<le> length region
          \<and> 208 \<le> unat cap \<longrightarrow>
        (\<exists>c' region' m. down f c region i n j cap = Some (Ok, c', region', m) \<and> fresh k c' \<and> unat n \<le> unat m))"

lemma protectsD:
  assumes "protects fresh limit f down" and "fresh (Suc k) c" and "length region = 256"
    and "1 \<le> n" "n \<le> limit" "n \<le> 208"
  shows "\<exists>c' region' m. down f c region 48 (of_nat n) 48 208 = Some (Ok, c', region', m) \<and> fresh k c' \<and> n \<le> unat m"
proof -
  have "unat (of_nat n :: u16) = n"
    using assms(6) by (simp add: unat_of_nat_small)
  with assms(1) [unfolded protects_def, rule_format, of k c "of_nat n" 48 region 48 208] assms(2-6)
  show ?thesis
    by simp
qed


section \<open>A concrete path\<close>

text \<open>
  A library in the shape of OSCORE: the context counts messages, a protected message is a CoAP header
  byte, the number of the message and the plaintext with every byte masked by that number; the
  receiver accepts only the number it expects. The callbacks see the plaintext in a buffer of 256 bytes.
\<close>

definition toy_inner :: "plaintext_cb option \<Rightarrow> memory \<Rightarrow> (bool \<times> memory) ub" where
  "toy_inner f x =
     (case f of
        None \<Rightarrow> Some (True, x)
      | Some g \<Rightarrow> do { (ok, pt, m) \<leftarrow> g (poke (replicate 256 0) 0 x) (of_nat (length x)); Some (ok, take (unat m) pt) })"

definition toy_mask :: "nat \<Rightarrow> memory \<Rightarrow> memory" where
  "toy_mask c = map (\<lambda>b. b XOR of_nat c)"

definition toy_protect :: "nat osc_conv" where
  "toy_protect f c region i n j cap =
     do {
       x \<leftarrow> load region i (unat n);
       (ok, y) \<leftarrow> toy_inner f x;
       let out = 0x40 # of_nat c # toy_mask c y;
       if \<not> ok then Some (Other_err 1, c, region, 0)
       else if length out \<le> unat cap then Some (Ok, Suc c, poke region j out, of_nat (length out))
       else Some (Buffer_to_small, c, region, 0)
     }"

definition toy_unprotect :: "nat osc_conv" where
  "toy_unprotect g d region i n j cap =
     do {
       msg \<leftarrow> load region i (unat n);
       if length msg < 2 \<or> msg ! 1 \<noteq> of_nat d then Some (Other_err 2, d, region, 0)
       else do {
         (ok, x) \<leftarrow> toy_inner g (toy_mask d (drop 2 msg));
         if \<not> ok then Some (Other_err 1, d, region, 0)
         else if length x \<le> unat cap then Some (Ok, Suc d, poke region j x, of_nat (length x))
         else Some (Buffer_to_small, d, region, 0)
       }
     }"

lemma toy_mask_mask [simp]: "toy_mask c (toy_mask c x) = x" "length (toy_mask c x) = length x"
  by (simp_all add: toy_mask_def comp_def xor.assoc)

lemma fits_cap:
  assumes "k \<le> unat (cap :: u32)"
  shows "of_nat k \<le> cap" and "unat (of_nat k :: u32) = k"
proof -
  have "k < 2 ^ LENGTH(32)"
    using assms unsigned_less [of cap, where ?'a = nat] by simp
  then show "unat (of_nat k :: u32) = k"
    by (rule unat_of_nat_small)
  then show "of_nat k \<le> cap"
    using assms by (simp add: word_le_nat_alt)
qed

lemma toy_keeps_contract: "conv_contract toy_protect" "conv_contract toy_unprotect"
  by (auto simp: conv_contract_def toy_protect_def toy_unprotect_def Let_def nth_poke
      split: Option.bind_split_asm if_splits)
    (erule fits_cap(1) fits_cap(1) [of "Suc (Suc k)" for k, simplified])+

lemma toy_inner_pair:
  assumes "inner_pair f g" and "toy_inner f x = Some (True, y)" and "length x \<le> 208"
  shows "toy_inner g y = Some (True, x) \<and> length y \<le> 256"
proof (cases f)
  case None
  then show ?thesis
    using assms by (cases g) (auto simp: toy_inner_def inner_pair_def)
next
  case (Some f')
  then obtain g' where g: "g = Some g'"
    using assms(1) by (cases g) (auto simp: inner_pair_def)
  have pt: "length (poke (replicate 256 0) 0 x) = 256" "take (length x) (poke (replicate 256 0) 0 x) = x"
    using assms(3) by (simp_all add: poke_def)
  have n: "unat (of_nat (length x) :: u32) = length x"
    using assms(3) by (intro unat_of_nat_small) simp
  obtain pt1 m where f': "f' (poke (replicate 256 0) 0 x) (of_nat (length x)) = Some (True, pt1, m)"
    "y = take (unat m) pt1"
    using assms(2) Some by (auto simp: toy_inner_def split: Option.bind_split_asm)
  from assms(1) [unfolded inner_pair_def Some g, simplified, rule_format, of "of_nat (length x)" "poke (replicate 256 0) 0 x" pt1 m]
  have m: "length pt1 = 256" "unat m \<le> 256"
    and restore: "\<And>pt2. \<lbrakk>unat m \<le> length pt2; length x \<le> length pt2; take (unat m) pt2 = take (unat m) pt1\<rbrakk> \<Longrightarrow>
      \<exists>pt3. g' pt2 m = Some (True, pt3, of_nat (length x)) \<and> take (length x) pt3 = x"
    using f'(1) n pt assms(3) by auto
  have y: "length y = unat m"
    using f'(2) m by simp
  then have "take (unat m) (poke (replicate 256 0) 0 y) = take (unat m) pt1" "length (poke (replicate 256 0) 0 y) = 256"
    using f'(2) m(2) by (simp_all add: poke_def)
  moreover have "of_nat (length y) = m"
    using y by simp
  ultimately obtain pt3 where "g' (poke (replicate 256 0) 0 y) (of_nat (length y)) = Some (True, pt3, of_nat (length x))"
    "take (length x) pt3 = x"
    using restore [of "poke (replicate 256 0) 0 y"] m(2) assms(3) by auto
  then show ?thesis
    using g n y m(2) by (simp add: toy_inner_def)
qed

lemma toy_protected:
  assumes "toy_protect f c region i n j cap = Some (Ok, c', region', m)"
    and "i + unat n \<le> length region" "j + unat cap \<le> length region"
  obtains y where "toy_inner f (take (unat n) (drop i region)) = Some (True, y)" and "c' = Suc c"
    and "unat m = Suc (Suc (length y))" and "region' ! j = 0x40"
    and "take (unat m) (drop j region') = 0x40 # of_nat c # toy_mask c y"
proof -
  have x: "load region i (unat n) = Some (take (unat n) (drop i region))"
    using assms(2) by (simp add: load_def)
  obtain y where y: "toy_inner f (take (unat n) (drop i region)) = Some (True, y)"
    and out: "Suc (Suc (length y)) \<le> unat cap" "c' = Suc c"
      "region' = poke region j (0x40 # of_nat c # toy_mask c y)" "m = of_nat (Suc (Suc (length y)))"
    using assms(1) by (auto simp: toy_protect_def x Let_def split: Option.bind_split_asm if_splits)
  have m: "unat m = Suc (Suc (length y))"
    unfolding out(4) by (rule fits_cap(2) [OF out(1)])
  have "take (unat m) (drop j region') = 0x40 # of_nat c # toy_mask c y" "region' ! j = 0x40"
    using out(1,3) assms(3) m by (simp_all add: poke_def nth_append)
  with y out(2) m show thesis
    by (rule_tac that)
qed

lemma toy_unprotected:
  assumes "inner_pair f g" and "toy_inner f x = Some (True, y)" and "length x = unat n" "unat (n :: u16) \<le> 208"
    and "i2 + unat n2 \<le> length mem" "j2 + unat cap2 \<le> length mem"
    and "take (unat n2) (drop i2 mem) = 0x40 # of_nat c # toy_mask c y"
  shows "\<exists>d' mem' k. toy_unprotect g c mem i2 n2 j2 cap2 =
        Some (if unat n \<le> unat cap2 then Ok else Buffer_to_small, d', mem', k)
      \<and> (unat n \<le> unat cap2 \<longrightarrow> Suc c = d' \<and> unat k = unat n \<and> take (unat n) (drop j2 mem') = x)"
proof -
  have load: "load mem i2 (unat n2) = Some (0x40 # of_nat c # toy_mask c y)"
    using assms(5,7) by (simp add: load_def)
  have inner: "toy_inner g y = Some (True, x)"
    using toy_inner_pair [OF assms(1,2)] assms(3,4) by simp
  have "toy_unprotect g c mem i2 n2 j2 cap2 =
      (if unat n \<le> unat cap2 then Some (Ok, Suc c, poke mem j2 x, of_nat (unat n)) else Some (Buffer_to_small, c, mem, 0))"
    by (simp add: toy_unprotect_def load inner assms(3))
  then show ?thesis
    using assms(3,6) by (simp add: poke_def unat_ucast_16_32)
qed

lemma toy_channel: "osc_channel (=) toy_protect toy_unprotect"
  unfolding osc_channel_def
proof (intro allI impI, elim conjE)
  fix f g region i j c' region' m and c d :: nat and n :: u16 and cap :: u32
  assume pair: "inner_pair f g" and [simp]: "c = d" and n: "unat n \<le> 208"
    and region: "i + unat n \<le> length region" "j + unat cap \<le> length region"
    and run: "toy_protect f c region i n j cap = Some (Ok, c', region', m)"
  define x where "x = take (unat n) (drop i region)"
  have x: "length x = unat n"
    using region(1) by (simp add: x_def)
  obtain y where y: "toy_inner f x = Some (True, y)" "c' = Suc c" "unat m = Suc (Suc (length y))"
    "region' ! j = 0x40" "take (unat m) (drop j region') = 0x40 # of_nat c # toy_mask c y"
    unfolding x_def by (rule toy_protected [OF run region])
  show "1 \<le> unat m \<and> region' ! j AND COAP_VERSION_MASK = COAP_VERSION_1 \<and>
      (\<forall>mem i2 n2 j2 cap2.
         i2 + unat n2 \<le> length mem \<and> j2 + unat cap2 \<le> length mem \<and> unat n2 = unat m
           \<and> take (unat n2) (drop i2 mem) = take (unat m) (drop j region') \<longrightarrow>
         (\<exists>d' mem' k. toy_unprotect g d mem i2 n2 j2 cap2 =
              Some (if unat n \<le> unat cap2 then Ok else Buffer_to_small, d', mem', k)
            \<and> (unat n \<le> unat cap2 \<longrightarrow> c' = d' \<and> unat k = unat n
                \<and> take (unat n) (drop j2 mem') = take (unat n) (drop i region))))"
  proof (intro conjI allI impI)
    fix mem i2 j2 and n2 :: u16 and cap2 :: u32
    assume mem: "i2 + unat n2 \<le> length mem \<and> j2 + unat cap2 \<le> length mem \<and> unat n2 = unat m
        \<and> take (unat n2) (drop i2 mem) = take (unat m) (drop j region')"
    then have "take (unat n2) (drop i2 mem) = 0x40 # of_nat d # toy_mask d y"
      using y(5) unfolding \<open>c = d\<close> by metis
    from toy_unprotected [OF pair y(1) x n _ _ this] mem
    show "\<exists>d' mem' k. toy_unprotect g d mem i2 n2 j2 cap2 =
              Some (if unat n \<le> unat cap2 then Ok else Buffer_to_small, d', mem', k)
            \<and> (unat n \<le> unat cap2 \<longrightarrow> c' = d' \<and> unat k = unat n
                \<and> take (unat n) (drop j2 mem') = take (unat n) (drop i region))"
      unfolding y(2) x_def [symmetric] \<open>c = d\<close> by blast
  qed (use y(3,4) in \<open>simp_all add: COAP_VERSION_MASK_def COAP_VERSION_1_def\<close>)
qed

lemma toy_copy:
  assumes "length x \<le> 128"
  shows "toy_inner (Some (oscore_msg_inner_compression copy_codec)) x = Some (True, x)"
proof -
  have n: "unat (of_nat (length x) :: u32) = length x"
    using assms by (intro unat_of_nat_small) simp
  have "copy_codec 128 (replicate 128 0) x = (COMP_SUCCESS, poke (replicate 128 0) 0 x, of_nat (length x))"
    using assms by (simp add: copy_codec_def)
  moreover have "unat (of_nat (length x) :: u16) = length x"
    using assms by (intro unat_of_nat_small) simp
  ultimately have "oscore_msg_inner_compression copy_codec (poke (replicate 256 0) 0 x) (of_nat (length x)) =
      Some (True, poke (poke (replicate 256 0) 0 x) 0 x, ucast (of_nat (length x) :: u16))"
    using inner_compression_eq(1) [of "of_nat (length x)" "poke (replicate 256 0) 0 x" copy_codec
        "poke (replicate 128 0) 0 x" "of_nat (length x)"] assms n by (simp add: poke_def)
  then show ?thesis
    using assms \<open>unat (of_nat (length x) :: u16) = length x\<close> by (simp add: toy_inner_def unat_ucast_16_32 poke_def)
qed

lemma toy_protects: "protects (\<lambda>k c. True) 128 (Some (oscore_msg_inner_compression copy_codec)) toy_protect"
proof -
  have "\<exists>c' region' m. toy_protect (Some (oscore_msg_inner_compression copy_codec)) c region i n j cap =
      Some (Ok, c', region', m) \<and> unat n \<le> unat m"
    if "unat n \<le> 128" "i + unat n \<le> length region" "208 \<le> unat cap" for c region i and n :: u16 and j and cap :: u32
  proof -
    have "load region i (unat n) = Some (take (unat n) (drop i region))"
      "length (take (unat n) (drop i region)) = unat n"
      using that(2) by (simp_all add: load_def)
    moreover have "Suc (Suc (unat n)) \<le> unat cap"
      using that by simp
    moreover from fits_cap(2) [OF this] have "unat n \<le> unat (of_nat (Suc (Suc (unat n))) :: u32)"
      by simp
    ultimately show ?thesis
      using toy_copy [of "take (unat n) (drop i region)"] that(1) by (simp add: toy_protect_def)
  qed
  then show ?thesis
    by (simp add: protects_def)
qed

definition example_path :: "(nat, nat) path" where
  "example_path = \<lparr>sender_cfg = example_cfg, receiver_cfg = example_cfg, compress = copy_codec, decompress = copy_codec,
     protect = toy_protect, unprotect = toy_unprotect, stack_sendto = example_sendto,
     stack_link = (\<lambda>q. q[7 := 63]), stack_garbage = 7\<rparr>"

definition example_end :: "nat al" where
  "example_end = \<lparr>processing_required = False, event = 0, tun_fd = 5, tun_name = ''schc0'',
     net_buffer = replicate 256 0, proxy = \<lparr>osc_ctx = 3, oscore_inner_schc_enabled = True\<rparr>,
     fds = initial_fds, sent = [], written = [], commands = [], closed = []\<rparr>"

definition example_ends :: "(nat, nat) ends" where
  "example_ends = \<lparr>sender = example_end, receiver = example_end\<rparr>"

lemma example_path_sound: "sound_path (=) example_path"
  using toy_keeps_contract toy_channel copy_codec_pair
  by (auto simp: sound_path_def example_path_def example_cfg_def schc_link_def example_sendto_def nth_list_update)

lemma example_ends_ready: "both_ready (=) example_ends"
  by (simp add: both_ready_def example_ends_def example_end_def al_flags)

lemma example_datagram: "coap_datagram example_packet"
  by code_simp



end
