(* ===== verification/Oscore_Pattern.thy ===== *)
theory Oscore_Pattern
  imports Prelude
begin

text \<open>
  The second inner compression of \<open>applications/schc_worker_linux/src/uoscore_integration.c\<close>, compiled when
  \<open>PATTERN_COMP\<close> is defined: pattern tables tried in order, and an uncompressed fallback that puts a
  rule identifier before the plaintext and takes it away again, in place.

  Parameters: the tables and the two matching functions, which work on the plaintext buffer and its
  size, the rule identifier of the fallback and the size of the local buffer
  (\<open>NO_COMPRESSION_RULE_ID\<close>, \<open>MAX_PACKET_SIZE_BYTES\<close>): none of them is in the repository.
\<close>

section \<open>Definitions\<close>

type_synonym 't pattern_match = "'t \<Rightarrow> memory \<Rightarrow> u32 \<Rightarrow> (bool \<times> memory \<times> u32) ub"

text \<open>\<open>memcpy\<close> inside one buffer: undefined when source and destination overlap.\<close>

definition memcpy_within :: "memory \<Rightarrow> nat \<Rightarrow> nat \<Rightarrow> nat \<Rightarrow> memory ub" where
  "memcpy_within m dst src n =
     (if dst + n \<le> src \<or> src + n \<le> dst
      then do { bs \<leftarrow> load m src n; store m dst bs }
      else None)"

fun try_patterns :: "'t pattern_match \<Rightarrow> 't list \<Rightarrow> memory \<Rightarrow> u32 \<Rightarrow> (bool \<times> memory \<times> u32) ub" where
  "try_patterns match [] plaintext plaintext_size = Some (False, plaintext, plaintext_size)"
| "try_patterns match (t # ts) plaintext plaintext_size =
     do {
       (hit, plaintext, plaintext_size) \<leftarrow> match t plaintext plaintext_size;
       if hit then Some (True, plaintext, plaintext_size)
       else try_patterns match ts plaintext plaintext_size
     }"

definition pattern_inner_compression ::
    "'t pattern_match \<Rightarrow> 't list \<Rightarrow> byte \<Rightarrow> nat \<Rightarrow> memory \<Rightarrow> u32 \<Rightarrow> (bool \<times> memory \<times> u32) ub" where
  "pattern_inner_compression match tables no_comp max_packet plaintext plaintext_size =
     do {
       (hit, plaintext, plaintext_size) \<leftarrow> try_patterns match tables plaintext plaintext_size;
       if hit then Some (True, plaintext, plaintext_size)
       else do {
         let out_inner_comp_buf = replicate max_packet 0;
         let out_data_size = (ucast plaintext_size + 1 :: u16);
         out_inner_comp_buf \<leftarrow> store out_inner_comp_buf 0 [no_comp];
         bytes \<leftarrow> load plaintext 0 (unat plaintext_size);
         out_inner_comp_buf \<leftarrow> store out_inner_comp_buf 1 bytes;
         result \<leftarrow> load out_inner_comp_buf 0 (unat out_data_size);
         plaintext \<leftarrow> store plaintext 0 result;
         Some (True, plaintext, ucast out_data_size)
       }
     }"

definition pattern_inner_decompression ::
    "'t pattern_match \<Rightarrow> 't list \<Rightarrow> byte \<Rightarrow> memory \<Rightarrow> u32 \<Rightarrow> (bool \<times> memory \<times> u32) ub" where
  "pattern_inner_decompression match tables no_comp plaintext plaintext_size =
     do {
       b \<leftarrow> peek plaintext 0;
       if b = no_comp then do {
         let plaintext_size = plaintext_size - 1;
         plaintext \<leftarrow> memcpy_within plaintext 0 1 (unat plaintext_size);
         Some (True, plaintext, plaintext_size)
       } else do {
         (hit, plaintext, plaintext_size) \<leftarrow> try_patterns match tables plaintext plaintext_size;
         Some (True, plaintext, plaintext_size)
       }
     }"

section \<open>The fallback\<close>

definition never :: "'t pattern_match" where
  "never t m n = Some (False, m, n)"

lemma try_never [simp]: "try_patterns never ts m n = Some (False, m, n)"
  by (induction ts) (simp_all add: never_def)

text \<open>The fallback of the compression puts the identifier before the plaintext.\<close>

lemma pattern_fallback:
  assumes "unat n < length m" "unat n < max_packet" "unat n < 65535"
  shows "pattern_inner_compression never ts no_comp max_packet m n =
    Some (True, no_comp # take (unat n) m @ drop (Suc (unat n)) m, n + 1)"
proof -
  have eq: "(ucast n + 1 :: u16) = of_nat (Suc (unat n))"
    by (simp add: add.commute)
  have n: "unat (ucast n + 1 :: u16) = Suc (unat n)"
    unfolding eq by (intro unat_of_nat_small) (use assms(3) in simp)
  have up: "unat (ucast w :: u32) = unat w" for w :: u16
    using u16_less [of w] by (simp add: unsigned_ucast_eq take_bit_nat_eq_self)
  have eq32: "n + 1 = of_nat (Suc (unat n))"
    by (simp add: add.commute)
  have "unat (n + 1) = Suc (unat n)"
    unfolding eq32 by (intro unat_of_nat_small) (use assms(3) in simp)
  then have "(ucast (ucast n + 1 :: u16) :: u32) = n + 1"
    by (simp only: word_unat_eq_iff up n)
  then show ?thesis
    using assms(1,2)
    by (simp add: pattern_inner_compression_def store_def load_def poke_def n Let_def min_def)
qed

text \<open>The decompression takes it away with a \<open>memcpy\<close> between overlapping regions: it is defined only for
  plaintexts of at most one byte.\<close>

lemma pattern_fallback_undefined:
  assumes "unat n < length m" "unat n < max_packet" "unat n < 65535"
  shows "map_option (\<lambda>(ok, m, n). (ok, take (unat n) m, n)) (do {
      (ok, m, n) \<leftarrow> pattern_inner_compression never ts no_comp max_packet m n;
      pattern_inner_decompression never ts no_comp m n
    }) = (if unat n \<le> 1 then Some (True, take (unat n) m, n) else None)"
proof -
  obtain a rest where m: "m = a # rest"
    using assms(1) by (cases m) auto
  consider "unat n = 0" | "unat n = 1" | "1 < unat n"
    by linarith
  then show ?thesis
    by cases (use assms in \<open>auto simp: pattern_fallback pattern_inner_decompression_def memcpy_within_def peek_def
      load_def store_def poke_def m Suc_le_eq\<close>)
qed

text \<open>A message that no pattern decompresses is reported as decompressed.\<close>

lemma pattern_unmatched_accepted:
  assumes "m \<noteq> []" "hd m \<noteq> no_comp"
  shows "pattern_inner_decompression never ts no_comp m n = Some (True, m, n)"
  using assms by (cases m) (simp_all add: pattern_inner_decompression_def peek_def)

end
