(* ===== verification/Ascon.thy ===== *)
theory Ascon
  imports Prelude
begin

text \<open>
  The Ascon back end of the OSCORE library, \<open>libs/ascon_integration\<close>: HMAC over Ascon-Hash256
  (\<open>ascon_hmac.c\<close>), HKDF, the AEAD wrapper and the hash wrapper (\<open>ascon_integration.c\<close>).

  The Ascon permutation library is a parameter: a record of the hash operations (the state after
  initialisation and absorption, and the bytes a squeeze produces), and the two truncated AEAD functions.
  \<open>struct byte_array\<close> is a pointer (None for NULL) with a 32-bit length.
\<close>

section \<open>HMAC\<close>

record 's ascon =
  ascon_inithash :: 's
  ascon_absorb :: "'s \<Rightarrow> memory \<Rightarrow> 's"
  squeeze_byte :: "'s \<Rightarrow> nat \<Rightarrow> byte"

definition ascon_squeeze :: "'s ascon \<Rightarrow> 's \<Rightarrow> nat \<Rightarrow> memory" where
  "ascon_squeeze h s n = map (squeeze_byte h s) [0 ..< n]"

definition ASCON_HASH_SIZE :: nat where "ASCON_HASH_SIZE = 32"
definition ASCON_HMAC_BLOCK_SIZE :: nat where "ASCON_HMAC_BLOCK_SIZE = 32"

lemmas ascon_sizes = ASCON_HASH_SIZE_def ASCON_HMAC_BLOCK_SIZE_def

definition hmac_ascon ::
    "'s ascon \<Rightarrow> memory \<Rightarrow> memory \<Rightarrow> nat \<Rightarrow> memory \<Rightarrow> nat \<Rightarrow> (int \<times> memory) ub" where
  "hmac_ascon h out key keylen msg msglen =
     do {
       let k0 = replicate ASCON_HMAC_BLOCK_SIZE 0;
       key \<leftarrow> load key 0 keylen;
       k0 \<leftarrow> (if keylen > ASCON_HMAC_BLOCK_SIZE
              then store k0 0 (ascon_squeeze h (ascon_absorb h (ascon_inithash h) key) ASCON_HASH_SIZE)
              else store k0 0 key);
       let k_ipad = map (\<lambda>b. b XOR 0x36) k0;
       let k_opad = map (\<lambda>b. b XOR 0x5c) k0;
       msg \<leftarrow> load msg 0 msglen;
       let s = ascon_absorb h (ascon_absorb h (ascon_inithash h) k_ipad) msg;
       let inner_hash = ascon_squeeze h s ASCON_HASH_SIZE;
       let s = ascon_absorb h (ascon_absorb h (ascon_inithash h) k_opad) inner_hash;
       out \<leftarrow> store out 0 (ascon_squeeze h s ASCON_HASH_SIZE);
       Some (0, out)
     }"

section \<open>HKDF\<close>

datatype hash_alg = ASCON_HASH_256 | Other_hash nat

datatype crypto_err = Crypto_ok | Aead_failed | Oscore_invalid_algorithm_aead | Buffer_too_small
  | Crypto_operation_not_implemented | Hkdf_failed | Wrong_parameter | Sha_failed

record byte_array =
  ba_ptr :: "memory option"
  ba_len :: u32

text \<open>Reading \<open>n\<close> bytes through a pointer that may be NULL.\<close>

definition ba_load :: "byte_array \<Rightarrow> nat \<Rightarrow> memory ub" where
  "ba_load b n = (case ba_ptr b of Some m \<Rightarrow> load m 0 n | None \<Rightarrow> if n = 0 then Some [] else None)"

abbreviation ba_mem :: "byte_array \<Rightarrow> memory" where
  "ba_mem b \<equiv> (case ba_ptr b of Some m \<Rightarrow> m | None \<Rightarrow> [])"

definition hkdf_extract ::
    "'s ascon \<Rightarrow> hash_alg \<Rightarrow> byte_array \<Rightarrow> byte_array \<Rightarrow> memory \<Rightarrow> (crypto_err \<times> memory) ub" where
  "hkdf_extract h alg salt ikm out =
     (if alg \<noteq> ASCON_HASH_256 then Some (Crypto_operation_not_implemented, out)
      else do {
        (rc, out) \<leftarrow>
          (if ba_ptr salt = None \<or> ba_len salt = 0
           then hmac_ascon h out (replicate ASCON_HASH_SIZE 0) ASCON_HASH_SIZE (ba_mem ikm) (unat (ba_len ikm))
           else hmac_ascon h out (ba_mem salt) (unat (ba_len salt)) (ba_mem ikm) (unat (ba_len ikm)));
        if rc \<noteq> 0 then Some (Hkdf_failed, out) else Some (Crypto_ok, out)
      })"

text \<open>A store through \<open>&ptr[idx]\<close>, where \<open>idx\<close> is a signed \<open>int\<close>.\<close>

definition store_int :: "memory \<Rightarrow> int \<Rightarrow> memory \<Rightarrow> memory ub" where
  "store_int m idx bs = (if idx < 0 then None else store m (nat idx) bs)"

text \<open>One iteration of the loop of \<open>hkdf_expand\<close>; the counter is a \<open>uint8_t\<close>. The initial
  contents of the scratch buffer \<open>msg\<close> are never read.\<close>

definition expand_step ::
    "'s ascon \<Rightarrow> byte_array \<Rightarrow> byte_array \<Rightarrow> u32 \<Rightarrow> memory \<Rightarrow> memory \<Rightarrow> byte \<Rightarrow> (int \<times> memory \<times> memory) ub" where
  "expand_step h prk info out_len out t i =
     do {
       let msg = replicate (ASCON_HASH_SIZE + unat (ba_len info) + 1) 0;
       msg \<leftarrow> (if i > 1 then do { t \<leftarrow> load t 0 ASCON_HASH_SIZE; store msg 0 t } else Some msg);
       let msg_len = (if i > 1 then ASCON_HASH_SIZE else 0);
       info_bytes \<leftarrow> ba_load info (unat (ba_len info));
       msg \<leftarrow> store msg msg_len info_bytes;
       let msg_len = msg_len + unat (ba_len info);
       msg \<leftarrow> store msg msg_len [i];
       let msg_len = msg_len + 1;
       (rc, t) \<leftarrow> hmac_ascon h t (ba_mem prk) (unat (ba_len prk)) msg msg_len;
       if rc \<noteq> 0 then Some (rc, t, out)
       else do {
         let copy_len = (if out_len - (ucast i - 1) * of_nat ASCON_HASH_SIZE < of_nat ASCON_HASH_SIZE
                         then unat out_len mod ASCON_HASH_SIZE else ASCON_HASH_SIZE);
         block \<leftarrow> load t 0 copy_len;
         out \<leftarrow> store_int out ((int (unat i) - 1) * int ASCON_HASH_SIZE) block;
         Some (0, t, out)
       }
     }"

lemma expand_step_zero:
  assumes "expand_step h prk info out_len out t 0 = Some (rc, t', out')"
  shows False
  using assms
  by (auto simp: expand_step_def hmac_ascon_def store_int_def ASCON_HASH_SIZE_def Let_def
      split: Option.bind_split_asm if_split_asm prod.split_asm)

text \<open>The loop \<open>for (uint8_t i = 1; i <= iterations; i++)\<close>: the counter wraps after 255.\<close>

function expand_loop ::
    "'s ascon \<Rightarrow> byte_array \<Rightarrow> byte_array \<Rightarrow> u32 \<Rightarrow> memory \<Rightarrow> memory \<Rightarrow> byte \<Rightarrow> byte \<Rightarrow> (crypto_err \<times> memory) ub" where
  "expand_loop h prk info out_len out t i iterations =
     (if i \<le> iterations then
        (case expand_step h prk info out_len out t i of
           None \<Rightarrow> None
         | Some (rc, t, out) \<Rightarrow>
             if rc \<noteq> 0 then Some (Hkdf_failed, out)
             else expand_loop h prk info out_len out t (i + 1) iterations)
      else Some (Crypto_ok, out))"
  by pat_completeness auto
termination
proof (relation "measure (\<lambda>(h, prk, info, out_len, out, t, i, it). if i = 0 then 0 else 256 - unat i)", goal_cases)
  case (2 h prk info out_len out t i it x rc y t' out')
  then have "i \<noteq> 0"
    using expand_step_zero by fastforce
  then show ?case
    using unsigned_less [of i, where ?'a = nat]
    by (cases "i + 1 = 0") (auto simp: unatSuc add.commute unsigned_eq_0_iff)
qed simp

declare expand_loop.simps [simp del]

definition hkdf_expand ::
    "'s ascon \<Rightarrow> hash_alg \<Rightarrow> byte_array \<Rightarrow> byte_array \<Rightarrow> memory \<Rightarrow> u32 \<Rightarrow> (crypto_err \<times> memory) ub" where
  "hkdf_expand h alg prk info out out_len =
     (if alg \<noteq> ASCON_HASH_256 then Some (Crypto_operation_not_implemented, out)
      else let iterations = (ucast ((out_len + of_nat ASCON_HASH_SIZE - 1) div of_nat ASCON_HASH_SIZE) :: byte)
      in if unat iterations > 255 then Some (Hkdf_failed, out)
      else expand_loop h prk info out_len out (replicate ASCON_HASH_SIZE 0) 1 iterations)"

definition hkdf_ascon_hash_256 ::
    "'s ascon \<Rightarrow> byte_array \<Rightarrow> byte_array \<Rightarrow> byte_array \<Rightarrow> memory \<Rightarrow> u32 \<Rightarrow> (crypto_err \<times> memory) ub" where
  "hkdf_ascon_hash_256 h master_secret master_salt info out out_len =
     do {
       (r, prk) \<leftarrow> hkdf_extract h ASCON_HASH_256 master_salt master_secret (replicate ASCON_HASH_SIZE 0);
       if r \<noteq> Crypto_ok then Some (r, out)
       else do {
         (r, out) \<leftarrow> hkdf_expand h ASCON_HASH_256
           \<lparr>ba_ptr = Some prk, ba_len = of_nat ASCON_HASH_SIZE\<rparr> info out out_len;
         if r \<noteq> Crypto_ok then Some (r, out) else Some (Crypto_ok, out)
       }
     }"

text \<open>\<open>crypto_hash\<close> of the library: its status and the digest it writes.\<close>

definition hash ::
    "(memory \<Rightarrow> int \<times> memory) \<Rightarrow> hash_alg \<Rightarrow> byte_array \<Rightarrow> byte_array \<Rightarrow> (crypto_err \<times> byte_array) ub" where
  "hash crypto_hash alg input out =
     (if alg \<noteq> ASCON_HASH_256 then Some (Crypto_operation_not_implemented, out)
      else if ba_ptr input = None \<or> ba_ptr out = None then Some (Wrong_parameter, out)
      else if ba_len out < of_nat ASCON_HASH_SIZE then Some (Buffer_too_small, out)
      else do {
        bytes \<leftarrow> ba_load input (unat (ba_len input));
        let (rc, digest) = crypto_hash bytes;
        m \<leftarrow> store (ba_mem out) 0 digest;
        let out = out\<lparr>ba_ptr := Some m\<rparr>;
        if rc \<noteq> 0 then Some (Sha_failed, out) else Some (Crypto_ok, out)
      })"

section \<open>AEAD\<close>

datatype aead_alg = OSCORE_ASCONAEAD128 | OSCORE_ASCONAEAD128_64 | OSCORE_ASCONAEAD128_32 | Other_aead nat
datatype aes_operation = ENCRYPT | DECRYPT

definition ASCON_KEY_BYTES :: nat where "ASCON_KEY_BYTES = 16"
definition ASCON_NONCE_BYTES :: nat where "ASCON_NONCE_BYTES = 16"

fun tag_length :: "aead_alg \<Rightarrow> u32 option" where
  "tag_length OSCORE_ASCONAEAD128 = Some 16"
| "tag_length OSCORE_ASCONAEAD128_64 = Some 8"
| "tag_length OSCORE_ASCONAEAD128_32 = Some 4"
| "tag_length (Other_aead _) = None"

text \<open>The library: encryption takes key, nonce, associated data, plaintext and the tag size in bits and
  gives its status, the ciphertext and the tag; decryption takes the tag instead and gives the plaintext.\<close>

type_synonym aead_encrypt = "memory \<Rightarrow> memory \<Rightarrow> memory \<Rightarrow> memory \<Rightarrow> nat \<Rightarrow> int \<times> memory \<times> memory"
type_synonym aead_decrypt = "memory \<Rightarrow> memory \<Rightarrow> memory \<Rightarrow> memory \<Rightarrow> memory \<Rightarrow> nat \<Rightarrow> int \<times> memory"

text \<open>The context is None for NULL, else the algorithm. The results are the status and the
  \<open>out\<close> and \<open>tag\<close> arrays.\<close>

definition aead ::
    "aead_encrypt \<Rightarrow> aead_decrypt \<Rightarrow> aead_alg option \<Rightarrow> aes_operation \<Rightarrow> byte_array \<Rightarrow> byte_array \<Rightarrow>
     byte_array \<Rightarrow> byte_array \<Rightarrow> byte_array \<Rightarrow> byte_array \<Rightarrow> (crypto_err \<times> byte_array \<times> byte_array) ub" where
  "aead enc dec c op input key nonce aad out tag =
     (case c of
        None \<Rightarrow> Some (Aead_failed, out, tag)
      | Some alg \<Rightarrow>
      (case tag_length alg of
         None \<Rightarrow> Some (Oscore_invalid_algorithm_aead, out, tag)
       | Some tag_len \<Rightarrow>
       if unat (ba_len key) < ASCON_KEY_BYTES then Some (Aead_failed, out, tag)
       else if unat (ba_len nonce) < ASCON_NONCE_BYTES then Some (Aead_failed, out, tag)
       else case op of
         ENCRYPT \<Rightarrow>
           if ba_len out < ba_len input then Some (Buffer_too_small, out, tag)
           else if ba_len tag < tag_len then Some (Aead_failed, out, tag)
           else do {
             k \<leftarrow> ba_load key ASCON_KEY_BYTES;
             n \<leftarrow> ba_load nonce ASCON_NONCE_BYTES;
             ad \<leftarrow> ba_load aad (unat (ba_len aad));
             m \<leftarrow> ba_load input (unat (ba_len input));
             let (st, ct, tg) = enc k n ad m (unat tag_len * 8);
             out_mem \<leftarrow> store (ba_mem out) 0 ct;
             tag_mem \<leftarrow> store (ba_mem tag) 0 tg;
             let out = out\<lparr>ba_ptr := Some out_mem\<rparr>;
             let tag = tag\<lparr>ba_ptr := Some tag_mem\<rparr>;
             if st < 0 then Some (Aead_failed, out, tag)
             else Some (Crypto_ok, out, tag\<lparr>ba_len := tag_len\<rparr>)
           }
       | DECRYPT \<Rightarrow>
           if ba_len out < ba_len input - tag_len then Some (Buffer_too_small, out, tag)
           else do {
             let m_len = unat (ba_len input - tag_len);
             k \<leftarrow> ba_load key ASCON_KEY_BYTES;
             n \<leftarrow> ba_load nonce ASCON_NONCE_BYTES;
             ad \<leftarrow> ba_load aad (unat (ba_len aad));
             ct \<leftarrow> ba_load input m_len;
             tg \<leftarrow> (if ba_len input < tag_len then None
                   else load (ba_mem input) (unat (ba_len input) - unat tag_len) (unat tag_len));
             let (st, m) = dec k n ad ct tg (unat tag_len * 8);
             out_mem \<leftarrow> store (ba_mem out) 0 m;
             let out = out\<lparr>ba_ptr := Some out_mem, ba_len := ba_len input - tag_len\<rparr>;
             if st < 0 then Some (Aead_failed, out, tag)
             else Some (Crypto_ok, out, tag\<lparr>ba_len := tag_len\<rparr>)
           }))"

end
