(* ===== verification/Ascon_Props.thy ===== *)
theory Ascon_Props
  imports Ascon
begin

text \<open>
  Correctness of the Ascon back end: HMAC against RFC 2104, HKDF against RFC 5869 (inside the
  locale \<open>mac_fn\<close>, interpreted on the module's own HMAC), what the 8-bit block counter does to
  long outputs, and the AEAD wrapper's checks and round trip.
\<close>

section \<open>HMAC\<close>

text \<open>The documented behaviour of a streaming hash: the digest depends on the concatenation of
  what was absorbed only.\<close>

definition stream_hash :: "'s ascon \<Rightarrow> (memory \<Rightarrow> memory) \<Rightarrow> bool" where
  "stream_hash h H \<longleftrightarrow>
     (\<forall>ms. ascon_squeeze h (foldl (ascon_absorb h) (ascon_inithash h) ms) ASCON_HASH_SIZE = H (concat ms))"

definition hmac_key :: "(memory \<Rightarrow> memory) \<Rightarrow> memory \<Rightarrow> memory" where
  "hmac_key H key = (let k = (if length key > 32 then H key else key) in k @ replicate (32 - length k) 0)"

definition hmac_spec :: "(memory \<Rightarrow> memory) \<Rightarrow> memory \<Rightarrow> memory \<Rightarrow> memory" where
  "hmac_spec H key msg =
     H (map (\<lambda>b. b XOR 0x5c) (hmac_key H key) @ H (map (\<lambda>b. b XOR 0x36) (hmac_key H key) @ msg))"

definition digest :: "'s ascon \<Rightarrow> memory list \<Rightarrow> memory" where
  "digest h ms = ascon_squeeze h (foldl (ascon_absorb h) (ascon_inithash h) ms) ASCON_HASH_SIZE"

definition hmac_tag :: "'s ascon \<Rightarrow> memory \<Rightarrow> memory \<Rightarrow> memory" where
  "hmac_tag h key msg =
     (let k = (if length key > 32 then digest h [key] else key);
          k0 = k @ replicate (32 - length k) 0
      in digest h [map (\<lambda>b. b XOR 0x5c) k0, digest h [map (\<lambda>b. b XOR 0x36) k0, msg]])"

lemma length_digest [simp]: "length (digest h ms) = 32"
  by (simp add: digest_def ascon_squeeze_def ASCON_HASH_SIZE_def)

lemma length_hmac_tag [simp]: "length (hmac_tag h key msg) = 32"
  by (simp add: hmac_tag_def Let_def)

lemma hmac_ascon_eq:
  assumes "keylen \<le> length key" "msglen \<le> length msg" "32 \<le> length out"
  shows "hmac_ascon h out key keylen msg msglen =
    Some (0, poke out 0 (hmac_tag h (take keylen key) (take msglen msg)))"
proof -
  have "poke (replicate 32 0) 0 k = k @ replicate (32 - length k) 0" if "length k \<le> 32" for k :: memory
    using that by (simp add: poke_def)
  then show ?thesis
    using assms
    by (simp add: hmac_ascon_def hmac_tag_def digest_def ascon_sizes load_def store_def Let_def min_def
        ascon_squeeze_def)
qed

lemma digest_stream: "stream_hash h H \<Longrightarrow> digest h ms = H (concat ms)"
  by (simp add: stream_hash_def digest_def)

lemma stream_hash_length: "stream_hash h H \<Longrightarrow> length (H m) = 32"
  using digest_stream [of h H "[m]"] length_digest [of h "[m]"] by simp

lemma hmac_tag_spec: "stream_hash h H \<Longrightarrow> hmac_tag h = hmac_spec H"
  by (intro ext) (simp add: hmac_tag_def hmac_spec_def hmac_key_def digest_stream stream_hash_length Let_def)


text \<open>A hash for the witnesses: it absorbs by appending, and squeezes the length of its input
  and the XOR of its bytes.\<close>

definition toy_ascon :: "memory ascon" where
  "toy_ascon = \<lparr>ascon_inithash = [], ascon_absorb = (@),
     squeeze_byte = (\<lambda>s i. if i = 0 then of_nat (length s) else foldr (XOR) s (of_nat i))\<rparr>"

definition toy_hash :: "memory \<Rightarrow> memory" where
  "toy_hash s = ascon_squeeze toy_ascon s 32"

lemma toy_stream: "stream_hash toy_ascon toy_hash"
proof -
  have "foldl (@) xs ms = xs @ concat ms" for xs and ms :: "memory list"
    by (induction ms arbitrary: xs) simp_all
  then show ?thesis
    by (simp add: stream_hash_def toy_hash_def ASCON_HASH_SIZE_def) (simp add: toy_ascon_def)
qed


section \<open>HKDF-Expand\<close>

text \<open>RFC 5869: \<open>T(0) = []\<close>, \<open>T(i) = mac PRK (T(i-1) | info | i)\<close>.\<close>

fun hkdf_T :: "(memory \<Rightarrow> memory \<Rightarrow> memory) \<Rightarrow> memory \<Rightarrow> memory \<Rightarrow> nat \<Rightarrow> memory" where
  "hkdf_T mac prk info 0 = []"
| "hkdf_T mac prk info (Suc i) = mac prk (hkdf_T mac prk info i @ info @ [of_nat (Suc i)])"

definition hkdf_blocks :: "(memory \<Rightarrow> memory \<Rightarrow> memory) \<Rightarrow> memory \<Rightarrow> memory \<Rightarrow> nat \<Rightarrow> memory" where
  "hkdf_blocks mac prk info n = concat (map (\<lambda>i. hkdf_T mac prk info (Suc i)) [0 ..< n])"

definition hkdf_N :: "nat \<Rightarrow> nat" where
  "hkdf_N l = (l + 31) div 32"

definition hkdf_expand_spec :: "(memory \<Rightarrow> memory \<Rightarrow> memory) \<Rightarrow> memory \<Rightarrow> memory \<Rightarrow> nat \<Rightarrow> memory" where
  "hkdf_expand_spec mac prk info l = take l (hkdf_blocks mac prk info (hkdf_N l))"

text \<open>The output buffer after \<open>n\<close> blocks.\<close>

definition filled :: "(memory \<Rightarrow> memory \<Rightarrow> memory) \<Rightarrow> memory \<Rightarrow> memory \<Rightarrow> memory \<Rightarrow> nat \<Rightarrow> memory" where
  "filled mac prk info out n = take (length out) (hkdf_blocks mac prk info n @ drop (32 * n) out)"

locale mac_fn =
  fixes mac :: "memory \<Rightarrow> memory \<Rightarrow> memory"
  assumes mac_length: "length (mac key msg) = 32"
begin

lemma length_T: "length (hkdf_T mac prk info (Suc i)) = 32"
  by (simp add: mac_length)

lemma length_blocks: "length (hkdf_blocks mac prk info n) = 32 * n"
  by (induction n) (simp_all add: hkdf_blocks_def length_T del: hkdf_T.simps)

lemma filled_0: "filled mac prk info out 0 = out"
  by (simp add: filled_def hkdf_blocks_def)

lemma length_filled: "length (filled mac prk info out n) = length out"
  by (simp add: filled_def length_blocks)

lemma filled_step:
  assumes "32 * n < length out" and "c = min 32 (length out - 32 * n)"
  shows "poke (filled mac prk info out n) (32 * n) (take c (hkdf_T mac prk info (Suc n))) =
    filled mac prk info out (Suc n)"
proof -
  define B T where "B = hkdf_blocks mac prk info n" and "T = hkdf_T mac prk info (Suc n)"
  have len: "length B = 32 * n" "length T = 32"
    by (simp_all only: B_def T_def length_blocks length_T)
  have BT: "hkdf_blocks mac prk info (Suc n) = B @ T"
    by (simp add: hkdf_blocks_def B_def T_def)
  show ?thesis
    using assms len unfolding filled_def BT B_def [symmetric] T_def [symmetric]
    by (intro nth_equalityI) (auto simp: poke_def nth_append min_def)
qed

lemma filled_end:
  "hkdf_N (length out) \<le> n \<Longrightarrow> length out \<le> 32 * n" "filled mac prk info out (hkdf_N (length out)) =
    hkdf_expand_spec mac prk info (length out)"
proof -
  have N: "length out \<le> 32 * hkdf_N (length out)"
    by (simp add: hkdf_N_def)
  then show "hkdf_N (length out) \<le> n \<Longrightarrow> length out \<le> 32 * n"
    by (meson le_trans mult_le_mono2)
  show "filled mac prk info out (hkdf_N (length out)) = hkdf_expand_spec mac prk info (length out)"
    using N by (simp add: filled_def hkdf_expand_spec_def length_blocks)
qed

end

interpretation tag: mac_fn "hmac_tag h" for h
  by unfold_locales simp

lemma poke_scratch:
  "length t = 32 \<Longrightarrow> length nfo = l \<Longrightarrow>
    poke (poke (poke (replicate (33 + l) 0) 0 t) ASCON_HASH_SIZE nfo) (32 + l) [i] = t @ nfo @ [i]"
  "length nfo = l \<Longrightarrow>
    take (Suc l) (poke (poke (replicate (33 + l) 0) 0 nfo) l [i]) = nfo @ [i]"
  by (simp_all add: poke_def ASCON_HASH_SIZE_def)

lemma expand_copy_len:
  fixes out_len :: u32 and i :: byte
  assumes "unat i = Suc n" and "32 * n < unat out_len"
  shows "(if out_len - (ucast i - 1) * 32 < 32 then unat out_len mod 32 else 32) = min 32 (unat out_len - 32 * n)"
proof -
  have "unat (ucast i :: u32) = Suc n"
    using assms(1) unsigned_less [of i, where ?'a = nat] by (simp add: unsigned_ucast_eq take_bit_nat_eq_self)
  then have "(ucast i :: u32) = of_nat (Suc n)"
    by (rule word_eq_of_nat)
  then have i: "(ucast i - 1) * 32 = (of_nat (32 * n) :: u32)"
    by simp
  have n: "32 * n < 2 ^ 32"
    using assms(2) unsigned_less [of out_len, where ?'a = nat] by simp
  then have un: "unat (of_nat (32 * n) :: u32) = 32 * n"
    by (intro unat_of_nat_small) simp
  then have d: "unat (out_len - of_nat (32 * n)) = unat out_len - 32 * n"
    using assms(2) by (subst unat_sub) (simp_all only: word_le_nat_alt)
  show ?thesis
  proof (cases "unat out_len - 32 * n < 32")
    case True
    then have "unat out_len = 32 * n + (unat out_len - 32 * n)"
      using assms(2) by simp
    then have "unat out_len mod 32 = unat out_len - 32 * n"
      using True by (metis mod_less mod_mult_self4)
    then show ?thesis
      using True unfolding i word_less_nat_alt d by simp
  next
    case False
    then show ?thesis
      unfolding i word_less_nat_alt d by simp
  qed
qed

lemma store_int_nat: "store_int m (int k) bs = store m k bs"
  by (simp add: store_int_def)

definition ba_ok :: "byte_array \<Rightarrow> memory \<Rightarrow> bool" where
  "ba_ok b bytes \<longleftrightarrow> (\<exists>m. ba_ptr b = Some m \<and> unat (ba_len b) \<le> length m \<and> bytes = take (unat (ba_len b)) m)"

lemma expand_step_eq:
  assumes prk: "ba_ok prk pk" and info: "ba_ok info nfo"
    and i: "unat i = Suc n" and out: "length out = unat out_len" "32 * n < length out"
    and t: "length t = 32" "0 < n \<longrightarrow> t = hkdf_T (hmac_tag h) pk nfo n"
  shows "expand_step h prk info out_len (filled (hmac_tag h) pk nfo out n) t i =
    Some (0, hkdf_T (hmac_tag h) pk nfo (Suc n), filled (hmac_tag h) pk nfo out (Suc n))"
proof -
  obtain m where m: "ba_ptr info = Some m" "unat (ba_len info) \<le> length m" "nfo = take (unat (ba_len info)) m"
    using info by (auto simp: ba_ok_def)
  define l where "l = unat (ba_len info)"
  have l: "length nfo = l" "ba_load info l = Some nfo"
    using m by (simp_all add: l_def ba_load_def load_def)
  obtain km where k: "ba_ptr prk = Some km" "unat (ba_len prk) \<le> length km" "pk = take (unat (ba_len prk)) km"
    using prk by (auto simp: ba_ok_def)
  have T: "hkdf_T (hmac_tag h) pk nfo (Suc n) = hmac_tag h pk ((if 0 < n then t else []) @ nfo @ [i])"
    using t(2) word_eq_of_nat [OF i] by (cases n) auto
  have gt: "i > 1 \<longleftrightarrow> 0 < n"
    using i by (simp add: word_less_nat_alt)
  have hmac: "hmac_ascon h t km (unat (ba_len prk)) msg ml = Some (0, hmac_tag h pk (take ml msg))"
    if "ml \<le> length msg" for msg ml
    using hmac_ascon_eq [of "unat (ba_len prk)" km ml msg t h] k that t(1) by (simp add: poke_def)
  define c where "c = min 32 (unat out_len - 32 * n)"
  define T' where "T' = hkdf_T (hmac_tag h) pk nfo (Suc n)"
  have len: "length T' = 32" "c \<le> 32" "32 * n + c \<le> length out"
    using out by (simp_all add: T'_def tag.length_T c_def del: hkdf_T.simps)
  have store: "store_int (filled (hmac_tag h) pk nfo out n) (int (32 * n)) (take c T') =
      Some (filled (hmac_tag h) pk nfo out (Suc n))"
    using tag.filled_step [OF out(2), of c h pk nfo] out(1) len
    by (simp only: store_int_nat store_def tag.length_filled c_def [symmetric] T'_def [symmetric] length_take
        min_absorb2 if_True simp_thms)
  have idx: "(int (unat i) - 1) * 32 = int (32 * n)"
    using i by simp
  have copy: "(if out_len - (ucast i - 1) * of_nat ASCON_HASH_SIZE < of_nat ASCON_HASH_SIZE
                         then unat out_len mod ASCON_HASH_SIZE else ASCON_HASH_SIZE) = c"
  proof -
    have "32 * n < unat out_len"
      using out by simp
    then show ?thesis
      unfolding ASCON_HASH_SIZE_def of_nat_numeral c_def by (rule expand_copy_len [OF i])
  qed
  have fin: "(do { block \<leftarrow> load T' 0 c;
           out \<leftarrow> store_int (filled (hmac_tag h) pk nfo out n) ((int (unat i) - 1) * int ASCON_HASH_SIZE) block;
           Some (0 :: int, T', out) }) = Some (0, T', filled (hmac_tag h) pk nfo out (Suc n))"
    using len store idx by (simp add: load_def ASCON_HASH_SIZE_def)
  have scratch: "ASCON_HASH_SIZE + l + 1 = 33 + l"
    by (simp add: ASCON_HASH_SIZE_def)
  have load_store: "load t 0 ASCON_HASH_SIZE = Some t" "\<And>m j bs. j + length bs \<le> length m \<Longrightarrow> store m j bs = Some (poke m j bs)"
    "ASCON_HASH_SIZE + k = 32 + k" for k
    using t(1) by (simp_all add: load_def store_def ASCON_HASH_SIZE_def)
  show ?thesis
  proof (cases "0 < n")
    case True
    have "hmac_ascon h t km (unat (ba_len prk)) (t @ nfo @ [i]) (Suc (32 + l)) = Some (0, T')"
      using hmac [of "Suc (32 + l)" "t @ nfo @ [i]"] t(1) l(1) T True by (simp add: T'_def)
    then show ?thesis
      using True gt l t(1) k(1) fin copy unfolding expand_step_def copy T'_def [symmetric]
      by (simp add: scratch load_store l_def [symmetric] poke_scratch Let_def)
  next
    case False
    have "hmac_ascon h t km (unat (ba_len prk)) (poke (poke (replicate (33 + l) 0) 0 nfo) l [i]) (Suc l) = Some (0, T')"
      using hmac [of "Suc l" "poke (poke (replicate (33 + l) 0) 0 nfo) l [i]"] l(1) T False
      by (simp add: T'_def poke_scratch)
    then show ?thesis
      using False gt l t(1) k(1) fin copy unfolding expand_step_def copy T'_def [symmetric]
      by (simp add: scratch load_store l_def [symmetric] Let_def)
  qed
qed

lemma expand_loop_eq:
  assumes prk: "ba_ok prk pk" and info: "ba_ok info nfo"
    and out: "length out = unat out_len" "unat it \<le> hkdf_N (length out)"
    and i: "unat i = Suc n" "n \<le> unat it"
    and t: "length t = 32" "0 < n \<longrightarrow> t = hkdf_T (hmac_tag h) pk nfo n"
  shows "expand_loop h prk info out_len (filled (hmac_tag h) pk nfo out n) t i it =
    (if unat it = 255 then None else Some (Crypto_ok, filled (hmac_tag h) pk nfo out (unat it)))"
  using i t
proof (induction "unat it - n" arbitrary: n i t)
  case 0
  then have "\<not> i \<le> it" "unat it \<noteq> 255" "unat it = n"
    using unsigned_less [of i, where ?'a = nat] by (simp_all add: word_le_nat_alt)
  then show ?case
    by (simp add: expand_loop.simps)
next
  case (Suc d)
  define T where "T = hkdf_T (hmac_tag h) pk nfo (Suc n)"
  have le: "i \<le> it" "Suc n \<le> unat it"
    using Suc by (simp_all add: word_le_nat_alt)
  then have n: "32 * n < length out"
    using out(2) by (simp add: hkdf_N_def)
  have step: "expand_step h prk info out_len (filled (hmac_tag h) pk nfo out n) t i =
      Some (0, T, filled (hmac_tag h) pk nfo out (Suc n))"
    unfolding T_def by (rule expand_step_eq [OF prk info Suc.prems(1) out(1) n Suc.prems(3,4)])
  show ?case
  proof (cases "Suc n = 255")
    case True
    then have it: "unat it = 255" "i + 1 = 0"
      using le Suc.prems(1) unsigned_less [of it, where ?'a = nat]
      by (simp, simp add: word_eq_iff_unsigned flip: unsigned_eq_0_iff [where 'a = nat])
        (simp add: unat_word_ariths)
    have "expand_step h prk info out_len out' t' 0 = None" for out' t'
      using expand_step_zero [of h prk info out_len out' t'] by (metis not_None_eq prod_cases3)
    then have "expand_loop h prk info out_len out' t' 0 it = None" for out' t'
      by (subst expand_loop.simps) simp
    then show ?thesis
      using it le step by (subst expand_loop.simps) simp
  next
    case False
    then have "unat (i + 1) = Suc (Suc n)"
      using Suc.prems(1) le unsigned_less [of it, where ?'a = nat] by (simp add: unat_word_ariths)
    moreover have "length T = 32"
      by (simp add: T_def tag.length_T del: hkdf_T.simps)
    ultimately have "expand_loop h prk info out_len (filled (hmac_tag h) pk nfo out (Suc n)) T (i + 1) it =
        (if unat it = 255 then None else Some (Crypto_ok, filled (hmac_tag h) pk nfo out (unat it)))"
      using Suc.hyps(2) le by (intro Suc.hyps(1)) (simp_all add: T_def)
    then show ?thesis
      using le step by (subst expand_loop.simps) simp
  qed
qed

lemma hkdf_expand_eq:
  assumes "ba_ok prk pk" "ba_ok info nfo" "length out = unat out_len" "length out + 31 < 2 ^ 32"
  shows "hkdf_expand h ASCON_HASH_256 prk info out out_len =
    (if hkdf_N (length out) mod 256 = 255 then None
     else Some (Crypto_ok, filled (hmac_tag h) pk nfo out (hkdf_N (length out) mod 256)))"
proof -
  define it where "it = (ucast ((out_len + of_nat ASCON_HASH_SIZE - 1) div of_nat ASCON_HASH_SIZE) :: byte)"
  have "unat (out_len + of_nat ASCON_HASH_SIZE - 1) = unat out_len + 31"
    using assms(3,4) by (simp add: ASCON_HASH_SIZE_def unat_word_ariths)
  then have it: "unat it = hkdf_N (length out) mod 256"
    using assms(3) by (simp add: it_def unsigned_ucast_eq take_bit_eq_mod unat_div ASCON_HASH_SIZE_def hkdf_N_def)
  then have "unat it \<le> hkdf_N (length out)"
    by simp
  then have "expand_loop h prk info out_len (filled (hmac_tag h) pk nfo out 0) (replicate ASCON_HASH_SIZE 0) 1 it =
      (if unat it = 255 then None else Some (Crypto_ok, filled (hmac_tag h) pk nfo out (unat it)))"
    using assms by (intro expand_loop_eq) (simp_all add: ASCON_HASH_SIZE_def)
  moreover have "\<not> unat it > 255"
    using unsigned_less [of it, where ?'a = nat] by simp
  ultimately show ?thesis
    unfolding hkdf_expand_def Let_def it_def [symmetric] it tag.filled_0 by simp
qed

text \<open>C26: What \<open>hkdf_expand\<close> really computes, for every length below the 32-bit limit: its block
  counter is the number of blocks modulo 256. When that is 255 the loop counter wraps and the
  function writes in front of the output buffer; otherwise it reports success after exactly that many
  blocks of RFC 5869, so that outputs longer than 255 blocks, which it means to refuse, are
  silently left unfilled.\<close>

theorem hkdf_expand_block_count:
  assumes "ba_ok prk pk" "ba_ok info nfo" "length out = unat out_len" "length out + 31 < 2 ^ 32"
  shows "hkdf_expand h ASCON_HASH_256 prk info out out_len =
    (let n = hkdf_N (length out) mod 256 in
     if n = 255 then None
     else Some (Crypto_ok, take (length out) (hkdf_blocks (hmac_tag h) pk nfo n @ drop (32 * n) out)))"
  using hkdf_expand_eq [OF assms, of h] by (simp add: filled_def Let_def)

definition example_array :: "memory \<Rightarrow> byte_array" where
  "example_array bs = \<lparr>ba_ptr = Some bs, ba_len = of_nat (length bs)\<rparr>"

lemma example_array_ok: "length bs < 2 ^ 32 \<Longrightarrow> ba_ok (example_array bs) bs"
  by (simp add: ba_ok_def example_array_def unsigned_of_nat take_bit_nat_eq_self)

theorem hkdf_expand_block_count_witness:
  "hkdf_expand toy_ascon ASCON_HASH_256 (example_array [1, 2]) (example_array [3]) (replicate 8192 0) 8192 =
    (let n = hkdf_N (length (replicate 8192 (0 :: byte))) mod 256 in
     if n = 255 then None
     else Some (Crypto_ok, take (length (replicate 8192 (0 :: byte)))
       (hkdf_blocks (hmac_tag toy_ascon) [1, 2] [3] n @ drop (32 * n) (replicate 8192 0))))"
  by (rule hkdf_expand_block_count) (simp_all only: example_array_ok length_replicate, simp_all add: example_array_ok)



section \<open>AEAD\<close>

text \<open>What the AEAD library documents: a ciphertext as long as the plaintext, a tag of the
  requested size, and decryption undoing encryption with the same parameters.\<close>

definition aead_contract :: "aead_encrypt \<Rightarrow> aead_decrypt \<Rightarrow> bool" where
  "aead_contract enc dec \<longleftrightarrow> (\<forall>k n ad m bits st ct tg. enc k n ad m bits = (st, ct, tg) \<longrightarrow>
     length ct = length m \<and> length tg = bits div 8 \<and> (\<exists>st'. \<not> st' < 0 \<and> dec k n ad ct tg bits = (st', m)))"

definition toy_encrypt :: aead_encrypt where
  "toy_encrypt k n ad m bits = (0, map (\<lambda>b. b XOR 0xaa) m, replicate (bits div 8) 7)"

definition toy_decrypt :: aead_decrypt where
  "toy_decrypt k n ad ct tg bits = (0, map (\<lambda>b. b XOR 0xaa) ct)"

lemma toy_contract: "aead_contract toy_encrypt toy_decrypt"
  by (auto simp: aead_contract_def toy_encrypt_def toy_decrypt_def comp_def xor.assoc)

lemma tag_length_cases: "tag_length alg = Some t \<Longrightarrow> t = 16 \<or> t = 8 \<or> t = 4"
  by (cases alg) auto

text \<open>C28: For each of the three algorithms, decrypting the ciphertext with the tag appended, as
  the OSCORE library transports it, restores the plaintext and its length; the tag has the size
  of the algorithm.\<close>

theorem aead_roundtrip:
  assumes "aead_contract enc dec" "tag_length alg = Some tlen"
    and "16 \<le> unat (ba_len key)" "ba_ok key kb" "16 \<le> unat (ba_len nonce)" "ba_ok nonce nb" "ba_ok aad ab"
    and "ba_ok plain m" "ba_ptr out = Some ob" "length ob = unat (ba_len out)" "ba_len plain \<le> ba_len out"
    and "ba_ptr tag = Some tb" "length tb = unat (ba_len tag)" "tlen \<le> ba_len tag"
    and "enc (take 16 kb) (take 16 nb) ab m (unat tlen * 8) = (st, ct, tg)" "\<not> st < 0"
    and "length m + 16 < 2 ^ 32" "length ob2 = unat (ba_len out2)" "ba_ptr out2 = Some ob2" "length m \<le> length ob2"
  shows "aead enc dec (Some alg) ENCRYPT plain key nonce aad out tag =
      Some (Crypto_ok, out\<lparr>ba_ptr := Some (ct @ drop (length m) ob)\<rparr>,
        tag\<lparr>ba_ptr := Some (tg @ drop (unat tlen) tb), ba_len := tlen\<rparr>)
    \<and> aead enc dec (Some alg) DECRYPT \<lparr>ba_ptr = Some (ct @ tg), ba_len = of_nat (length m) + tlen\<rparr> key nonce aad out2 tag =
      Some (Crypto_ok, out2\<lparr>ba_ptr := Some (m @ drop (length m) ob2), ba_len := of_nat (length m)\<rparr>,
        tag\<lparr>ba_len := tlen\<rparr>)"
proof -
  have tlen: "unat tlen \<le> 16" "unat tlen * 8 div 8 = unat tlen"
    using tag_length_cases [OF assms(2)] by auto
  have c: "length ct = length m" "length tg = unat tlen"
    using assms(1,15) tlen(2) by (auto simp: aead_contract_def)
  obtain st' where dec: "\<not> st' < 0" "dec (take 16 kb) (take 16 nb) ab ct tg (unat tlen * 8) = (st', m)"
    using assms(1,15) unfolding aead_contract_def by blast
  have load16: "ba_load b 16 = Some (take 16 bs)" if "ba_ok b bs" "16 \<le> unat (ba_len b)" for b bs
    using that by (auto simp: ba_ok_def ba_load_def load_def)
  have load: "ba_load b (unat (ba_len b)) = Some bs" if "ba_ok b bs" for b bs
    using that by (auto simp: ba_ok_def ba_load_def load_def)
  have plain: "unat (ba_len plain) = length m"
    using assms(8) by (auto simp: ba_ok_def)
  have "\<not> ba_len out < ba_len plain" "\<not> ba_len tag < tlen" "length m \<le> length ob" "unat tlen \<le> length tb"
    using assms(10,11,13,14) plain by (simp_all add: word_le_nat_alt not_less)
  then have "aead enc dec (Some alg) ENCRYPT plain key nonce aad out tag =
      Some (Crypto_ok, out\<lparr>ba_ptr := Some (ct @ drop (length m) ob)\<rparr>,
        tag\<lparr>ba_ptr := Some (tg @ drop (unat tlen) tb), ba_len := tlen\<rparr>)"
    using assms load16 [OF assms(4,3)] load16 [OF assms(6,5)] load [OF assms(7)] load [OF assms(8)] c
    by (simp add: aead_def ASCON_KEY_BYTES_def ASCON_NONCE_BYTES_def store_def poke_def)
  moreover
  define n where "n = (of_nat (length m) :: u32)"
  have n: "unat n = length m"
    using assms(17) unfolding n_def by (intro unat_of_nat_small) simp
  have sum: "unat (n + tlen) = length m + unat tlen"
    using assms(17) tlen(1) n by (simp add: unat_word_ariths)
  have "\<not> ba_len out2 < n" "\<not> n + tlen < tlen"
    using assms(18,20) n sum by (simp_all add: word_less_nat_alt)
  then have "aead enc dec (Some alg) DECRYPT \<lparr>ba_ptr = Some (ct @ tg), ba_len = n + tlen\<rparr> key nonce aad out2 tag =
      Some (Crypto_ok, out2\<lparr>ba_ptr := Some (m @ drop (length m) ob2), ba_len := n\<rparr>, tag\<lparr>ba_len := tlen\<rparr>)"
    using assms(2,3,5,18,19,20) load16 [OF assms(4,3)] load16 [OF assms(6,5)] load [OF assms(7)] c n sum dec
    by (simp add: aead_def ASCON_KEY_BYTES_def ASCON_NONCE_BYTES_def ba_load_def load_def store_def poke_def)
  ultimately show ?thesis
    by (simp only: n_def)
qed

theorem aead_roundtrip_witness:
  "aead toy_encrypt toy_decrypt (Some OSCORE_ASCONAEAD128_64) ENCRYPT (example_array [1, 2, 3])
      (example_array (replicate 16 5)) (example_array (replicate 16 6)) (example_array [9])
      (example_array (replicate 4 0)) (example_array (replicate 16 0)) =
      Some (Crypto_ok, (example_array (replicate 4 0))\<lparr>ba_ptr := Some (map (\<lambda>b. b XOR 0xaa) [1, 2, 3]
        @ drop (length [1, 2, 3 :: byte]) (replicate 4 0))\<rparr>,
        (example_array (replicate 16 0))\<lparr>ba_ptr := Some (replicate 8 7 @ drop (unat (8 :: u32)) (replicate 16 0)), ba_len := 8\<rparr>)
    \<and> aead toy_encrypt toy_decrypt (Some OSCORE_ASCONAEAD128_64) DECRYPT
      \<lparr>ba_ptr = Some (map (\<lambda>b. b XOR 0xaa) [1, 2, 3] @ replicate 8 7), ba_len = of_nat (length [1, 2, 3 :: byte]) + 8\<rparr>
      (example_array (replicate 16 5)) (example_array (replicate 16 6)) (example_array [9])
      (example_array (replicate 5 0)) (example_array (replicate 16 0)) =
      Some (Crypto_ok, (example_array (replicate 5 0))\<lparr>ba_ptr := Some ([1, 2, 3] @ drop (length [1, 2, 3 :: byte]) (replicate 5 0)),
          ba_len := of_nat (length [1, 2, 3 :: byte])\<rparr>,
        (example_array (replicate 16 0))\<lparr>ba_len := 8\<rparr>)"
proof (rule aead_roundtrip [OF toy_contract])
  show "ba_ok (example_array (replicate 16 5)) (replicate 16 5)" "ba_ok (example_array (replicate 16 6)) (replicate 16 6)"
    "ba_ok (example_array [9]) [9]" "ba_ok (example_array [1, 2, 3]) [1, 2, 3]"
    by (simp_all add: example_array_ok)
  show "toy_encrypt (take 16 (replicate 16 5)) (take 16 (replicate 16 6)) [9] [1, 2, 3] (unat (8 :: u32) * 8) =
      (0, map (\<lambda>b. b XOR 0xaa) [1, 2, 3], replicate 8 7)"
    by (simp add: toy_encrypt_def)
qed (simp_all add: example_array_def)

end
