(* ===== verification/Rules.thy ===== *)
theory Rules
  imports Prelude
begin

text \<open>
  Compression rules as the rule files of \<open>libs/schc_comp_apis/oscore_basic/src\<close> and
  \<open>templates\<close> write them, and what they mean.

  The rule engine is not part of the sources; its C types are those the initialisers show: a
  bit string is bytes, a bit offset and a bit length; a target value is one bit string or a list
  of them; a rule field has eight members in the order of the initialisers. A rule
  records the arguments of its \<open>init_rule\<close> call, with the size of the array passed to it, and the
  fields of its \<open>add_rule_field\<close> calls in order; a rule set does the same for \<open>init_rules\<close> and
  \<open>add_rule\<close>. The numbers behind the \<open>COAP_\<close> macros of the engine are a parameter.

  The meaning is the specification of RFC 8724: which packets a rule matches, what it sends for
  them and what the receiver rebuilds.
\<close>

section \<open>Data\<close>

definition CHAR_BIT :: nat where "CHAR_BIT = 8"

definition c_array :: "string \<Rightarrow> memory" where
  "c_array s = map of_char s @ [0]"

datatype coap_code = COAP_EMPTY | COAP_GET | COAP_POST | COAP_PUT | COAP_DELETE | COAP_FETCH
  | COAP_CREATED | COAP_DELETED | COAP_CHANGED | COAP_CONTENT

datatype fid = FID_IPV6_VERSION | FID_IPV6_TRAFFIC_CLASS | FID_IPV6_FLOW_LABEL | FID_IPV6_PAYLOAD_LENGTH
  | FID_IPV6_NEXT_HEADER | FID_IPV6_HOP_LIMIT | FID_IPV6_PREFIX_DEV | FID_IPV6_IID_DEV
  | FID_IPV6_PREFIX_APP | FID_IPV6_IID_APP | FID_UDP_PORT_DEV | FID_UDP_PORT_APP | FID_UDP_LENGTH
  | FID_UDP_CHECKSUM | FID_COAP_VERSION | FID_COAP_TYPE | FID_COAP_TOKEN_LENGTH | FID_COAP_CODE
  | FID_COAP_MSG_ID | FID_COAP_TOKEN | FID_COAP_OBSERVE | FID_COAP_OSCORE | FID_COAP_URI_PATH
  | FID_COAP_URI_QUERY | FID_COAP_CONTENT_FORMAT | FID_COAP_ACCEPT | FID_COAP_LOCATION_PATH

datatype direction = DIR_BI
datatype matching_op = MO_EQUAL | MO_IGNORE | MO_MSB | MO_MAPPING
datatype action = CDA_NOT_SENT | CDA_VALUE_SENT | CDA_COMPUTE_LENGTH | CDA_COMPUTE_CHECKSUM
  | CDA_MAPPING_SENT | CDA_LSB
datatype stack = STACK_IPV6_UDP | STACK_IPV6_UDP_COAP | STACK_OSCORE_PLAINTEXT

datatype bit_string = Bit_string (bs_ptr: memory) (bs_offset: nat) (bs_length: nat)
datatype target_value = TV_BIT_STRING bit_string | TV_MAPPED_VALUES nat "bit_string list"

datatype rule_field = Rule_field (field_id: fid) (position: nat) (direction: direction)
  (target: "target_value option") (field_length: nat) (field_mo: matching_op) (mo_arg: nat) (field_cda: action)

record rule =
  rule_id :: nat
  rule_stack :: stack
  fields_size :: nat
  rule_fields :: "rule_field list"

definition init_rule :: "nat \<Rightarrow> stack \<Rightarrow> nat \<Rightarrow> rule" where
  "init_rule i st n = \<lparr>rule_id = i, rule_stack = st, fields_size = n, rule_fields = []\<rparr>"

definition add_rule_field :: "rule_field \<Rightarrow> rule \<Rightarrow> rule" where
  "add_rule_field f r = r\<lparr>rule_fields := rule_fields r @ [f]\<rparr>"

record rules =
  no_comp_rule_id :: nat
  rules_size :: nat
  rule_array :: "rule list"

definition init_rules :: "nat \<Rightarrow> nat \<Rightarrow> rules" where
  "init_rules n no_comp = \<lparr>no_comp_rule_id = no_comp, rules_size = n, rule_array = []\<rparr>"

definition add_rule :: "rule \<Rightarrow> rules \<Rightarrow> rules" where
  "add_rule r rs = rs\<lparr>rule_array := rule_array rs @ [r]\<rparr>"

lemma fold_add_fields [simp]:
  "rule_fields (fold add_rule_field fs r) = rule_fields r @ fs" "rule_id (fold add_rule_field fs r) = rule_id r"
  "fields_size (fold add_rule_field fs r) = fields_size r" "rule_stack (fold add_rule_field fs r) = rule_stack r"
  by (induction fs arbitrary: r) (simp_all add: add_rule_field_def)

lemma fold_add_rules [simp]:
  "rule_array (fold add_rule xs rs) = rule_array rs @ xs" "rules_size (fold add_rule xs rs) = rules_size rs"
  "no_comp_rule_id (fold add_rule xs rs) = no_comp_rule_id rs"
  by (induction xs arbitrary: rs) (simp_all add: add_rule_def)

lemma add_simps [simp]:
  "rule_fields (add_rule_field f r) = rule_fields r @ [f]" "rule_id (add_rule_field f r) = rule_id r"
  "fields_size (add_rule_field f r) = fields_size r"
  "rule_array (add_rule x rs) = rule_array rs @ [x]" "rules_size (add_rule x rs) = rules_size rs"
  "no_comp_rule_id (add_rule x rs) = no_comp_rule_id rs"
  by (simp_all add: add_rule_field_def add_rule_def)

lemma init_simps [simp]:
  "rule_fields (init_rule i st n) = []" "rule_id (init_rule i st n) = i" "fields_size (init_rule i st n) = n"
  "rule_array (init_rules k c) = []" "rules_size (init_rules k c) = k" "no_comp_rule_id (init_rules k c) = c"
  by (simp_all add: init_rule_def init_rules_def)

text \<open>The arrays passed to the engine hold what is added to them, and no rule shares its
  identifier with another or with the one that means no compression.\<close>

definition rules_fit :: "rules \<Rightarrow> bool" where
  "rules_fit rs \<longleftrightarrow> length (rule_array rs) \<le> rules_size rs
     \<and> list_all (\<lambda>r. length (rule_fields r) \<le> fields_size r) (rule_array rs)
     \<and> distinct (no_comp_rule_id rs # map rule_id (rule_array rs))"

section \<open>Meaning\<close>

definition byte_bits :: "byte \<Rightarrow> bool list" where
  "byte_bits b = map (bit b) [7, 6, 5, 4, 3, 2, 1, 0]"

definition bits_of :: "bit_string \<Rightarrow> bool list" where
  "bits_of b = take (bs_length b) (drop (bs_offset b) (concat (map byte_bits (bs_ptr b))))"

fun target_bits :: "target_value option \<Rightarrow> bool list" where
  "target_bits (Some (TV_BIT_STRING b)) = bits_of b"
| "target_bits _ = []"

fun target_list :: "target_value option \<Rightarrow> bool list list" where
  "target_list (Some (TV_MAPPED_VALUES n bs)) = map bits_of bs"
| "target_list _ = []"

definition matches_field :: "rule_field \<Rightarrow> bool list \<Rightarrow> bool" where
  "matches_field f v =
     (case field_mo f of
        MO_EQUAL \<Rightarrow> v = target_bits (target f)
      | MO_IGNORE \<Rightarrow> field_length f \<noteq> 0 \<longrightarrow> length v = field_length f
      | MO_MSB \<Rightarrow> mo_arg f \<le> length v \<and> take (mo_arg f) v = take (mo_arg f) (target_bits (target f))
      | MO_MAPPING \<Rightarrow> v \<in> set (target_list (target f)))"

datatype residue = Nothing | Bits "bool list" | Index nat

definition first_index :: "'a \<Rightarrow> 'a list \<Rightarrow> nat" where
  "first_index x xs = length (takeWhile (\<lambda>y. y \<noteq> x) xs)"

definition compress_field :: "rule_field \<Rightarrow> bool list \<Rightarrow> residue" where
  "compress_field f v =
     (case field_cda f of
        CDA_VALUE_SENT \<Rightarrow> Bits v
      | CDA_LSB \<Rightarrow> Bits (drop (mo_arg f) v)
      | CDA_MAPPING_SENT \<Rightarrow> Index (first_index v (target_list (target f)))
      | _ \<Rightarrow> Nothing)"

text \<open>\<open>computed\<close> is the value the receiver recomputes for length and checksum fields.\<close>

definition decompress_field :: "rule_field \<Rightarrow> bool list \<Rightarrow> residue \<Rightarrow> bool list option" where
  "decompress_field f computed r =
     (case (field_cda f, r) of
        (CDA_NOT_SENT, Nothing) \<Rightarrow> Some (target_bits (target f))
      | (CDA_VALUE_SENT, Bits v) \<Rightarrow> Some v
      | (CDA_COMPUTE_LENGTH, Nothing) \<Rightarrow> Some computed
      | (CDA_COMPUTE_CHECKSUM, Nothing) \<Rightarrow> Some computed
      | (CDA_LSB, Bits v) \<Rightarrow> Some (take (mo_arg f) (target_bits (target f)) @ v)
      | (CDA_MAPPING_SENT, Index i) \<Rightarrow>
          if i < length (target_list (target f)) then Some (target_list (target f) ! i) else None
      | _ \<Rightarrow> None)"

text \<open>A packet is the sequence of its header fields: identifier, position and value.\<close>

type_synonym packet = "(fid \<times> nat \<times> bool list) list"

definition matches_rule :: "rule \<Rightarrow> packet \<Rightarrow> bool" where
  "matches_rule r p =
     list_all2 (\<lambda>f (i, k, v). field_id f = i \<and> position f = k \<and> matches_field f v) (rule_fields r) p"

definition schc_compress :: "rules \<Rightarrow> packet \<Rightarrow> (nat \<times> residue list) option" where
  "schc_compress rs p =
     map_option (\<lambda>r. (rule_id r, map2 (\<lambda>f (i, k, v). compress_field f v) (rule_fields r) p))
       (find (\<lambda>r. matches_rule r p) (rule_array rs))"

text \<open>\<open>computed\<close> gives the recomputed value of each field identifier.\<close>

fun decompress_fields :: "(fid \<Rightarrow> bool list) \<Rightarrow> rule_field list \<Rightarrow> residue list \<Rightarrow> packet option" where
  "decompress_fields computed (f # fs) (r # rs) =
     do { v \<leftarrow> decompress_field f (computed (field_id f)) r;
          p \<leftarrow> decompress_fields computed fs rs;
          Some ((field_id f, position f, v) # p) }"
| "decompress_fields computed [] [] = Some []"
| "decompress_fields computed _ _ = None"

definition schc_decompress :: "(fid \<Rightarrow> bool list) \<Rightarrow> rules \<Rightarrow> nat \<times> residue list \<Rightarrow> packet option" where
  "schc_decompress computed rs c =
     do { r \<leftarrow> find (\<lambda>r. rule_id r = fst c) (rule_array rs);
          decompress_fields computed (rule_fields r) (snd c) }"

section \<open>Which fields are restored\<close>

text \<open>A syntactic criterion: the matching operator pins down what the action does not send.\<close>

fun restorable :: "rule_field \<Rightarrow> bool" where
  "restorable (Rule_field i k d t n MO_EQUAL a CDA_NOT_SENT) = True"
| "restorable (Rule_field i k d t n m a CDA_VALUE_SENT) = True"
| "restorable (Rule_field i k d t n m a CDA_COMPUTE_LENGTH) = True"
| "restorable (Rule_field i k d t n m a CDA_COMPUTE_CHECKSUM) = True"
| "restorable (Rule_field i k d t n MO_MSB a CDA_LSB) = True"
| "restorable (Rule_field i k d t n MO_MAPPING a CDA_MAPPING_SENT) = True"
| "restorable _ = False"

definition computes :: "rule_field \<Rightarrow> bool" where
  "computes f \<longleftrightarrow> field_cda f \<in> {CDA_COMPUTE_LENGTH, CDA_COMPUTE_CHECKSUM}"

lemma nth_first_index: "x \<in> set xs \<Longrightarrow> first_index x xs < length xs \<and> xs ! first_index x xs = x"
  unfolding first_index_def by (induction xs) auto

lemma restorable_field:
  "restorable f \<Longrightarrow> matches_field f v \<Longrightarrow> (computes f \<longrightarrow> c = v) \<Longrightarrow>
    decompress_field f c (compress_field f v) = Some v"
proof (induction f rule: restorable.induct)
  case (5 i k d t n a)
  then show ?case
    using append_take_drop_id [of a v] by (simp add: matches_field_def compress_field_def decompress_field_def)
next
  case (6 i k d t n a)
  then show ?case
    using nth_first_index [of v "target_list t"]
    by (auto simp: matches_field_def compress_field_def decompress_field_def)
qed (simp_all add: matches_field_def compress_field_def decompress_field_def computes_def)

lemma ignored_field:
  "field_cda f = CDA_NOT_SENT \<Longrightarrow> decompress_field f c (compress_field f v) = Some (target_bits (target f))"
  by (simp add: compress_field_def decompress_field_def)

text \<open>The packet the receiver rebuilds: the fields a rule ignores and does not send get the
  target value of the rule.\<close>

definition rebuilt :: "rule_field \<Rightarrow> bool list \<Rightarrow> bool list" where
  "rebuilt f v = (if restorable f then v else target_bits (target f))"

definition proper :: "rule_field \<Rightarrow> bool" where
  "proper f \<longleftrightarrow> restorable f \<or> field_cda f = CDA_NOT_SENT"

text \<open>The receiver recomputes what the sender had in the fields the rule computes.\<close>

definition recomputed :: "(fid \<Rightarrow> bool list) \<Rightarrow> rule_field list \<Rightarrow> packet \<Rightarrow> bool" where
  "recomputed computed fs p \<longleftrightarrow> (\<forall>(f, i, k, v) \<in> set (zip fs p). computes f \<longrightarrow> computed i = v)"

lemma decompress_fields_rebuilt:
  assumes "list_all2 (\<lambda>f (i, k, v). field_id f = i \<and> position f = k \<and> matches_field f v) fs p"
    and "\<forall>f \<in> set fs. proper f" "recomputed computed fs p"
  shows "decompress_fields computed fs (map2 (\<lambda>f (i, k, v). compress_field f v) fs p) =
    Some (map2 (\<lambda>f (i, k, v). (i, k, rebuilt f v)) fs p)"
  using assms
proof (induction fs p rule: list_all2_induct)
  case (Cons f fs x p)
  obtain i k v where x: "x = (i, k, v)"
    by (cases x)
  have "decompress_field f (computed (field_id f)) (compress_field f v) = Some (rebuilt f v)"
  proof (cases "restorable f")
    case True
    have "computes f \<longrightarrow> computed (field_id f) = v"
      using Cons.prems Cons.hyps(1) by (simp add: x recomputed_def)
    then show ?thesis
      using True Cons.hyps(1) restorable_field [of f v] by (simp add: x rebuilt_def)
  next
    case False
    then show ?thesis
      using Cons.prems by (simp add: proper_def rebuilt_def ignored_field)
  qed
  moreover have "decompress_fields computed fs (map2 (\<lambda>f (i, k, v). compress_field f v) fs p) =
      Some (map2 (\<lambda>f (i, k, v). (i, k, rebuilt f v)) fs p)"
    using Cons.prems by (intro Cons.IH) (auto simp: recomputed_def)
  ultimately show ?case
    using Cons.hyps(1) by (simp add: x)
qed simp

lemma find_by_id:
  "distinct (map rule_id rs) \<Longrightarrow> r \<in> set rs \<Longrightarrow> find (\<lambda>s. rule_id s = rule_id r) rs = Some r"
  by (induction rs) (auto dest: arg_cong [where f = rule_id])

lemma compress_matches:
  assumes "schc_compress rs p = Some c"
  obtains r where "r \<in> set (rule_array rs)" "matches_rule r p"
    "c = (rule_id r, map2 (\<lambda>f (i, k, v). compress_field f v) (rule_fields r) p)"
proof -
  obtain r where r: "find (\<lambda>r. matches_rule r p) (rule_array rs) = Some r"
      "c = (rule_id r, map2 (\<lambda>f (i, k, v). compress_field f v) (rule_fields r) p)"
    using assms by (auto simp: schc_compress_def)
  then have "r \<in> set (rule_array rs)" "matches_rule r p"
    using nth_mem by (auto simp: find_Some_iff)
  with r(2) that show thesis
    by blast
qed

lemma matches_rule_ids:
  assumes "matches_rule r p" "\<forall>f \<in> set (rule_fields r). P (field_id f)"
  shows "\<forall>(i, k, v) \<in> set p. P i"
proof -
  have "list_all2 (\<lambda>f (i, k, v). field_id f = i \<and> position f = k \<and> matches_field f v) fs q \<Longrightarrow>
      \<forall>f \<in> set fs. P (field_id f) \<Longrightarrow> \<forall>(i, k, v) \<in> set q. P i" for fs q
    by (induction rule: list_all2_induct) auto
  then show ?thesis
    using assms unfolding matches_rule_def by blast
qed

section \<open>Rule tables\<close>

text \<open>What a rule file promises: its arrays are large enough, every field is restored by the receiver
  except the given ones, which become a fixed value, and only length and checksum fields are
  recomputed.\<close>

definition computed_ids :: "fid set" where
  "computed_ids = {FID_IPV6_PAYLOAD_LENGTH, FID_UDP_LENGTH, FID_UDP_CHECKSUM}"

definition field_ok :: "(fid \<Rightarrow> bool list option) \<Rightarrow> rule_field \<Rightarrow> bool" where
  "field_ok fixed f \<longleftrightarrow> (computes f \<longrightarrow> field_id f \<in> computed_ids) \<and>
     (case fixed (field_id f) of
        None \<Rightarrow> restorable f
      | Some v \<Rightarrow> \<not> restorable f \<and> field_cda f = CDA_NOT_SENT \<and> target_bits (target f) = v)"

definition received :: "(fid \<Rightarrow> bool list option) \<Rightarrow> packet \<Rightarrow> packet" where
  "received fixed p = map (\<lambda>(i, k, v). (i, k, case fixed i of None \<Rightarrow> v | Some w \<Rightarrow> w)) p"

locale rule_table =
  fixes rs :: rules and fixed :: "fid \<Rightarrow> bool list option"
  assumes fit: "rules_fit rs"
    and fields: "list_all (\<lambda>r. list_all (field_ok fixed) (rule_fields r)) (rule_array rs)"
begin

lemma field: "r \<in> set (rule_array rs) \<Longrightarrow> f \<in> set (rule_fields r) \<Longrightarrow> field_ok fixed f"
  using fields by (auto simp: list_all_iff)

lemma rebuilt_received:
  assumes "list_all2 (\<lambda>f (i, k, v). field_id f = i \<and> position f = k \<and> matches_field f v) fs p"
    and "\<forall>f \<in> set fs. field_ok fixed f"
  shows "map2 (\<lambda>f (i, k, v). (i, k, rebuilt f v)) fs p = received fixed p"
  using assms
  by (induction fs p rule: list_all2_induct)
    (auto simp: received_def rebuilt_def field_ok_def split: option.splits)

lemma restored_by:
  assumes "r \<in> set (rule_array rs)" "matches_rule r p"
    and "\<forall>(i, k, v) \<in> set p. i \<in> computed_ids \<longrightarrow> computed i = v"
  shows "schc_decompress computed rs (rule_id r, map2 (\<lambda>f (i, k, v). compress_field f v) (rule_fields r) p) =
    Some (received fixed p)"
proof -
  have "\<forall>f \<in> set (rule_fields r). proper f"
    using field [OF assms(1)] by (fastforce simp: field_ok_def proper_def split: option.splits)
  moreover have "recomputed computed (rule_fields r) p"
    unfolding recomputed_def
  proof (clarify)
    fix f i k v assume z: "(f, i, k, v) \<in> set (zip (rule_fields r) p)" and "computes f"
    then have "field_id f = i" "field_ok fixed f" "(i, k, v) \<in> set p"
      using assms(2) field [OF assms(1)] by (auto simp: matches_rule_def list_all2_iff dest: set_zip_leftD set_zip_rightD)
    then show "computed i = v"
      using \<open>computes f\<close> assms(3) by (auto simp: field_ok_def)
  qed
  ultimately have "decompress_fields computed (rule_fields r) (map2 (\<lambda>f (i, k, v). compress_field f v) (rule_fields r) p) =
      Some (map2 (\<lambda>f (i, k, v). (i, k, rebuilt f v)) (rule_fields r) p)"
    using assms(2) by (intro decompress_fields_rebuilt) (simp_all add: matches_rule_def)
  moreover have "find (\<lambda>s. rule_id s = rule_id r) (rule_array rs) = Some r"
    using fit assms(1) by (intro find_by_id) (simp_all add: rules_fit_def)
  ultimately show ?thesis
    using rebuilt_received [of "rule_fields r" p] field [OF assms(1)] assms(2)
    by (simp add: schc_decompress_def matches_rule_def)
qed

lemma restored:
  assumes "schc_compress rs p = Some c" and "\<forall>(i, k, v) \<in> set p. i \<in> computed_ids \<longrightarrow> computed i = v"
  shows "schc_decompress computed rs c = Some (received fixed p)"
proof -
  obtain r where "r \<in> set (rule_array rs)" "matches_rule r p"
    "c = (rule_id r, map2 (\<lambda>f (i, k, v). compress_field f v) (rule_fields r) p)"
    using assms(1) by (rule compress_matches)
  with restored_by assms(2) show ?thesis
    by simp
qed

lemma restored_lossless:
  assumes "fixed = (\<lambda>i. None)" "schc_compress rs p = Some c"
    and "\<forall>(i, k, v) \<in> set p. i \<in> computed_ids \<longrightarrow> computed i = v"
  shows "schc_decompress computed rs c = Some p"
  using restored [OF assms(2,3)] by (simp add: received_def assms(1) case_prod_unfold)

end

section \<open>Two tables\<close>

text \<open>
  Two tables that differ only in what some fields are compared with: \<open>face\<close> gives the target values
  of those fields in the second. A packet the first compresses comes out of the second with
  these values.
\<close>

definition redirected :: "(fid \<Rightarrow> bool list option) \<Rightarrow> rule_field \<Rightarrow> rule_field \<Rightarrow> bool" where
  "redirected face f g \<longleftrightarrow>
     (case face (field_id f) of
        None \<Rightarrow> g = f
      | Some w \<Rightarrow> field_id g = field_id f \<and> position g = position f \<and> field_mo g = MO_EQUAL
          \<and> field_cda f = CDA_NOT_SENT \<and> field_cda g = CDA_NOT_SENT \<and> target_bits (target g) = w)"

lemma redirected_field:
  assumes "redirected face f g" and "matches_field f v"
  shows "field_id g = field_id f" "position g = position f"
    and "matches_field g (case face (field_id f) of None \<Rightarrow> v | Some w \<Rightarrow> w)"
    and "compress_field g (case face (field_id f) of None \<Rightarrow> v | Some w \<Rightarrow> w) = compress_field f v"
  using assms
  by (cases "face (field_id f)"; simp add: redirected_def matches_field_def compress_field_def)+

lemma redirected_match:
  assumes "list_all2 (\<lambda>f (i, k, v). field_id f = i \<and> position f = k \<and> matches_field f v) fs p"
    and "list_all2 (redirected face) fs gs"
  shows "list_all2 (\<lambda>f (i, k, v). field_id f = i \<and> position f = k \<and> matches_field f v) gs (received face p)
    \<and> map2 (\<lambda>f (i, k, v). compress_field f v) gs (received face p) = map2 (\<lambda>f (i, k, v). compress_field f v) fs p"
  using assms
proof (induction fs p arbitrary: gs rule: list_all2_induct)
  case (Cons f fs x p)
  obtain g gs' where gs: "gs = g # gs'" "redirected face f g" "list_all2 (redirected face) fs gs'"
    using Cons.prems by (auto simp: list_all2_Cons1)
  obtain v where x: "x = (field_id f, position f, v)" "matches_field f v"
    using Cons.hyps(1) by (cases x) auto
  show ?case
    using Cons.IH [OF gs(3)] redirected_field [OF gs(2) x(2)] by (simp add: gs(1) x(1) received_def)
qed (simp add: received_def)

section \<open>Which rules can match the same packet\<close>

definition byte_seq :: "memory \<Rightarrow> bool list" where
  "byte_seq m = concat (map byte_bits m)"

lemma byte_bits_inj [simp]: "byte_bits a = byte_bits b \<longleftrightarrow> a = b"
proof
  assume "byte_bits a = byte_bits b"
  then have all: "\<forall>n \<in> set [7, 6, 5, 4, 3, 2, 1, 0 :: nat]. bit a n = bit b n"
    by (simp add: byte_bits_def)
  show "a = b"
  proof (rule bit_word_eqI)
    fix n assume "n < LENGTH(8)"
    then have "n \<in> set [7, 6, 5, 4, 3, 2, 1, 0 :: nat]"
      by (simp add: numeral_eq_Suc less_Suc_eq) auto
    with all show "bit a n = bit b n"
      by (rule bspec)
  qed
qed simp

lemma length_byte_bits [simp]: "length (byte_bits b) = 8"
  by (simp add: byte_bits_def)

lemma length_byte_seq [simp]: "length (byte_seq m) = length m * 8"
  by (induction m) (simp_all add: byte_seq_def)

lemma byte_seq_inj [simp]: "byte_seq a = byte_seq b \<longleftrightarrow> a = b"
proof (induction a arbitrary: b)
  case Nil
  show ?case
  proof
    assume "byte_seq [] = byte_seq b"
    then have "length (byte_seq []) = length (byte_seq b)"
      by simp
    then show "[] = b"
      by (simp only: length_byte_seq) simp
  qed simp
next
  case (Cons x a)
  show ?case
  proof (cases b)
    case Nil
    then have "length (byte_seq (x # a)) \<noteq> length (byte_seq b)"
      by (simp only: length_byte_seq) simp
    then show ?thesis
      using Nil by metis
  next
    case (Cons y b')
    have "byte_seq (x # a) = byte_seq (y # b') \<longleftrightarrow> byte_bits x = byte_bits y \<and> byte_seq a = byte_seq b'"
      unfolding byte_seq_def list.map concat.simps by (rule append_eq_append_conv) simp
    then show ?thesis
      using Cons Cons.IH by simp
  qed
qed

lemma bits_whole: "n = length m * 8 \<Longrightarrow> bits_of (Bit_string m 0 n) = byte_seq m"
  using length_byte_seq [of m] by (simp add: bits_of_def byte_seq_def)

lemma bits_text:
  "bits_of (Bit_string (c_array s) 0 ((length (c_array s) - Suc 0) * CHAR_BIT)) = byte_seq (map of_char s)"
  using length_byte_seq [of "map of_char s"] by (simp add: bits_of_def byte_seq_def c_array_def CHAR_BIT_def)

lemma unat_of_char_byte: "unat (of_char c :: byte) = of_char c"
proof -
  have "unat (of_nat (of_char c) :: byte) = of_char c"
    using nat_of_char_less_256 [of c] by (intro unat_of_nat_small) simp
  then show ?thesis
    by (simp only: of_nat_of_char)
qed

lemma of_char_byte_inj [simp]: "(of_char c :: byte) = of_char d \<longleftrightarrow> c = d"
proof
  assume "(of_char c :: byte) = of_char d"
  then have "(of_char c :: nat) = of_char d"
    using unat_of_char_byte [of c] unat_of_char_byte [of d] by (simp only:)
  then show "c = d"
    by (simp only: of_char_eq_iff)
qed simp

lemma text_inj [simp]: "(map of_char s :: memory) = map of_char t \<longleftrightarrow> s = t"
  by (rule inj_map_eq_map) (simp add: inj_def)

definition text_bits :: "string \<Rightarrow> bool list" where
  "text_bits s = byte_seq (map of_char s)"

lemma text_bits_inj [simp]: "text_bits s = text_bits t \<longleftrightarrow> s = t"
  by (simp add: text_bits_def)

text \<open>The positions of a rule with the values it requires, where it requires one.\<close>

definition signature :: "rule \<Rightarrow> (fid \<times> nat \<times> bool list option) list" where
  "signature r = map (\<lambda>f. (field_id f, position f,
     if field_mo f = MO_EQUAL then Some (target_bits (target f)) else None)) (rule_fields r)"

fun compatible :: "(fid \<times> nat \<times> bool list option) list \<Rightarrow> (fid \<times> nat \<times> bool list option) list \<Rightarrow> bool" where
  "compatible ((i, k, x) # xs) ((j, l, y) # ys) \<longleftrightarrow>
     i = j \<and> k = l \<and> (x = None \<or> y = None \<or> x = y) \<and> compatible xs ys"
| "compatible [] [] \<longleftrightarrow> True"
| "compatible _ _ \<longleftrightarrow> False"

lemma matches_compatible:
  assumes "matches_rule r p" "matches_rule s p"
  shows "compatible (signature r) (signature s)"
proof -
  have "list_all2 (\<lambda>f (i, k, v). field_id f = i \<and> position f = k \<and> matches_field f v) fs p \<Longrightarrow>
      list_all2 (\<lambda>f (i, k, v). field_id f = i \<and> position f = k \<and> matches_field f v) gs p \<Longrightarrow>
      compatible (map (\<lambda>f. (field_id f, position f, if field_mo f = MO_EQUAL then Some (target_bits (target f)) else None)) fs)
        (map (\<lambda>f. (field_id f, position f, if field_mo f = MO_EQUAL then Some (target_bits (target f)) else None)) gs)"
    for fs gs
    by (induction fs p arbitrary: gs rule: list_all2_induct)
      (auto simp: list_all2_Cons2 matches_field_def)
  with assms show ?thesis
    by (simp add: matches_rule_def signature_def)
qed

text \<open>The CoAP codes of RFC 7252, for concrete packets.\<close>

definition rfc7252_code :: "coap_code \<Rightarrow> byte" where
  "rfc7252_code c = (case c of COAP_EMPTY \<Rightarrow> 0 | COAP_GET \<Rightarrow> 1 | COAP_POST \<Rightarrow> 2 | COAP_PUT \<Rightarrow> 3
     | COAP_DELETE \<Rightarrow> 4 | COAP_FETCH \<Rightarrow> 5 | COAP_CREATED \<Rightarrow> 65 | COAP_DELETED \<Rightarrow> 66
     | COAP_CHANGED \<Rightarrow> 68 | COAP_CONTENT \<Rightarrow> 69)"

lemma rfc7252_inj: "inj rfc7252_code"
  by (rule injI) (simp add: rfc7252_code_def split: coap_code.splits)

end
