(* ===== verification/Inner_Rules.thy ===== *)
theory Inner_Rules
  imports Rules
begin

text \<open>
  The inner rules, for OSCORE plaintexts: \<open>libs/schc_comp_apis/oscore_basic/src/innerrules.c\<close>. Each
  function of the file is a definition with the function's local variables as bindings, in
  order.
\<close>

section \<open>Constants\<close>

definition REG_COAP_URI_PATH :: string where "REG_COAP_URI_PATH = ''rd''"
definition REG_COAP_URI_QUERY_1 :: string where "REG_COAP_URI_QUERY_1 = ''lwm2m=1.1''"
definition REG_COAP_URI_QUERY_3 :: string where "REG_COAP_URI_QUERY_3 = ''b=U''"
definition OMA_DEVICE :: string where "OMA_DEVICE = ''3''"
definition OMA_LOCATION :: string where "OMA_LOCATION = ''6''"
definition OMA_TEMPERATURE :: string where "OMA_TEMPERATURE = ''3303''"
definition OMA_LIGHT_CONTROL :: string where "OMA_LIGHT_CONTROL = ''3311''"
definition OMA_SENSOR_VALUE :: string where "OMA_SENSOR_VALUE = ''5700''"
definition OMA_ON_OFF :: string where "OMA_ON_OFF = ''5850''"
definition OMA_INSTANCE_0 :: string where "OMA_INSTANCE_0 = ''0''"
definition RESOURCE_BATTERY_LEVEL :: string where "RESOURCE_BATTERY_LEVEL = ''9''"
definition REG_COAP_CONTENT_FORMAT :: memory where "REG_COAP_CONTENT_FORMAT = [0x28]"
definition LWM2M_TLV :: memory where "LWM2M_TLV = [0x2d, 0x16]"

definition LOCATION_PATH_LEN :: nat where "LOCATION_PATH_LEN = 10"
definition INNER_NO_COMP_RULE_ID :: nat where "INNER_NO_COMP_RULE_ID = 150"
definition NB_RULES :: nat where "NB_RULES = 16"
definition REGISTRATION_REQ_RULE_ID :: nat where "REGISTRATION_REQ_RULE_ID = 40"
definition REGISTRATION_RESP_RULE_ID :: nat where "REGISTRATION_RESP_RULE_ID = 41"
definition REGISTRATION_CONFIRM_REQ_RULE_ID :: nat where "REGISTRATION_CONFIRM_REQ_RULE_ID = 42"
definition REGISTRATION_CONFIRM_RESP_RULE_ID :: nat where "REGISTRATION_CONFIRM_RESP_RULE_ID = 43"
definition TEMP_SENSOR_REQ_RULE_ID :: nat where "TEMP_SENSOR_REQ_RULE_ID = 44"
definition GET_STATUS_RESP_RULE_ID :: nat where "GET_STATUS_RESP_RULE_ID = 45"
definition LIGHT_CONTROL_REQ_RULE_ID :: nat where "LIGHT_CONTROL_REQ_RULE_ID = 46"
definition LIGHT_CONTROL_RESP_RULE_ID :: nat where "LIGHT_CONTROL_RESP_RULE_ID = 47"
definition LIGHT_STATUS_REQ_RULE_ID :: nat where "LIGHT_STATUS_REQ_RULE_ID = 48"
definition OBSERVE_LOCATION_REQUEST_RULE_ID :: nat where "OBSERVE_LOCATION_REQUEST_RULE_ID = 50"
definition OBSERVE_LOCATION_RESPONSE_RULE_ID :: nat where "OBSERVE_LOCATION_RESPONSE_RULE_ID = 51"
definition BATTERY_LEVEL_REQ_RULE_ID :: nat where "BATTERY_LEVEL_REQ_RULE_ID = 52"
definition REGISTER_REFRESH_REQ_RULE_ID :: nat where "REGISTER_REFRESH_REQ_RULE_ID = 53"
definition RESET_RULE_ID :: nat where "RESET_RULE_ID = 54"
definition DEREGISTER_REQ_RULE_ID :: nat where "DEREGISTER_REQ_RULE_ID = 55"
definition DEREGISTER_RESP_RULE_ID :: nat where "DEREGISTER_RESP_RULE_ID = 56"

lemmas inner_constants = CHAR_BIT_def
  REG_COAP_URI_PATH_def REG_COAP_URI_QUERY_1_def REG_COAP_URI_QUERY_3_def
  OMA_DEVICE_def OMA_LOCATION_def OMA_TEMPERATURE_def
  OMA_LIGHT_CONTROL_def OMA_SENSOR_VALUE_def OMA_ON_OFF_def
  OMA_INSTANCE_0_def RESOURCE_BATTERY_LEVEL_def REG_COAP_CONTENT_FORMAT_def
  LWM2M_TLV_def LOCATION_PATH_LEN_def INNER_NO_COMP_RULE_ID_def
  NB_RULES_def REGISTRATION_REQ_RULE_ID_def REGISTRATION_RESP_RULE_ID_def
  REGISTRATION_CONFIRM_REQ_RULE_ID_def REGISTRATION_CONFIRM_RESP_RULE_ID_def TEMP_SENSOR_REQ_RULE_ID_def
  GET_STATUS_RESP_RULE_ID_def LIGHT_CONTROL_REQ_RULE_ID_def LIGHT_CONTROL_RESP_RULE_ID_def
  LIGHT_STATUS_REQ_RULE_ID_def OBSERVE_LOCATION_REQUEST_RULE_ID_def OBSERVE_LOCATION_RESPONSE_RULE_ID_def
  BATTERY_LEVEL_REQ_RULE_ID_def REGISTER_REFRESH_REQ_RULE_ID_def RESET_RULE_ID_def
  DEREGISTER_REQ_RULE_ID_def DEREGISTER_RESP_RULE_ID_def

section \<open>The rules\<close>

text \<open>Registration request.\<close>

definition get_rule_40 :: "(coap_code \<Rightarrow> byte) \<Rightarrow> rule" where
  "get_rule_40 code =
   (let coap_code = [code COAP_POST];
        coap_code_tv = TV_BIT_STRING (Bit_string coap_code 0 8);
        coap_uri_path = c_array REG_COAP_URI_PATH;
        coap_uri_path_tv = TV_BIT_STRING (Bit_string coap_uri_path 0 ((length coap_uri_path - 1) * CHAR_BIT));
        coap_content_format = REG_COAP_CONTENT_FORMAT;
        coap_content_format_tv = TV_BIT_STRING (Bit_string coap_content_format 0 (length coap_content_format * CHAR_BIT));
        coap_uri_query_1 = c_array REG_COAP_URI_QUERY_1;
        coap_uri_query_1_tv = TV_BIT_STRING (Bit_string coap_uri_query_1 0 ((length coap_uri_query_1 - 1) * CHAR_BIT));
        mangoh1 = c_array ''ep=demoMangoh1'';
        mangoh2 = c_array ''ep=demoMangoh2'';
        mangoh3 = c_array ''ep=demoMangoh3'';
        mangoh4 = c_array ''ep=demoMangoh4'';
        mangoh5 = c_array ''ep=demoMangoh5'';
        mangoh6 = c_array ''ep=demoMangoh6'';
        mangoh7 = c_array ''ep=demoMangoh7'';
        mangoh8 = c_array ''ep=demoMangoh8'';
        mangoh1_bs = Bit_string mangoh1 0 ((length mangoh1 - 1) * CHAR_BIT);
        mangoh2_bs = Bit_string mangoh2 0 ((length mangoh2 - 1) * CHAR_BIT);
        mangoh3_bs = Bit_string mangoh3 0 ((length mangoh3 - 1) * CHAR_BIT);
        mangoh4_bs = Bit_string mangoh4 0 ((length mangoh4 - 1) * CHAR_BIT);
        mangoh5_bs = Bit_string mangoh5 0 ((length mangoh5 - 1) * CHAR_BIT);
        mangoh6_bs = Bit_string mangoh6 0 ((length mangoh6 - 1) * CHAR_BIT);
        mangoh7_bs = Bit_string mangoh7 0 ((length mangoh7 - 1) * CHAR_BIT);
        mangoh8_bs = Bit_string mangoh8 0 ((length mangoh8 - 1) * CHAR_BIT);
        coap_uri_query_2_bs_ptr = [mangoh1_bs, mangoh2_bs, mangoh3_bs, mangoh4_bs, mangoh5_bs, mangoh6_bs, mangoh7_bs, mangoh8_bs];
        coap_uri_query_2_tv = TV_MAPPED_VALUES 8 coap_uri_query_2_bs_ptr;
        coap_uri_query_3 = c_array REG_COAP_URI_QUERY_3;
        coap_uri_query_3_tv = TV_BIT_STRING (Bit_string coap_uri_query_3 0 ((length coap_uri_query_3 - 1) * CHAR_BIT));
        lt1 = c_array ''lt=300'';
        lt2 = c_array ''lt=500'';
        lt3 = c_array ''lt=1000'';
        lt4 = c_array ''lt=2000'';
        lt5 = c_array ''lt=3600'';
        lt6 = c_array ''lt=7200'';
        lt7 = c_array ''lt=10000'';
        lt8 = c_array ''lt=86400'';
        lt1_bs = Bit_string lt1 0 ((length lt1 - 1) * CHAR_BIT);
        lt2_bs = Bit_string lt2 0 ((length lt2 - 1) * CHAR_BIT);
        lt3_bs = Bit_string lt3 0 ((length lt3 - 1) * CHAR_BIT);
        lt4_bs = Bit_string lt4 0 ((length lt4 - 1) * CHAR_BIT);
        lt5_bs = Bit_string lt5 0 ((length lt5 - 1) * CHAR_BIT);
        lt6_bs = Bit_string lt6 0 ((length lt6 - 1) * CHAR_BIT);
        lt7_bs = Bit_string lt7 0 ((length lt7 - 1) * CHAR_BIT);
        lt8_bs = Bit_string lt8 0 ((length lt8 - 1) * CHAR_BIT);
        coap_uri_query_4_bs_ptr = [lt1_bs, lt2_bs, lt3_bs, lt4_bs, lt5_bs, lt6_bs, lt7_bs, lt8_bs];
        coap_uri_query_4_tv = TV_MAPPED_VALUES 8 coap_uri_query_4_bs_ptr;
        rule_field_0 = Rule_field FID_COAP_CODE 1 DIR_BI (Some coap_code_tv) 8 MO_EQUAL 0 CDA_NOT_SENT;
        rule_field_1 = Rule_field FID_COAP_URI_PATH 1 DIR_BI (Some coap_uri_path_tv) 0 MO_EQUAL 0 CDA_NOT_SENT;
        rule_field_2 = Rule_field FID_COAP_CONTENT_FORMAT 1 DIR_BI (Some coap_content_format_tv) 0 MO_EQUAL 0 CDA_NOT_SENT;
        rule_field_3 = Rule_field FID_COAP_URI_QUERY 1 DIR_BI (Some coap_uri_query_1_tv) 0 MO_EQUAL 0 CDA_NOT_SENT;
        rule_field_4 = Rule_field FID_COAP_URI_QUERY 2 DIR_BI (Some coap_uri_query_2_tv) 0 MO_MAPPING 0 CDA_MAPPING_SENT;
        rule_field_5 = Rule_field FID_COAP_URI_QUERY 3 DIR_BI (Some coap_uri_query_3_tv) 0 MO_EQUAL 0 CDA_NOT_SENT;
        rule_field_6 = Rule_field FID_COAP_URI_QUERY 4 DIR_BI (Some coap_uri_query_4_tv) 0 MO_MAPPING 0 CDA_MAPPING_SENT
    in fold add_rule_field
        [rule_field_0, rule_field_1, rule_field_2, rule_field_3, rule_field_4, rule_field_5, rule_field_6]
        (init_rule REGISTRATION_REQ_RULE_ID STACK_OSCORE_PLAINTEXT 7))"

text \<open>Registration response.\<close>

definition get_rule_41 :: "(coap_code \<Rightarrow> byte) \<Rightarrow> rule" where
  "get_rule_41 code =
   (let coap_code = [code COAP_CREATED];
        coap_code_tv = TV_BIT_STRING (Bit_string coap_code 0 8);
        coap_uri_path = c_array REG_COAP_URI_PATH;
        coap_uri_path_tv = TV_BIT_STRING (Bit_string coap_uri_path 0 ((length coap_uri_path - 1) * CHAR_BIT));
        rule_field_0 = Rule_field FID_COAP_CODE 1 DIR_BI (Some coap_code_tv) 8 MO_EQUAL 0 CDA_NOT_SENT;
        rule_field_1 = Rule_field FID_COAP_LOCATION_PATH 1 DIR_BI (Some coap_uri_path_tv) 0 MO_EQUAL 0 CDA_NOT_SENT;
        rule_field_2 = Rule_field FID_COAP_LOCATION_PATH 2 DIR_BI None (LOCATION_PATH_LEN * CHAR_BIT) MO_IGNORE 0 CDA_VALUE_SENT
    in fold add_rule_field
        [rule_field_0, rule_field_1, rule_field_2]
        (init_rule REGISTRATION_RESP_RULE_ID STACK_OSCORE_PLAINTEXT 3))"

text \<open>Registration confirm request.\<close>

definition get_rule_42 :: "(coap_code \<Rightarrow> byte) \<Rightarrow> rule" where
  "get_rule_42 code =
   (let coap_code = [code COAP_POST];
        coap_code_tv = TV_BIT_STRING (Bit_string coap_code 0 8);
        coap_uri_path = c_array REG_COAP_URI_PATH;
        coap_uri_path_tv = TV_BIT_STRING (Bit_string coap_uri_path 0 ((length coap_uri_path - 1) * CHAR_BIT));
        rule_field_0 = Rule_field FID_COAP_CODE 1 DIR_BI (Some coap_code_tv) 8 MO_EQUAL 0 CDA_NOT_SENT;
        rule_field_1 = Rule_field FID_COAP_URI_PATH 1 DIR_BI (Some coap_uri_path_tv) 0 MO_EQUAL 0 CDA_NOT_SENT;
        rule_field_2 = Rule_field FID_COAP_URI_PATH 2 DIR_BI None (LOCATION_PATH_LEN * CHAR_BIT) MO_IGNORE 0 CDA_VALUE_SENT
    in fold add_rule_field
        [rule_field_0, rule_field_1, rule_field_2]
        (init_rule REGISTRATION_CONFIRM_REQ_RULE_ID STACK_OSCORE_PLAINTEXT 3))"

text \<open>Registration confirm response.\<close>

definition get_rule_43 :: "(coap_code \<Rightarrow> byte) \<Rightarrow> rule" where
  "get_rule_43 code =
   (let coap_code = [code COAP_CHANGED];
        coap_code_tv = TV_BIT_STRING (Bit_string coap_code 0 8);
        rule_field_0 = Rule_field FID_COAP_CODE 1 DIR_BI (Some coap_code_tv) 8 MO_EQUAL 0 CDA_NOT_SENT
    in fold add_rule_field
        [rule_field_0]
        (init_rule REGISTRATION_CONFIRM_RESP_RULE_ID STACK_OSCORE_PLAINTEXT 1))"

text \<open>Temperature sensor request.\<close>

definition get_rule_44 :: "(coap_code \<Rightarrow> byte) \<Rightarrow> rule" where
  "get_rule_44 code =
   (let coap_code = [code COAP_GET];
        coap_code_tv = TV_BIT_STRING (Bit_string coap_code 0 8);
        coap_uri_path_1 = c_array OMA_TEMPERATURE;
        coap_uri_path_1_tv = TV_BIT_STRING (Bit_string coap_uri_path_1 0 ((length coap_uri_path_1 - 1) * CHAR_BIT));
        coap_uri_path_2 = c_array OMA_INSTANCE_0;
        coap_uri_path_2_tv = TV_BIT_STRING (Bit_string coap_uri_path_2 0 ((length coap_uri_path_2 - 1) * CHAR_BIT));
        coap_uri_path_3 = c_array OMA_SENSOR_VALUE;
        coap_uri_path_3_tv = TV_BIT_STRING (Bit_string coap_uri_path_3 0 ((length coap_uri_path_3 - 1) * CHAR_BIT));
        coap_accept = LWM2M_TLV;
        coap_accept_tv = TV_BIT_STRING (Bit_string coap_accept 0 (length coap_accept * CHAR_BIT));
        rule_field_0 = Rule_field FID_COAP_CODE 1 DIR_BI (Some coap_code_tv) 8 MO_EQUAL 0 CDA_NOT_SENT;
        rule_field_1 = Rule_field FID_COAP_URI_PATH 1 DIR_BI (Some coap_uri_path_1_tv) 0 MO_EQUAL 0 CDA_NOT_SENT;
        rule_field_2 = Rule_field FID_COAP_URI_PATH 2 DIR_BI (Some coap_uri_path_2_tv) 0 MO_EQUAL 0 CDA_NOT_SENT;
        rule_field_3 = Rule_field FID_COAP_URI_PATH 3 DIR_BI (Some coap_uri_path_3_tv) 0 MO_EQUAL 0 CDA_NOT_SENT;
        rule_field_4 = Rule_field FID_COAP_ACCEPT 1 DIR_BI (Some coap_accept_tv) 0 MO_EQUAL 0 CDA_NOT_SENT
    in fold add_rule_field
        [rule_field_0, rule_field_1, rule_field_2, rule_field_3, rule_field_4]
        (init_rule TEMP_SENSOR_REQ_RULE_ID STACK_OSCORE_PLAINTEXT 5))"

text \<open>Rule for: Temperature status response, Light status response, Battery status response.\<close>

definition get_rule_45 :: "(coap_code \<Rightarrow> byte) \<Rightarrow> rule" where
  "get_rule_45 code =
   (let coap_code = [code COAP_CONTENT];
        coap_code_tv = TV_BIT_STRING (Bit_string coap_code 0 8);
        coap_content_format = LWM2M_TLV;
        coap_content_format_tv = TV_BIT_STRING (Bit_string coap_content_format 0 (length coap_content_format * CHAR_BIT));
        rule_field_0 = Rule_field FID_COAP_CODE 1 DIR_BI (Some coap_code_tv) 8 MO_EQUAL 0 CDA_NOT_SENT;
        rule_field_1 = Rule_field FID_COAP_CONTENT_FORMAT 1 DIR_BI (Some coap_content_format_tv) 0 MO_EQUAL 0 CDA_NOT_SENT
    in fold add_rule_field
        [rule_field_0, rule_field_1]
        (init_rule GET_STATUS_RESP_RULE_ID STACK_OSCORE_PLAINTEXT 2))"

text \<open>Light control request.\<close>

definition get_rule_46 :: "(coap_code \<Rightarrow> byte) \<Rightarrow> rule" where
  "get_rule_46 code =
   (let coap_code = [code COAP_PUT];
        coap_code_tv = TV_BIT_STRING (Bit_string coap_code 0 8);
        coap_uri_path_1 = c_array OMA_LIGHT_CONTROL;
        coap_uri_path_1_tv = TV_BIT_STRING (Bit_string coap_uri_path_1 0 ((length coap_uri_path_1 - 1) * CHAR_BIT));
        coap_uri_path_2 = c_array OMA_INSTANCE_0;
        coap_uri_path_2_tv = TV_BIT_STRING (Bit_string coap_uri_path_2 0 ((length coap_uri_path_2 - 1) * CHAR_BIT));
        coap_uri_path_3 = c_array OMA_ON_OFF;
        coap_uri_path_3_tv = TV_BIT_STRING (Bit_string coap_uri_path_3 0 ((length coap_uri_path_3 - 1) * CHAR_BIT));
        coap_content_format = LWM2M_TLV;
        coap_content_format_tv = TV_BIT_STRING (Bit_string coap_content_format 0 (length coap_content_format * CHAR_BIT));
        rule_field_0 = Rule_field FID_COAP_CODE 1 DIR_BI (Some coap_code_tv) 8 MO_EQUAL 0 CDA_NOT_SENT;
        rule_field_1 = Rule_field FID_COAP_URI_PATH 1 DIR_BI (Some coap_uri_path_1_tv) 0 MO_EQUAL 0 CDA_NOT_SENT;
        rule_field_2 = Rule_field FID_COAP_URI_PATH 2 DIR_BI (Some coap_uri_path_2_tv) 0 MO_EQUAL 0 CDA_NOT_SENT;
        rule_field_3 = Rule_field FID_COAP_URI_PATH 3 DIR_BI (Some coap_uri_path_3_tv) 0 MO_EQUAL 0 CDA_NOT_SENT;
        rule_field_4 = Rule_field FID_COAP_CONTENT_FORMAT 1 DIR_BI (Some coap_content_format_tv) 0 MO_EQUAL 0 CDA_NOT_SENT
    in fold add_rule_field
        [rule_field_0, rule_field_1, rule_field_2, rule_field_3, rule_field_4]
        (init_rule LIGHT_CONTROL_REQ_RULE_ID STACK_OSCORE_PLAINTEXT 5))"

text \<open>Light control response.\<close>

definition get_rule_47 :: "(coap_code \<Rightarrow> byte) \<Rightarrow> rule" where
  "get_rule_47 code =
   (let coap_code = [code COAP_CHANGED];
        coap_code_tv = TV_BIT_STRING (Bit_string coap_code 0 8);
        rule_field_0 = Rule_field FID_COAP_CODE 1 DIR_BI (Some coap_code_tv) 8 MO_EQUAL 0 CDA_NOT_SENT
    in fold add_rule_field
        [rule_field_0]
        (init_rule LIGHT_CONTROL_RESP_RULE_ID STACK_OSCORE_PLAINTEXT 1))"

text \<open>Light status request.\<close>

definition get_rule_48 :: "(coap_code \<Rightarrow> byte) \<Rightarrow> rule" where
  "get_rule_48 code =
   (let coap_code = [code COAP_GET];
        coap_code_tv = TV_BIT_STRING (Bit_string coap_code 0 8);
        coap_uri_path_1 = c_array OMA_LIGHT_CONTROL;
        coap_uri_path_1_tv = TV_BIT_STRING (Bit_string coap_uri_path_1 0 ((length coap_uri_path_1 - 1) * CHAR_BIT));
        coap_uri_path_2 = c_array OMA_INSTANCE_0;
        coap_uri_path_2_tv = TV_BIT_STRING (Bit_string coap_uri_path_2 0 ((length coap_uri_path_2 - 1) * CHAR_BIT));
        coap_uri_path_3 = c_array OMA_ON_OFF;
        coap_uri_path_3_tv = TV_BIT_STRING (Bit_string coap_uri_path_3 0 ((length coap_uri_path_3 - 1) * CHAR_BIT));
        coap_accept = LWM2M_TLV;
        coap_accept_tv = TV_BIT_STRING (Bit_string coap_accept 0 (length coap_accept * CHAR_BIT));
        rule_field_0 = Rule_field FID_COAP_CODE 1 DIR_BI (Some coap_code_tv) 8 MO_EQUAL 0 CDA_NOT_SENT;
        rule_field_1 = Rule_field FID_COAP_URI_PATH 1 DIR_BI (Some coap_uri_path_1_tv) 0 MO_EQUAL 0 CDA_NOT_SENT;
        rule_field_2 = Rule_field FID_COAP_URI_PATH 2 DIR_BI (Some coap_uri_path_2_tv) 0 MO_EQUAL 0 CDA_NOT_SENT;
        rule_field_3 = Rule_field FID_COAP_URI_PATH 3 DIR_BI (Some coap_uri_path_3_tv) 0 MO_EQUAL 0 CDA_NOT_SENT;
        rule_field_4 = Rule_field FID_COAP_ACCEPT 1 DIR_BI (Some coap_accept_tv) 0 MO_EQUAL 0 CDA_NOT_SENT
    in fold add_rule_field
        [rule_field_0, rule_field_1, rule_field_2, rule_field_3, rule_field_4]
        (init_rule LIGHT_STATUS_REQ_RULE_ID STACK_OSCORE_PLAINTEXT 5))"

text \<open>Observe location request.\<close>

definition get_rule_50 :: "(coap_code \<Rightarrow> byte) \<Rightarrow> rule" where
  "get_rule_50 code =
   (let coap_code = [code COAP_GET];
        coap_code_tv = TV_BIT_STRING (Bit_string coap_code 0 8);
        empty_option = [0x00];
        empty_option_tv = TV_BIT_STRING (Bit_string empty_option 0 0);
        coap_uri_path_1 = c_array OMA_LOCATION;
        coap_uri_path_1_tv = TV_BIT_STRING (Bit_string coap_uri_path_1 0 ((length coap_uri_path_1 - 1) * CHAR_BIT));
        coap_uri_path_2 = c_array OMA_INSTANCE_0;
        coap_uri_path_2_tv = TV_BIT_STRING (Bit_string coap_uri_path_2 0 ((length coap_uri_path_2 - 1) * CHAR_BIT));
        coap_accept = LWM2M_TLV;
        coap_accept_tv = TV_BIT_STRING (Bit_string coap_accept 0 16);
        rule_field_0 = Rule_field FID_COAP_CODE 1 DIR_BI (Some coap_code_tv) 8 MO_EQUAL 0 CDA_NOT_SENT;
        rule_field_1 = Rule_field FID_COAP_OBSERVE 1 DIR_BI (Some empty_option_tv) 0 MO_EQUAL 0 CDA_NOT_SENT;
        rule_field_2 = Rule_field FID_COAP_URI_PATH 1 DIR_BI (Some coap_uri_path_1_tv) 8 MO_EQUAL 0 CDA_NOT_SENT;
        rule_field_3 = Rule_field FID_COAP_URI_PATH 2 DIR_BI (Some coap_uri_path_2_tv) 8 MO_EQUAL 0 CDA_NOT_SENT;
        rule_field_4 = Rule_field FID_COAP_ACCEPT 1 DIR_BI (Some coap_accept_tv) 16 MO_EQUAL 0 CDA_NOT_SENT
    in fold add_rule_field
        [rule_field_0, rule_field_1, rule_field_2, rule_field_3, rule_field_4]
        (init_rule OBSERVE_LOCATION_REQUEST_RULE_ID STACK_OSCORE_PLAINTEXT 6))"

text \<open>Observe location response and notification.\<close>

definition get_rule_51 :: "(coap_code \<Rightarrow> byte) \<Rightarrow> rule" where
  "get_rule_51 code =
   (let coap_code = [code COAP_CONTENT];
        coap_code_tv = TV_BIT_STRING (Bit_string coap_code 0 8);
        empty_option = [0x00];
        empty_option_tv = TV_BIT_STRING (Bit_string empty_option 0 0);
        coap_content_format = LWM2M_TLV;
        coap_content_format_tv = TV_BIT_STRING (Bit_string coap_content_format 0 (length coap_content_format * CHAR_BIT));
        rule_field_0 = Rule_field FID_COAP_CODE 1 DIR_BI (Some coap_code_tv) 8 MO_EQUAL 0 CDA_NOT_SENT;
        rule_field_1 = Rule_field FID_COAP_OBSERVE 1 DIR_BI (Some empty_option_tv) 0 MO_EQUAL 0 CDA_NOT_SENT;
        rule_field_2 = Rule_field FID_COAP_CONTENT_FORMAT 1 DIR_BI (Some coap_content_format_tv) 0 MO_EQUAL 0 CDA_NOT_SENT
    in fold add_rule_field
        [rule_field_0, rule_field_1, rule_field_2]
        (init_rule OBSERVE_LOCATION_RESPONSE_RULE_ID STACK_OSCORE_PLAINTEXT 3))"

text \<open>Battery level request.\<close>

definition get_rule_52 :: "(coap_code \<Rightarrow> byte) \<Rightarrow> rule" where
  "get_rule_52 code =
   (let coap_code = [code COAP_GET];
        coap_code_tv = TV_BIT_STRING (Bit_string coap_code 0 8);
        coap_uri_path_1 = c_array OMA_DEVICE;
        coap_uri_path_1_tv = TV_BIT_STRING (Bit_string coap_uri_path_1 0 ((length coap_uri_path_1 - 1) * CHAR_BIT));
        coap_uri_path_2 = c_array OMA_INSTANCE_0;
        coap_uri_path_2_tv = TV_BIT_STRING (Bit_string coap_uri_path_2 0 ((length coap_uri_path_2 - 1) * CHAR_BIT));
        coap_uri_path_3 = c_array RESOURCE_BATTERY_LEVEL;
        coap_uri_path_3_tv = TV_BIT_STRING (Bit_string coap_uri_path_3 0 ((length coap_uri_path_3 - 1) * CHAR_BIT));
        coap_accept = LWM2M_TLV;
        coap_accept_tv = TV_BIT_STRING (Bit_string coap_accept 0 (length coap_accept * CHAR_BIT));
        rule_field_0 = Rule_field FID_COAP_CODE 1 DIR_BI (Some coap_code_tv) 8 MO_EQUAL 0 CDA_NOT_SENT;
        rule_field_1 = Rule_field FID_COAP_URI_PATH 1 DIR_BI (Some coap_uri_path_1_tv) 0 MO_EQUAL 0 CDA_NOT_SENT;
        rule_field_2 = Rule_field FID_COAP_URI_PATH 2 DIR_BI (Some coap_uri_path_2_tv) 0 MO_EQUAL 0 CDA_NOT_SENT;
        rule_field_3 = Rule_field FID_COAP_URI_PATH 3 DIR_BI (Some coap_uri_path_3_tv) 0 MO_EQUAL 0 CDA_NOT_SENT;
        rule_field_4 = Rule_field FID_COAP_ACCEPT 1 DIR_BI (Some coap_accept_tv) 0 MO_EQUAL 0 CDA_NOT_SENT
    in fold add_rule_field
        [rule_field_0, rule_field_1, rule_field_2, rule_field_3, rule_field_4]
        (init_rule BATTERY_LEVEL_REQ_RULE_ID STACK_OSCORE_PLAINTEXT 5))"

text \<open>Register refresh request.\<close>

definition get_rule_53 :: "(coap_code \<Rightarrow> byte) \<Rightarrow> rule" where
  "get_rule_53 code =
   (let coap_code = [code COAP_POST];
        coap_code_tv = TV_BIT_STRING (Bit_string coap_code 0 8);
        coap_uri_path_1 = c_array REG_COAP_URI_PATH;
        coap_uri_path_1_tv = TV_BIT_STRING (Bit_string coap_uri_path_1 0 ((length coap_uri_path_1 - 1) * CHAR_BIT));
        rule_field_0 = Rule_field FID_COAP_CODE 1 DIR_BI (Some coap_code_tv) 0 MO_EQUAL 0 CDA_NOT_SENT;
        rule_field_1 = Rule_field FID_COAP_URI_PATH 1 DIR_BI (Some coap_uri_path_1_tv) 0 MO_EQUAL 0 CDA_NOT_SENT;
        rule_field_2 = Rule_field FID_COAP_URI_PATH 2 DIR_BI None (LOCATION_PATH_LEN * CHAR_BIT) MO_IGNORE 0 CDA_VALUE_SENT
    in fold add_rule_field
        [rule_field_0, rule_field_1, rule_field_2]
        (init_rule REGISTER_REFRESH_REQ_RULE_ID STACK_OSCORE_PLAINTEXT 3))"

text \<open>Reset message.\<close>

definition get_rule_54 :: "(coap_code \<Rightarrow> byte) \<Rightarrow> rule" where
  "get_rule_54 code =
   (let coap_code = [code COAP_EMPTY];
        coap_code_tv = TV_BIT_STRING (Bit_string coap_code 0 8);
        rule_field_0 = Rule_field FID_COAP_CODE 1 DIR_BI (Some coap_code_tv) 0 MO_EQUAL 0 CDA_NOT_SENT
    in fold add_rule_field
        [rule_field_0]
        (init_rule RESET_RULE_ID STACK_OSCORE_PLAINTEXT 1))"

text \<open>Deregister request.\<close>

definition get_rule_55 :: "(coap_code \<Rightarrow> byte) \<Rightarrow> rule" where
  "get_rule_55 code =
   (let coap_code = [code COAP_DELETE];
        coap_code_tv = TV_BIT_STRING (Bit_string coap_code 0 8);
        coap_uri_path_1 = c_array REG_COAP_URI_PATH;
        coap_uri_path_1_tv = TV_BIT_STRING (Bit_string coap_uri_path_1 0 ((length coap_uri_path_1 - 1) * CHAR_BIT));
        rule_field_0 = Rule_field FID_COAP_CODE 1 DIR_BI (Some coap_code_tv) 0 MO_EQUAL 0 CDA_NOT_SENT;
        rule_field_1 = Rule_field FID_COAP_URI_PATH 1 DIR_BI (Some coap_uri_path_1_tv) 0 MO_EQUAL 0 CDA_NOT_SENT;
        rule_field_2 = Rule_field FID_COAP_URI_PATH 2 DIR_BI None (LOCATION_PATH_LEN * CHAR_BIT) MO_IGNORE 0 CDA_VALUE_SENT
    in fold add_rule_field
        [rule_field_0, rule_field_1, rule_field_2]
        (init_rule DEREGISTER_REQ_RULE_ID STACK_OSCORE_PLAINTEXT 3))"

text \<open>Deregister response.\<close>

definition get_rule_56 :: "(coap_code \<Rightarrow> byte) \<Rightarrow> rule" where
  "get_rule_56 code =
   (let coap_code = [code COAP_DELETED];
        coap_code_tv = TV_BIT_STRING (Bit_string coap_code 0 8);
        rule_field_0 = Rule_field FID_COAP_CODE 1 DIR_BI (Some coap_code_tv) 0 MO_EQUAL 0 CDA_NOT_SENT
    in fold add_rule_field
        [rule_field_0]
        (init_rule DEREGISTER_RESP_RULE_ID STACK_OSCORE_PLAINTEXT 1))"

definition get_orange_labs_inner_rules :: "(coap_code \<Rightarrow> byte) \<Rightarrow> rules" where
  "get_orange_labs_inner_rules code =
     fold add_rule [get_rule_40 code, get_rule_41 code, get_rule_42 code, get_rule_43 code, get_rule_44 code, get_rule_45 code, get_rule_46 code, get_rule_47 code, get_rule_48 code, get_rule_50 code, get_rule_51 code, get_rule_52 code, get_rule_53 code, get_rule_54 code, get_rule_55 code, get_rule_56 code]
       (init_rules NB_RULES INNER_NO_COMP_RULE_ID)"

end
