(* ===== verification/Inner_Rules_Props.thy ===== *)
theory Inner_Rules_Props
  imports Inner_Rules
begin

text \<open>
  The inner rule set: it fits its arrays, restores every plaintext it matches, and which of its
  rules can match the same plaintext.
\<close>

lemmas inner_rule_defs = get_rule_40_def get_rule_41_def get_rule_42_def get_rule_43_def get_rule_44_def
  get_rule_45_def get_rule_46_def get_rule_47_def get_rule_48_def get_rule_50_def get_rule_51_def
  get_rule_52_def get_rule_53_def get_rule_54_def get_rule_55_def get_rule_56_def

lemma inner_fit: "rules_fit (get_orange_labs_inner_rules code)"
  by (simp add: rules_fit_def get_orange_labs_inner_rules_def inner_rule_defs inner_constants Let_def)

interpretation inner_table: rule_table "get_orange_labs_inner_rules code" "\<lambda>i. None" for code
proof
  show "rules_fit (get_orange_labs_inner_rules code)"
    by (rule inner_fit)
  show "list_all (\<lambda>r. list_all (field_ok (\<lambda>i. None)) (rule_fields r)) (rule_array (get_orange_labs_inner_rules code))"
    by (simp add: get_orange_labs_inner_rules_def inner_rule_defs Let_def computes_def field_ok_def)
qed

lemma inner_not_computed:
  "list_all (\<lambda>r. list_all (\<lambda>f. field_id f \<notin> computed_ids) (rule_fields r)) (rule_array (get_orange_labs_inner_rules code))"
  by (simp add: get_orange_labs_inner_rules_def inner_rule_defs Let_def computed_ids_def)

section \<open>Restored plaintexts\<close>

text \<open>C29: Inner compression loses nothing: whatever plaintext one of the rules matches, the
  receiver's decompression by the transmitted rule identifier gives it back field by field.\<close>

theorem inner_rules_lossless:
  assumes "schc_compress (get_orange_labs_inner_rules code) p = Some c"
  shows "schc_decompress computed (get_orange_labs_inner_rules code) c = Some p"
proof -
  obtain r where r: "r \<in> set (rule_array (get_orange_labs_inner_rules code))" "matches_rule r p"
    using assms by (rule compress_matches)
  then have "list_all (\<lambda>f. field_id f \<notin> computed_ids) (rule_fields r)"
    using inner_not_computed by (auto simp: list_all_iff)
  then have "\<forall>(i, k, v) \<in> set p. i \<notin> computed_ids"
    by (intro matches_rule_ids [OF r(2)]) (simp add: list_all_iff)
  then show ?thesis
    by (intro inner_table.restored_lossless assms refl) auto
qed

section \<open>Overlapping rules\<close>

lemma literal_bits:
  "target_bits (Some (TV_BIT_STRING (Bit_string [c] 0 8))) = byte_seq [c]"
  "target_bits (Some (TV_BIT_STRING (Bit_string LWM2M_TLV 0 (length LWM2M_TLV * CHAR_BIT)))) = byte_seq [0x2d, 0x16]"
  "target_bits (Some (TV_BIT_STRING (Bit_string LWM2M_TLV 0 16))) = byte_seq [0x2d, 0x16]"
  "target_bits (Some (TV_BIT_STRING (Bit_string REG_COAP_CONTENT_FORMAT 0 (length REG_COAP_CONTENT_FORMAT * CHAR_BIT)))) =
    byte_seq [0x28]"
  "target_bits (Some (TV_BIT_STRING (Bit_string (c_array s) 0 ((length (c_array s) - 1) * CHAR_BIT)))) =
    text_bits s"
  "target_bits (Some (TV_BIT_STRING (Bit_string [c] 0 0))) = byte_seq []"
  using bits_text [of s]
  by (simp_all add: text_bits_def bits_whole LWM2M_TLV_def REG_COAP_CONTENT_FORMAT_def CHAR_BIT_def)
    (simp add: bits_of_def byte_seq_def)

lemma inner_signatures:
  "signature (get_rule_40 code) = [(FID_COAP_CODE, 1, Some (byte_seq [code COAP_POST])),
     (FID_COAP_URI_PATH, 1, Some (text_bits ''rd'')),
     (FID_COAP_CONTENT_FORMAT, 1, Some (byte_seq [0x28])),
     (FID_COAP_URI_QUERY, 1, Some (text_bits ''lwm2m=1.1'')), (FID_COAP_URI_QUERY, 2, None),
     (FID_COAP_URI_QUERY, 3, Some (text_bits ''b=U'')), (FID_COAP_URI_QUERY, 4, None)]"
  "signature (get_rule_41 code) = [(FID_COAP_CODE, 1, Some (byte_seq [code COAP_CREATED])),
     (FID_COAP_LOCATION_PATH, 1, Some (text_bits ''rd'')), (FID_COAP_LOCATION_PATH, 2, None)]"
  "signature (get_rule_42 code) = [(FID_COAP_CODE, 1, Some (byte_seq [code COAP_POST])),
     (FID_COAP_URI_PATH, 1, Some (text_bits ''rd'')), (FID_COAP_URI_PATH, 2, None)]"
  "signature (get_rule_43 code) = [(FID_COAP_CODE, 1, Some (byte_seq [code COAP_CHANGED]))]"
  "signature (get_rule_44 code) = [(FID_COAP_CODE, 1, Some (byte_seq [code COAP_GET])),
     (FID_COAP_URI_PATH, 1, Some (text_bits ''3303'')),
     (FID_COAP_URI_PATH, 2, Some (text_bits ''0'')),
     (FID_COAP_URI_PATH, 3, Some (text_bits ''5700'')),
     (FID_COAP_ACCEPT, 1, Some (byte_seq [0x2d, 0x16]))]"
  "signature (get_rule_45 code) = [(FID_COAP_CODE, 1, Some (byte_seq [code COAP_CONTENT])),
     (FID_COAP_CONTENT_FORMAT, 1, Some (byte_seq [0x2d, 0x16]))]"
  "signature (get_rule_46 code) = [(FID_COAP_CODE, 1, Some (byte_seq [code COAP_PUT])),
     (FID_COAP_URI_PATH, 1, Some (text_bits ''3311'')),
     (FID_COAP_URI_PATH, 2, Some (text_bits ''0'')),
     (FID_COAP_URI_PATH, 3, Some (text_bits ''5850'')),
     (FID_COAP_CONTENT_FORMAT, 1, Some (byte_seq [0x2d, 0x16]))]"
  "signature (get_rule_47 code) = [(FID_COAP_CODE, 1, Some (byte_seq [code COAP_CHANGED]))]"
  "signature (get_rule_48 code) = [(FID_COAP_CODE, 1, Some (byte_seq [code COAP_GET])),
     (FID_COAP_URI_PATH, 1, Some (text_bits ''3311'')),
     (FID_COAP_URI_PATH, 2, Some (text_bits ''0'')),
     (FID_COAP_URI_PATH, 3, Some (text_bits ''5850'')),
     (FID_COAP_ACCEPT, 1, Some (byte_seq [0x2d, 0x16]))]"
  "signature (get_rule_50 code) = [(FID_COAP_CODE, 1, Some (byte_seq [code COAP_GET])),
     (FID_COAP_OBSERVE, 1, Some (byte_seq [])), (FID_COAP_URI_PATH, 1, Some (text_bits ''6'')),
     (FID_COAP_URI_PATH, 2, Some (text_bits ''0'')),
     (FID_COAP_ACCEPT, 1, Some (byte_seq [0x2d, 0x16]))]"
  "signature (get_rule_51 code) = [(FID_COAP_CODE, 1, Some (byte_seq [code COAP_CONTENT])),
     (FID_COAP_OBSERVE, 1, Some (byte_seq [])), (FID_COAP_CONTENT_FORMAT, 1, Some (byte_seq [0x2d, 0x16]))]"
  "signature (get_rule_52 code) = [(FID_COAP_CODE, 1, Some (byte_seq [code COAP_GET])),
     (FID_COAP_URI_PATH, 1, Some (text_bits ''3'')),
     (FID_COAP_URI_PATH, 2, Some (text_bits ''0'')),
     (FID_COAP_URI_PATH, 3, Some (text_bits ''9'')),
     (FID_COAP_ACCEPT, 1, Some (byte_seq [0x2d, 0x16]))]"
  "signature (get_rule_53 code) = [(FID_COAP_CODE, 1, Some (byte_seq [code COAP_POST])),
     (FID_COAP_URI_PATH, 1, Some (text_bits ''rd'')), (FID_COAP_URI_PATH, 2, None)]"
  "signature (get_rule_54 code) = [(FID_COAP_CODE, 1, Some (byte_seq [code COAP_EMPTY]))]"
  "signature (get_rule_55 code) = [(FID_COAP_CODE, 1, Some (byte_seq [code COAP_DELETE])),
     (FID_COAP_URI_PATH, 1, Some (text_bits ''rd'')), (FID_COAP_URI_PATH, 2, None)]"
  "signature (get_rule_56 code) = [(FID_COAP_CODE, 1, Some (byte_seq [code COAP_DELETED]))]"
  unfolding signature_def inner_rule_defs Let_def fold_add_fields init_simps append_Nil list.map rule_field.sel
    literal_bits
  by (simp_all add: inner_constants)

lemma inner_ids:
  "rule_id (get_rule_40 code) = 40" "rule_id (get_rule_41 code) = 41" "rule_id (get_rule_42 code) = 42"
  "rule_id (get_rule_43 code) = 43" "rule_id (get_rule_44 code) = 44" "rule_id (get_rule_45 code) = 45"
  "rule_id (get_rule_46 code) = 46" "rule_id (get_rule_47 code) = 47" "rule_id (get_rule_48 code) = 48"
  "rule_id (get_rule_50 code) = 50" "rule_id (get_rule_51 code) = 51" "rule_id (get_rule_52 code) = 52"
  "rule_id (get_rule_53 code) = 53" "rule_id (get_rule_54 code) = 54" "rule_id (get_rule_55 code) = 55"
  "rule_id (get_rule_56 code) = 56"
  by (simp_all add: inner_rule_defs inner_constants Let_def)

lemma inner_array:
  "rule_array (get_orange_labs_inner_rules code) = [get_rule_40 code, get_rule_41 code, get_rule_42 code,
     get_rule_43 code, get_rule_44 code, get_rule_45 code, get_rule_46 code, get_rule_47 code, get_rule_48 code,
     get_rule_50 code, get_rule_51 code, get_rule_52 code, get_rule_53 code, get_rule_54 code, get_rule_55 code,
     get_rule_56 code]"
  by (simp add: get_orange_labs_inner_rules_def)

text \<open>The pairs of identifiers in ascending order whose rules do not exclude each other.\<close>

lemma inner_compatible:
  assumes "inj code"
  shows "\<forall>r \<in> set (rule_array (get_orange_labs_inner_rules code)).
    \<forall>s \<in> set (rule_array (get_orange_labs_inner_rules code)).
      rule_id r < rule_id s \<and> compatible (signature r) (signature s) \<longrightarrow>
        (rule_id r, rule_id s) \<in> {(42, 53), (43, 47)}"
  unfolding inner_array
  by (simp only: list.set ball_simps, (intro conjI TrueI;
      simp add: inner_ids inner_signatures inj_eq [OF assms] cong: conj_cong))

lemma inner_twins:
  "matches_rule (get_rule_42 code) p = matches_rule (get_rule_53 code) p"
  "matches_rule (get_rule_43 code) p = matches_rule (get_rule_47 code) p"
  by (simp_all add: matches_rule_def matches_field_def get_rule_42_def get_rule_53_def get_rule_43_def get_rule_47_def
      Let_def inner_constants list_all2_Cons1)

lemma inner_42_43_match:
  "matches_rule (get_rule_42 code) [(FID_COAP_CODE, 1, byte_seq [code COAP_POST]),
     (FID_COAP_URI_PATH, 1, text_bits ''rd''), (FID_COAP_URI_PATH, 2, replicate 80 True)]"
  "matches_rule (get_rule_43 code) [(FID_COAP_CODE, 1, byte_seq [code COAP_CHANGED])]"
  by (simp_all add: matches_rule_def matches_field_def get_rule_42_def get_rule_43_def Let_def
      literal_bits del: target_bits.simps One_nat_def)
    (simp_all add: inner_constants)

lemma inner_by_id:
  assumes "r \<in> set (rule_array (get_orange_labs_inner_rules code))"
  shows "rule_id r = 42 \<Longrightarrow> r = get_rule_42 code" "rule_id r = 43 \<Longrightarrow> r = get_rule_43 code"
    "rule_id r = 47 \<Longrightarrow> r = get_rule_47 code" "rule_id r = 53 \<Longrightarrow> r = get_rule_53 code"
proof -
  have "distinct (map rule_id (rule_array (get_orange_labs_inner_rules code)))"
    using inner_fit by (simp add: rules_fit_def)
  note find = find_by_id [OF this assms, unfolded inner_array]
  show "rule_id r = 42 \<Longrightarrow> r = get_rule_42 code" "rule_id r = 43 \<Longrightarrow> r = get_rule_43 code"
    "rule_id r = 47 \<Longrightarrow> r = get_rule_47 code" "rule_id r = 53 \<Longrightarrow> r = get_rule_53 code"
    using find by (simp_all add: inner_ids)
qed

text \<open>C30: When the engine's CoAP codes are distinct, two different inner rules can match the same
  plaintext only in two cases: registration confirmation and registration refresh requests (42 and
  53), and registration confirmation and light control responses (43 and 47). The two rules of a pair match exactly the
  same plaintexts, so the later of them is never used.\<close>

theorem inner_rules_overlap:
  assumes "inj code" "r \<in> set (rule_array (get_orange_labs_inner_rules code))"
    and "s \<in> set (rule_array (get_orange_labs_inner_rules code))" "rule_id r < rule_id s"
  shows "(\<exists>p. matches_rule r p \<and> matches_rule s p) = ((rule_id r, rule_id s) \<in> {(42, 53), (43, 47)})
    \<and> ((\<exists>p. matches_rule r p \<and> matches_rule s p) \<longrightarrow> (\<forall>p. matches_rule r p = matches_rule s p))"
proof -
  have only: "(rule_id r, rule_id s) \<in> {(42, 53), (43, 47)}" if "matches_rule r p" "matches_rule s p" for p
    using inner_compatible [OF assms(1)] matches_compatible [OF that] assms(2-4) by blast
  have same: "(\<exists>p. matches_rule r p) \<and> (\<forall>p. matches_rule r p = matches_rule s p)"
    if ids: "(rule_id r, rule_id s) \<in> {(42, 53), (43, 47)}"
  proof (cases "rule_id r = 42")
    case True
    then have rs: "r = get_rule_42 code" "s = get_rule_53 code"
      using ids by (auto intro!: inner_by_id assms(2,3))
    show ?thesis
      unfolding rs by (intro conjI exI allI, rule inner_42_43_match, rule inner_twins)
  next
    case False
    then have rs: "r = get_rule_43 code" "s = get_rule_47 code"
      using ids by (auto intro!: inner_by_id assms(2,3))
    show ?thesis
      unfolding rs by (intro conjI exI allI, rule inner_42_43_match, rule inner_twins)
  qed
  show ?thesis
  proof (cases "(rule_id r, rule_id s) \<in> {(42, 53), (43, 47)}")
    case True
    from same [OF this] obtain p where "matches_rule r p" "\<forall>p. matches_rule r p = matches_rule s p"
      by (elim conjE exE)
    with True show ?thesis
      by auto
  next
    case False
    then have "\<not> (\<exists>p. matches_rule r p \<and> matches_rule s p)"
      by (auto dest: only)
    with False show ?thesis
      by (simp only: simp_thms)
  qed
qed

theorem inner_rules_overlap_witness:
  "(\<exists>p. matches_rule (get_rule_43 rfc7252_code) p \<and> matches_rule (get_rule_47 rfc7252_code) p)
    \<and> (\<forall>p. matches_rule (get_rule_43 rfc7252_code) p = matches_rule (get_rule_47 rfc7252_code) p)"
proof -
  have "(\<exists>p. matches_rule (get_rule_43 rfc7252_code) p \<and> matches_rule (get_rule_47 rfc7252_code) p) =
      ((rule_id (get_rule_43 rfc7252_code), rule_id (get_rule_47 rfc7252_code)) \<in> {(42, 53), (43, 47)})
    \<and> ((\<exists>p. matches_rule (get_rule_43 rfc7252_code) p \<and> matches_rule (get_rule_47 rfc7252_code) p) \<longrightarrow>
      (\<forall>p. matches_rule (get_rule_43 rfc7252_code) p = matches_rule (get_rule_47 rfc7252_code) p))"
    by (rule inner_rules_overlap [OF rfc7252_inj]) (simp_all add: inner_array inner_ids)
  moreover have "(rule_id (get_rule_43 rfc7252_code), rule_id (get_rule_47 rfc7252_code)) \<in> {(42, 53), (43, 47)}"
    by (simp add: inner_ids)
  ultimately show ?thesis
    by metis
qed

theorem inner_rules_lossless_witness:
  "schc_decompress (\<lambda>i. []) (get_orange_labs_inner_rules rfc7252_code)
      (43, [Nothing]) = Some [(FID_COAP_CODE, 1, byte_seq [rfc7252_code COAP_CHANGED])]"
proof (rule inner_rules_lossless)
  show "schc_compress (get_orange_labs_inner_rules rfc7252_code) [(FID_COAP_CODE, 1, byte_seq [rfc7252_code COAP_CHANGED])] =
      Some (43, [Nothing])"
    by code_simp
qed

end
