(* ===== verification/Outer_Rules.thy ===== *)
theory Outer_Rules
  imports Rules Oscore_Proxy
begin

text \<open>
  The outer rules, for packets on the link: \<open>libs/schc_comp_apis/oscore_basic/src/outerrules.c\<close>. The
  address and port target values point into the arrays of \<open>fullsdkextapi.c\<close>, the record
  \<open>ext_state\<close>; the rules are functions of it. The static rule fields of
  \<open>get_orangelabs_outer_rules\<close> are definitions of their own.
\<close>

section \<open>Constants\<close>

definition OUTER_NO_COMP_RULE_ID :: nat where "OUTER_NO_COMP_RULE_ID = 150"
definition COAP_OSCORE_REQUEST_RULE_ID :: nat where "COAP_OSCORE_REQUEST_RULE_ID = 56"
definition COAP_OSCORE_RESPONSE_RULE_ID :: nat where "COAP_OSCORE_RESPONSE_RULE_ID = 57"
definition COAP_OSCORE_OBSERVE_REQUEST_RULE_ID :: nat where "COAP_OSCORE_OBSERVE_REQUEST_RULE_ID = 58"
definition COAP_OSCORE_OBSERVE_RESPONSE_RULE_ID :: nat where "COAP_OSCORE_OBSERVE_RESPONSE_RULE_ID = 59"
definition COAP_OSCORE_OBSERVE_NOTIF_RULE_ID :: nat where "COAP_OSCORE_OBSERVE_NOTIF_RULE_ID = 60"
definition IP_UDP_RULE_ID :: nat where "IP_UDP_RULE_ID = 61"
definition EDHOC_COAP_REQUEST_RULE_ID :: nat where "EDHOC_COAP_REQUEST_RULE_ID = 69"
definition EDHOC_COAP_RESPONSE_RULE_ID :: nat where "EDHOC_COAP_RESPONSE_RULE_ID = 70"

lemmas outer_constants =
  OUTER_NO_COMP_RULE_ID_def COAP_OSCORE_REQUEST_RULE_ID_def COAP_OSCORE_RESPONSE_RULE_ID_def
  COAP_OSCORE_OBSERVE_REQUEST_RULE_ID_def COAP_OSCORE_OBSERVE_RESPONSE_RULE_ID_def COAP_OSCORE_OBSERVE_NOTIF_RULE_ID_def
  IP_UDP_RULE_ID_def EDHOC_COAP_REQUEST_RULE_ID_def EDHOC_COAP_RESPONSE_RULE_ID_def

section \<open>Fields and rules\<close>

definition add_ip_fields :: "ext_state \<Rightarrow> rule \<Rightarrow> rule" where
  "add_ip_fields ext rule =
   (let ipv6_version = [0x60];
        ipv6_version_tv = TV_BIT_STRING (Bit_string ipv6_version 0 4);
        ipv6_traffic_class = [0];
        ipv6_traffic_class_tv = TV_BIT_STRING (Bit_string ipv6_traffic_class 0 8);
        ipv6_flow_label = [0x12, 0x34, 0x50];
        ipv6_flow_label_tv = TV_BIT_STRING (Bit_string ipv6_flow_label 0 20);
        ipv6_next_header_udp = [17];
        ipv6_next_header_udp_tv = TV_BIT_STRING (Bit_string ipv6_next_header_udp 0 8);
        ipv6_hop_limit = [64];
        ipv6_hop_limit_tv = TV_BIT_STRING (Bit_string ipv6_hop_limit 0 8);
        ipv6_prefix_dev_tv = TV_BIT_STRING (Bit_string (host_ipv6_addr ext) 0 64);
        ipv6_iid_dev_tv = TV_BIT_STRING (Bit_string (drop 8 (host_ipv6_addr ext)) 0 64);
        remote_ipv6_prefix_tv = TV_BIT_STRING (Bit_string (remote_ipv6_addr ext) 0 64);
        remote_ipv6_iid_tv = TV_BIT_STRING (Bit_string (drop 8 (remote_ipv6_addr ext)) 0 64);
        rule_field_00 = Rule_field FID_IPV6_VERSION 1 DIR_BI (Some ipv6_version_tv) 4 MO_EQUAL 0 CDA_NOT_SENT;
        rule_field_01 = Rule_field FID_IPV6_TRAFFIC_CLASS 1 DIR_BI (Some ipv6_traffic_class_tv) 8 MO_EQUAL 0 CDA_NOT_SENT;
        rule_field_02 = Rule_field FID_IPV6_FLOW_LABEL 1 DIR_BI (Some ipv6_flow_label_tv) 20 MO_IGNORE 0 CDA_NOT_SENT;
        rule_field_03 = Rule_field FID_IPV6_PAYLOAD_LENGTH 1 DIR_BI None 16 MO_IGNORE 0 CDA_COMPUTE_LENGTH;
        rule_field_04 = Rule_field FID_IPV6_NEXT_HEADER 1 DIR_BI (Some ipv6_next_header_udp_tv) 8 MO_EQUAL 0 CDA_NOT_SENT;
        rule_field_05 = Rule_field FID_IPV6_HOP_LIMIT 1 DIR_BI (Some ipv6_hop_limit_tv) 8 MO_IGNORE 0 CDA_NOT_SENT;
        rule_field_06 = Rule_field FID_IPV6_PREFIX_DEV 1 DIR_BI (Some ipv6_prefix_dev_tv) 64 MO_EQUAL 0 CDA_NOT_SENT;
        rule_field_07 = Rule_field FID_IPV6_IID_DEV 1 DIR_BI (Some ipv6_iid_dev_tv) 64 MO_EQUAL 0 CDA_NOT_SENT;
        rule_field_08 = Rule_field FID_IPV6_PREFIX_APP 1 DIR_BI (Some remote_ipv6_prefix_tv) 64 MO_EQUAL 0 CDA_NOT_SENT;
        rule_field_09 = Rule_field FID_IPV6_IID_APP 1 DIR_BI (Some remote_ipv6_iid_tv) 64 MO_EQUAL 0 CDA_NOT_SENT
    in fold add_rule_field
      [rule_field_00, rule_field_01, rule_field_02, rule_field_03, rule_field_04, rule_field_05, rule_field_06, rule_field_07, rule_field_08, rule_field_09] rule)"

definition add_udp_fields :: "ext_state \<Rightarrow> rule \<Rightarrow> rule" where
  "add_udp_fields ext rule =
   (let remote_udp_port_tv = TV_BIT_STRING (Bit_string (remote_udp_port ext) 0 16);
        host_udp_port_tv = TV_BIT_STRING (Bit_string (host_udp_port ext) 0 16);
        rule_field_10 = Rule_field FID_UDP_PORT_DEV 1 DIR_BI (Some host_udp_port_tv) 16 MO_EQUAL 0 CDA_NOT_SENT;
        rule_field_11 = Rule_field FID_UDP_PORT_APP 1 DIR_BI (Some remote_udp_port_tv) 16 MO_EQUAL 0 CDA_NOT_SENT;
        rule_field_12 = Rule_field FID_UDP_LENGTH 1 DIR_BI None 16 MO_IGNORE 0 CDA_COMPUTE_LENGTH;
        rule_field_13 = Rule_field FID_UDP_CHECKSUM 1 DIR_BI None 16 MO_IGNORE 0 CDA_COMPUTE_CHECKSUM
    in fold add_rule_field
      [rule_field_10, rule_field_11, rule_field_12, rule_field_13] rule)"

definition rule_field_edhoc_uri :: "rule_field" where
  "rule_field_edhoc_uri =
   (let uri_path = c_array ''.well-known/edhoc'';
        edhoc_coap_uri_path_tv = TV_BIT_STRING (Bit_string uri_path 0 ((length uri_path - 1) * 8))
    in Rule_field FID_COAP_URI_PATH 1 DIR_BI (Some edhoc_coap_uri_path_tv) 0 MO_EQUAL 0 CDA_NOT_SENT)"

definition rule_field_14 :: "rule_field" where
  "rule_field_14 =
   (let coap_version = [0x01];
        coap_version_tv = TV_BIT_STRING (Bit_string coap_version 6 2)
    in Rule_field FID_COAP_VERSION 1 DIR_BI (Some coap_version_tv) 2 MO_EQUAL 0 CDA_NOT_SENT)"

definition rule_field_15_con :: "rule_field" where
  "rule_field_15_con =
   (let con_coap_type = [0];
        con_coap_type_tv = TV_BIT_STRING (Bit_string con_coap_type 6 2)
    in Rule_field FID_COAP_TYPE 1 DIR_BI (Some con_coap_type_tv) 2 MO_EQUAL 0 CDA_NOT_SENT)"

definition rule_field_15_non_con :: "rule_field" where
  "rule_field_15_non_con =
   (let non_con_coap_type = [1];
        non_con_coap_type_tv = TV_BIT_STRING (Bit_string non_con_coap_type 6 2)
    in Rule_field FID_COAP_TYPE 1 DIR_BI (Some non_con_coap_type_tv) 2 MO_EQUAL 0 CDA_NOT_SENT)"

definition rule_field_15_ack :: "rule_field" where
  "rule_field_15_ack =
   (let ack_coap_type = [2];
        ack_coap_type_tv = TV_BIT_STRING (Bit_string ack_coap_type 6 2)
    in Rule_field FID_COAP_TYPE 1 DIR_BI (Some ack_coap_type_tv) 2 MO_EQUAL 0 CDA_NOT_SENT)"

definition rule_field_16 :: "rule_field" where
  "rule_field_16 =
   (let coap_tkl = [2];
        coap_tkl_tv = TV_BIT_STRING (Bit_string coap_tkl 4 4)
    in Rule_field FID_COAP_TOKEN_LENGTH 1 DIR_BI (Some coap_tkl_tv) 4 MO_EQUAL 0 CDA_NOT_SENT)"

definition rule_field_17_post :: "(coap_code \<Rightarrow> byte) \<Rightarrow> rule_field" where
  "rule_field_17_post code =
   (let post_coap_code = [code COAP_POST];
        post_coap_code_tv = TV_BIT_STRING (Bit_string post_coap_code 0 8)
    in Rule_field FID_COAP_CODE 1 DIR_BI (Some post_coap_code_tv) 8 MO_EQUAL 0 CDA_NOT_SENT)"

definition rule_field_17_fetch :: "(coap_code \<Rightarrow> byte) \<Rightarrow> rule_field" where
  "rule_field_17_fetch code =
   (let fetch_coap_code = [code COAP_FETCH];
        fetch_coap_code_tv = TV_BIT_STRING (Bit_string fetch_coap_code 0 8)
    in Rule_field FID_COAP_CODE 1 DIR_BI (Some fetch_coap_code_tv) 8 MO_EQUAL 0 CDA_NOT_SENT)"

definition rule_field_17_changed :: "(coap_code \<Rightarrow> byte) \<Rightarrow> rule_field" where
  "rule_field_17_changed code =
   (let changed_coap_code = [code COAP_CHANGED];
        changed_coap_code_tv = TV_BIT_STRING (Bit_string changed_coap_code 0 8)
    in Rule_field FID_COAP_CODE 1 DIR_BI (Some changed_coap_code_tv) 8 MO_EQUAL 0 CDA_NOT_SENT)"

definition rule_field_17_content :: "(coap_code \<Rightarrow> byte) \<Rightarrow> rule_field" where
  "rule_field_17_content code =
   (let content_coap_code = [code COAP_CONTENT];
        content_coap_code_tv = TV_BIT_STRING (Bit_string content_coap_code 0 8)
    in Rule_field FID_COAP_CODE 1 DIR_BI (Some content_coap_code_tv) 8 MO_EQUAL 0 CDA_NOT_SENT)"

definition rule_field_18 :: "rule_field" where
  "rule_field_18 =
   Rule_field FID_COAP_MSG_ID 1 DIR_BI None 16 MO_IGNORE 0 CDA_VALUE_SENT"

definition rule_field_19 :: "rule_field" where
  "rule_field_19 =
   Rule_field FID_COAP_TOKEN 1 DIR_BI None 16 MO_IGNORE 0 CDA_VALUE_SENT"

definition rule_field_20_observe :: "rule_field" where
  "rule_field_20_observe =
   (let empty_option = [0x00];
        empty_option_tv = TV_BIT_STRING (Bit_string empty_option 0 0)
    in Rule_field FID_COAP_OBSERVE 1 DIR_BI (Some empty_option_tv) 0 MO_EQUAL 0 CDA_NOT_SENT)"

definition rule_field_20_observe_notif :: "rule_field" where
  "rule_field_20_observe_notif =
   Rule_field FID_COAP_OBSERVE 1 DIR_BI None 0 MO_IGNORE 0 CDA_VALUE_SENT"

definition rule_field_21_request :: "rule_field" where
  "rule_field_21_request =
   (let oscore_option_request = [0x09];
        oscore_option_request_tv = TV_BIT_STRING (Bit_string oscore_option_request 0 8)
    in Rule_field FID_COAP_OSCORE 1 DIR_BI (Some oscore_option_request_tv) 0 MO_MSB 8 CDA_LSB)"

definition rule_field_21_response :: "rule_field" where
  "rule_field_21_response =
   (let empty_option = [0x00];
        empty_option_tv = TV_BIT_STRING (Bit_string empty_option 0 0)
    in Rule_field FID_COAP_OSCORE 1 DIR_BI (Some empty_option_tv) 0 MO_EQUAL 0 CDA_NOT_SENT)"

definition rule_field_21_observe_notif :: "rule_field" where
  "rule_field_21_observe_notif =
   Rule_field FID_COAP_OSCORE 1 DIR_BI None 0 MO_IGNORE 0 CDA_VALUE_SENT"

definition ipv6_coap_oscore_request_rule :: "ext_state \<Rightarrow> (coap_code \<Rightarrow> byte) \<Rightarrow> rule" where
  "ipv6_coap_oscore_request_rule ext code =
     fold add_rule_field
      [rule_field_14, rule_field_15_con, rule_field_16, rule_field_17_post code, rule_field_18, rule_field_19, rule_field_21_request]
      (add_udp_fields ext (add_ip_fields ext (init_rule COAP_OSCORE_REQUEST_RULE_ID STACK_IPV6_UDP_COAP 21)))"

definition ipv6_coap_oscore_response_rule :: "ext_state \<Rightarrow> (coap_code \<Rightarrow> byte) \<Rightarrow> rule" where
  "ipv6_coap_oscore_response_rule ext code =
     fold add_rule_field
      [rule_field_14, rule_field_15_ack, rule_field_16, rule_field_17_changed code, rule_field_18, rule_field_19, rule_field_21_response]
      (add_udp_fields ext (add_ip_fields ext (init_rule COAP_OSCORE_RESPONSE_RULE_ID STACK_IPV6_UDP_COAP 21)))"

definition ipv6_coap_oscore_observe_request_rule :: "ext_state \<Rightarrow> (coap_code \<Rightarrow> byte) \<Rightarrow> rule" where
  "ipv6_coap_oscore_observe_request_rule ext code =
     fold add_rule_field
      [rule_field_14, rule_field_15_con, rule_field_16, rule_field_17_fetch code, rule_field_18, rule_field_19, rule_field_20_observe, rule_field_21_request]
      (add_udp_fields ext (add_ip_fields ext (init_rule COAP_OSCORE_OBSERVE_REQUEST_RULE_ID STACK_IPV6_UDP_COAP 22)))"

definition ipv6_coap_oscore_observe_response_rule :: "ext_state \<Rightarrow> (coap_code \<Rightarrow> byte) \<Rightarrow> rule" where
  "ipv6_coap_oscore_observe_response_rule ext code =
     fold add_rule_field
      [rule_field_14, rule_field_15_ack, rule_field_16, rule_field_17_content code, rule_field_18, rule_field_19, rule_field_20_observe, rule_field_21_response]
      (add_udp_fields ext (add_ip_fields ext (init_rule COAP_OSCORE_OBSERVE_RESPONSE_RULE_ID STACK_IPV6_UDP_COAP 22)))"

definition ipv6_coap_oscore_observe_notif_rule :: "ext_state \<Rightarrow> (coap_code \<Rightarrow> byte) \<Rightarrow> rule" where
  "ipv6_coap_oscore_observe_notif_rule ext code =
     fold add_rule_field
      [rule_field_14, rule_field_15_non_con, rule_field_16, rule_field_17_content code, rule_field_18, rule_field_19, rule_field_20_observe_notif, rule_field_21_observe_notif]
      (add_udp_fields ext (add_ip_fields ext (init_rule COAP_OSCORE_OBSERVE_NOTIF_RULE_ID STACK_IPV6_UDP_COAP 22)))"

definition ipv6_coap_edhoc_request_rule :: "ext_state \<Rightarrow> (coap_code \<Rightarrow> byte) \<Rightarrow> rule" where
  "ipv6_coap_edhoc_request_rule ext code =
     fold add_rule_field
      [rule_field_14, rule_field_15_con, rule_field_16, rule_field_17_post code, rule_field_18, rule_field_19, rule_field_edhoc_uri]
      (add_udp_fields ext (add_ip_fields ext (init_rule EDHOC_COAP_REQUEST_RULE_ID STACK_IPV6_UDP_COAP 21)))"

definition ipv6_coap_edhoc_response_rule :: "ext_state \<Rightarrow> (coap_code \<Rightarrow> byte) \<Rightarrow> rule" where
  "ipv6_coap_edhoc_response_rule ext code =
     fold add_rule_field
      [rule_field_14, rule_field_15_ack, rule_field_16, rule_field_17_changed code, rule_field_18, rule_field_19]
      (add_udp_fields ext (add_ip_fields ext (init_rule EDHOC_COAP_RESPONSE_RULE_ID STACK_IPV6_UDP_COAP 21)))"

definition ipv6_udp_rule :: "ext_state \<Rightarrow> rule" where
  "ipv6_udp_rule ext =
     add_udp_fields ext (add_ip_fields ext (init_rule IP_UDP_RULE_ID STACK_IPV6_UDP 15))"

definition get_orangelabs_outer_rules :: "ext_state \<Rightarrow> (coap_code \<Rightarrow> byte) \<Rightarrow> rules" where
  "get_orangelabs_outer_rules ext code =
     fold add_rule
       [ipv6_coap_oscore_request_rule ext code,
        ipv6_coap_oscore_response_rule ext code,
        ipv6_coap_oscore_observe_request_rule ext code,
        ipv6_coap_oscore_observe_response_rule ext code,
        ipv6_coap_oscore_observe_notif_rule ext code,
        ipv6_coap_edhoc_request_rule ext code,
        ipv6_coap_edhoc_response_rule ext code,
        ipv6_udp_rule ext]
       (init_rules 8 OUTER_NO_COMP_RULE_ID)"

end
