(* ===== verification/Ext_Rules.thy ===== *)
theory Ext_Rules
  imports Oscore_Proxy Inner_Rules_Props Outer_Rules
begin

text \<open>
  Which rule sets the extension API of
  \<open>libs/schc_comp_apis/oscore_basic/src/fullsdkextapi.c\<close> hands to the SDK: the outer rules go to
  \<open>mgt_set_rules\<close> with no inner rules beside them, and the inner rules of the OSCORE plaintext are
  a set initialised on the spot, with no array and no rule, not those of \<open>innerrules.c\<close>.

  The rule engine (\<open>schc_oscore_inner_compress\<close>, \<open>schc_oscore_inner_decompress\<close>) and
  \<open>mgt_set_rules\<close> belong to the SDK and are parameters. The engine takes a rule set; what the
  program relies on when no rule of the set applies is stated as a hypothesis on it.
\<close>

section \<open>Definitions\<close>

text \<open>\<open>init_rules(&rules, NULL, NO_COMP_RULE_ID)\<close>: the array has no room.\<close>

definition get_inner_rules :: rules where
  "get_inner_rules = init_rules 0 (unat NO_COMP_RULE_ID)"

definition get_outer_rules :: "ext_state \<Rightarrow> (coap_code \<Rightarrow> byte) \<Rightarrow> rules" where
  "get_outer_rules ext code = get_orangelabs_outer_rules ext code"

text \<open>The second argument of \<open>mgt_set_rules\<close> is NULL.\<close>

definition mgt_enable_extension_api ::
    "(rules \<Rightarrow> rules option \<Rightarrow> 'sdk \<Rightarrow> 'status \<times> 'sdk) \<Rightarrow> ext_state \<Rightarrow> (coap_code \<Rightarrow> byte) \<Rightarrow>
     'sdk \<Rightarrow> 'status \<times> 'sdk" where
  "mgt_enable_extension_api mgt_set_rules ext code sdk =
     (let outer_rules = get_orangelabs_outer_rules ext code in mgt_set_rules outer_rules None sdk)"

text \<open>The callback leaves the output and the input alone and reports success; buffers and strings of
  bits are the engine's.\<close>

definition ext_compress :: "'bit_buffer \<Rightarrow> 'bit_string \<Rightarrow> bool \<times> 'bit_buffer \<times> 'bit_string" where
  "ext_compress output_bb input_bs = (True, output_bb, input_bs)"

type_synonym ('b, 's) ext_callback = "'b \<Rightarrow> 's \<Rightarrow> bool \<times> 'b \<times> 's"

text \<open>The calls of the engine in \<open>mgt_ext_oscore_inner_compression\<close> and
  \<open>mgt_ext_oscore_inner_decompression\<close>, as the codecs these take.\<close>

definition inner_compressor :: "(rules \<Rightarrow> ('b, 's) ext_callback \<Rightarrow> sdk_codec) \<Rightarrow> sdk_codec" where
  "inner_compressor schc_oscore_inner_compress = schc_oscore_inner_compress get_inner_rules ext_compress"

definition inner_decompressor :: "(rules \<Rightarrow> sdk_codec) \<Rightarrow> sdk_codec" where
  "inner_decompressor schc_oscore_inner_decompress = schc_oscore_inner_decompress get_inner_rules"

section \<open>What the engine does when no rule applies\<close>

text \<open>RFC 8724, section 6: a packet no rule matches is sent behind the identifier reserved for that
  purpose. \<open>parse\<close> is the engine's view of a plaintext as header fields.\<close>

definition sends_uncompressed :: "(memory \<Rightarrow> packet) \<Rightarrow> (rules \<Rightarrow> 'cb \<Rightarrow> sdk_codec) \<Rightarrow> bool" where
  "sends_uncompressed parse engine \<longleftrightarrow>
     (\<forall>rs cb size buf x. schc_compress rs (parse x) = None \<and> length x < unat size \<and> length buf = unat size \<longrightarrow>
        engine rs cb size buf x =
          (COMP_SUCCESS, poke buf 0 (of_nat (no_comp_rule_id rs) # x), of_nat (length x + 1)))"

text \<open>A message whose first byte names no rule is refused, within the output buffer.\<close>

definition refuses_unknown :: "(rules \<Rightarrow> sdk_codec) \<Rightarrow> bool" where
  "refuses_unknown engine \<longleftrightarrow>
     (\<forall>rs size buf b x. unat (b :: byte) \<notin> rule_id ` set (rule_array rs) \<and> length buf = unat size \<longrightarrow>
        (\<exists>st buf' k. engine rs size buf (b # x) = (st, buf', k) \<and> st \<noteq> COMP_SUCCESS
          \<and> length buf' = unat size))"

section \<open>The inner rules are never used\<close>

lemma inner_set_empty [simp]: "rule_array get_inner_rules = []" "no_comp_rule_id get_inner_rules = 28"
  by (simp_all add: get_inner_rules_def NO_COMP_RULE_ID_def)

lemma nothing_matches: "schc_compress get_inner_rules p = None"
  by (simp add: schc_compress_def)

lemma inner_compressor_run:
  assumes "sends_uncompressed parse engine" "length x < 128"
  shows "inner_compressor engine 128 (replicate 128 0) x =
    (COMP_SUCCESS, poke (replicate 128 0) 0 (NO_COMP_RULE_ID # x), of_nat (length x + 1))"
  using assms nothing_matches [of "parse x"]
  by (simp add: sends_uncompressed_def inner_compressor_def NO_COMP_RULE_ID_def)

lemma unknown_refused:
  assumes "refuses_unknown engine"
  shows "\<exists>st buf k. inner_decompressor engine 128 (replicate 128 0) (b # x) = (st, buf, k)
    \<and> st \<noteq> COMP_SUCCESS \<and> length buf = 128"
  using assms [unfolded refuses_unknown_def, rule_format, of b get_inner_rules "replicate 128 0" 128 x]
  by (simp add: inner_decompressor_def)

lemma take_written: "n = length bs \<Longrightarrow> take n (poke m 0 bs) = bs"
  by (simp add: poke_def)

lemma small_u16: "n < 65536 \<Longrightarrow> unat (of_nat n :: u16) = n"
  using unat_of_nat_small [of n, where 'a = 16] by simp

text \<open>C40: the inner rules of \<open>innerrules.c\<close> are never used, and inner compression lengthens every
  plaintext by one byte: with an engine that sends what no rule matches behind the identifier of no
  compression, and refuses identifiers that name no rule, every plaintext of fewer than 128 bytes with
  one free byte behind it becomes the byte 0x1c and the plaintext, whatever the rules of
  \<open>innerrules.c\<close> would make of it, and the other end's decompression takes the byte away
  again.\<close>

theorem inner_compression_lengthens:
  assumes "sends_uncompressed parse engine" "refuses_unknown dengine"
    and "unat sz < 128" "unat sz < length plaintext"
  shows "\<exists>out. oscore_msg_inner_compression (inner_compressor engine) plaintext sz = Some (True, out, sz + 1)
    \<and> out = 0x1c # take (unat sz) plaintext @ drop (unat sz + 1) plaintext
    \<and> (\<exists>plaintext'. oscore_msg_inner_decompression (inner_decompressor dengine) stack out (sz + 1) =
          Some (True, plaintext', sz)
        \<and> take (unat sz) plaintext' = take (unat sz) plaintext)"
proof -
  let ?x = "take (unat sz) plaintext"
  let ?m = "of_nat (unat sz + 1) :: u16"
  let ?out = "poke plaintext 0 (NO_COMP_RULE_ID # ?x)"
  have lx: "length ?x = unat sz"
    using assms(4) by simp
  have um: "unat ?m = unat sz + 1"
    using assms(3) by (intro small_u16) simp
  have sz1: "(ucast ?m :: u32) = sz + 1"
    using um assms(3) by (intro word_unat_eq_iff [THEN iffD2]) (simp add: unat_ucast_16_32 unat_word_ariths)
  have buf: "length (poke (replicate 128 (0 :: byte)) 0 (NO_COMP_RULE_ID # ?x)) = 128"
    using assms(3) lx by simp
  have run: "inner_compressor engine 128 (replicate 128 0) ?x =
      (COMP_SUCCESS, poke (replicate 128 0) 0 (NO_COMP_RULE_ID # ?x), ?m)"
    using inner_compressor_run [OF assms(1), of ?x] assms(3) lx by simp
  have "take (unat ?m) (poke (replicate 128 0) 0 (NO_COMP_RULE_ID # ?x)) = NO_COMP_RULE_ID # ?x"
    using um lx by (intro take_written) simp
  then have comp: "oscore_msg_inner_compression (inner_compressor engine) plaintext sz = Some (True, ?out, sz + 1)"
    using inner_compression_eq(1) [of sz plaintext "inner_compressor engine" _ ?m, OF _ _ run buf] assms(3,4) um sz1
    by simp
  obtain st buf' k where dec: "inner_decompressor dengine 128 (replicate 128 0) (NO_COMP_RULE_ID # ?x) = (st, buf', k)"
    "st \<noteq> COMP_SUCCESS" "length buf' = 128"
    using unknown_refused [OF assms(2)] by blast
  have "take (unat ?m) ?out = NO_COMP_RULE_ID # ?x"
    using um lx by (intro take_written) simp
  then have "\<exists>pt'. oscore_msg_inner_decompression (inner_decompressor dengine) stack ?out (ucast ?m) =
      Some (True, pt', of_nat (length ?x)) \<and> take (length ?x) pt' = ?x \<and> length pt' = length ?out"
    using inner_fallback_eq [of ?m ?out ?x "inner_decompressor dengine" st buf' k stack] dec assms(3,4) um lx
    by simp
  moreover have "?out = 0x1c # ?x @ drop (unat sz + 1) plaintext"
    using assms(4) by (simp add: poke_def NO_COMP_RULE_ID_def)
  ultimately show ?thesis
    using comp lx sz1 by auto
qed

text \<open>With an engine that refuses what does not fit its output, the two codecs of the program are a
  pair: the deliveries proved for a pair hold for it.\<close>

lemma inner_codec_pair:
  assumes "sends_uncompressed parse engine" "refuses_unknown dengine"
    and long: "\<And>x. 128 \<le> length x \<Longrightarrow> fst (inner_compressor engine 128 (replicate 128 0) x) \<noteq> COMP_SUCCESS"
  shows "codec_pair (inner_compressor engine) (inner_decompressor dengine)"
  unfolding codec_pair_def
proof (intro allI impI)
  fix x out m
  assume run: "inner_compressor engine 128 (replicate 128 0) x = (COMP_SUCCESS, out, m)"
  then have x: "length x < 128"
    using long [of x] by (cases "length x < 128") simp_all
  have out: "out = poke (replicate 128 0) 0 (NO_COMP_RULE_ID # x)" "unat m = length x + 1"
    using run inner_compressor_run [OF assms(1) x] small_u16 [of "length x + 1"] x by auto
  have "take (unat m) out = NO_COMP_RULE_ID # x" "length out = 128"
    using out x take_written [of "unat m" "NO_COMP_RULE_ID # x"] by simp_all
  then show "length out = 128 \<and> unat m \<le> 128 \<and>
        (\<exists>st out' k. inner_decompressor dengine 128 (replicate 128 0) (take (unat m) out) = (st, out', k) \<and>
           length out' = 128 \<and>
           (if st = COMP_SUCCESS then unat k \<le> 128 \<and> unat k = length x \<and> take (length x) out' = x
            else take (unat m) out = NO_COMP_RULE_ID # x))"
    using unknown_refused [OF assms(2), of NO_COMP_RULE_ID x] out x by auto
qed

text \<open>So the case in which a packet is lost on the way up, a protected message shorter than the
  original, cannot come from the inner compression of the program as it is.\<close>

definition never_shortens :: "plaintext_cb \<Rightarrow> bool" where
  "never_shortens f \<longleftrightarrow>
     (\<forall>pt sz pt' m. unat sz < 65536 \<and> unat sz \<le> length pt \<and> f pt sz = Some (True, pt', m) \<longrightarrow> unat sz < unat m)"

lemma inner_never_shortens:
  assumes "sends_uncompressed parse engine" "refuses_unknown dengine"
    and "\<And>x. 128 \<le> length x \<Longrightarrow> fst (inner_compressor engine 128 (replicate 128 0) x) \<noteq> COMP_SUCCESS"
  shows "never_shortens (oscore_msg_inner_compression (inner_compressor engine))"
  unfolding never_shortens_def
proof (intro allI impI, elim conjE)
  fix pt sz pt' m
  assume sz: "unat sz < 65536" "unat sz \<le> length pt"
    and run: "oscore_msg_inner_compression (inner_compressor engine) pt sz = Some (True, pt', m)"
  obtain out k where k: "inner_compressor engine 128 (replicate 128 0) (take (unat sz) pt) = (COMP_SUCCESS, out, k)"
    "m = ucast k"
    using compression_accepted [OF inner_codec_pair [OF assms] run sz] by metis
  then have short: "unat sz < 128"
    using assms(3) [of "take (unat sz) pt"] sz(2) by (cases "unat sz < 128") simp_all
  then have "unat k = unat sz + 1"
    using k(1) inner_compressor_run [OF assms(1), of "take (unat sz) pt"] small_u16 [of "unat sz + 1"] sz(2) by auto
  then show "unat sz < unat m"
    by (simp add: k(2) unat_ucast_16_32)
qed

section \<open>A concrete engine\<close>

text \<open>An engine that knows plaintexts of a code alone, sends the identifier of the rule that matches and
  refuses to decompress what no rule announces.\<close>

definition code_parse :: "memory \<Rightarrow> packet" where
  "code_parse x = [(FID_COAP_CODE, 1, byte_seq x)]"

definition code_compress :: "rules \<Rightarrow> (unit, unit) ext_callback \<Rightarrow> sdk_codec" where
  "code_compress rs cb cap buf x =
     (case schc_compress rs (code_parse x) of
        Some (i, residue) \<Rightarrow> (COMP_SUCCESS, poke buf 0 [of_nat i], 1)
      | None \<Rightarrow> (COMP_SUCCESS, poke buf 0 (of_nat (no_comp_rule_id rs) # x), of_nat (length x + 1)))"

definition code_decompress :: "rules \<Rightarrow> sdk_codec" where
  "code_decompress rs cap buf y =
     (case y of
        [] \<Rightarrow> (COMP_other_error 0, buf, 0)
      | b # x \<Rightarrow> if unat b \<in> rule_id ` set (rule_array rs) then (COMP_SUCCESS, poke buf 0 x, of_nat (length x))
                else (COMP_RULES_NOT_FOUND_ERR, buf, 0))"

text \<open>The rules of \<open>innerrules.c\<close> would send the single byte 68 as one identifier; it becomes two bytes.\<close>

theorem inner_compression_lengthens_witness:
  "code_compress (get_orange_labs_inner_rules rfc7252_code) ext_compress 128 (replicate 128 0) [68] =
      (COMP_SUCCESS, 43 # replicate 127 0, 1)
    \<and> oscore_msg_inner_compression (inner_compressor code_compress) [68, 0] 1 = Some (True, [0x1c, 68], 2)"
proof
  show "code_compress (get_orange_labs_inner_rules rfc7252_code) ext_compress 128 (replicate 128 0) [68] =
      (COMP_SUCCESS, 43 # replicate 127 0, 1)"
    by code_simp
  have s: "sends_uncompressed code_parse code_compress"
    by (simp add: sends_uncompressed_def code_compress_def)
  have "refuses_unknown code_decompress"
    by (simp add: refuses_unknown_def code_decompress_def)
  then show "oscore_msg_inner_compression (inner_compressor code_compress) [68, 0] 1 = Some (True, [0x1c, 68], 2)"
    using inner_compression_lengthens [OF s, of code_decompress 1 "[68, 0]" 0] by simp
qed

end
