(* ===== verification/Outer_Rules_Props.thy ===== *)
theory Outer_Rules_Props
  imports Outer_Rules
begin

text \<open>
  The outer rule set: what the receiver rebuilds of a packet it matches, and that no two rules
  match the same packet.
\<close>

lemmas outer_rule_defs = ipv6_coap_oscore_request_rule_def ipv6_coap_oscore_response_rule_def
  ipv6_coap_oscore_observe_request_rule_def ipv6_coap_oscore_observe_response_rule_def
  ipv6_coap_oscore_observe_notif_rule_def ipv6_coap_edhoc_request_rule_def
  ipv6_coap_edhoc_response_rule_def ipv6_udp_rule_def

lemmas outer_field_defs = add_ip_fields_def add_udp_fields_def rule_field_edhoc_uri_def rule_field_14_def
  rule_field_15_con_def rule_field_15_non_con_def rule_field_15_ack_def rule_field_16_def
  rule_field_17_post_def rule_field_17_fetch_def rule_field_17_changed_def rule_field_17_content_def
  rule_field_18_def rule_field_19_def rule_field_20_observe_def rule_field_20_observe_notif_def
  rule_field_21_request_def rule_field_21_response_def rule_field_21_observe_notif_def

lemma outer_array:
  "rule_array (get_orangelabs_outer_rules ext code) = [ipv6_coap_oscore_request_rule ext code,
     ipv6_coap_oscore_response_rule ext code, ipv6_coap_oscore_observe_request_rule ext code,
     ipv6_coap_oscore_observe_response_rule ext code, ipv6_coap_oscore_observe_notif_rule ext code,
     ipv6_coap_edhoc_request_rule ext code, ipv6_coap_edhoc_response_rule ext code, ipv6_udp_rule ext]"
  by (simp add: get_orangelabs_outer_rules_def)

section \<open>What the receiver rebuilds\<close>

text \<open>The flow label 0x12345 and the hop limit 64 of the rules.\<close>

definition outer_fixed :: "fid \<Rightarrow> bool list option" where
  "outer_fixed i = (if i = FID_IPV6_FLOW_LABEL then Some (take 20 (byte_seq [0x12, 0x34, 0x50]))
     else if i = FID_IPV6_HOP_LIMIT then Some (byte_seq [64]) else None)"

lemma outer_fixed_bits:
  "target_bits (Some (TV_BIT_STRING (Bit_string [0x12, 0x34, 0x50] 0 20))) = take 20 (byte_seq [0x12, 0x34, 0x50])"
  "target_bits (Some (TV_BIT_STRING (Bit_string [64] 0 8))) = byte_seq [64]"
  by (simp_all add: bits_of_def byte_seq_def)

interpretation outer_table: rule_table "get_orangelabs_outer_rules ext code" outer_fixed for ext code
proof
  show "rules_fit (get_orangelabs_outer_rules ext code)"
    by (simp add: rules_fit_def get_orangelabs_outer_rules_def outer_rule_defs outer_field_defs outer_constants Let_def)
  show "list_all (\<lambda>r. list_all (field_ok outer_fixed) (rule_fields r)) (rule_array (get_orangelabs_outer_rules ext code))"
    by (simp add: outer_array outer_rule_defs outer_field_defs Let_def field_ok_def outer_fixed_def computes_def
        computed_ids_def outer_fixed_bits del: target_bits.simps)
qed

text \<open>A packet compressed by an outer rule is rebuilt by the receiver as it was sent, whatever addresses
  and ports are configured, except that its flow label becomes 0x12345 and its hop limit
  64; lengths and checksum are those the receiver recomputes.\<close>

lemma outer_rules_rebuild:
  assumes "schc_compress (get_orangelabs_outer_rules ext code) p = Some c"
    and "\<forall>(i, k, v) \<in> set p. i \<in> {FID_IPV6_PAYLOAD_LENGTH, FID_UDP_LENGTH, FID_UDP_CHECKSUM} \<longrightarrow> computed i = v"
  shows "schc_decompress computed (get_orangelabs_outer_rules ext code) c = Some (map (\<lambda>(i, k, v). (i, k,
    if i = FID_IPV6_FLOW_LABEL then take 20 (byte_seq [0x12, 0x34, 0x50])
    else if i = FID_IPV6_HOP_LIMIT then byte_seq [64] else v)) p)"
proof -
  have "received outer_fixed p = map (\<lambda>(i, k, v). (i, k,
    if i = FID_IPV6_FLOW_LABEL then take 20 (byte_seq [0x12, 0x34, 0x50])
    else if i = FID_IPV6_HOP_LIMIT then byte_seq [64] else v)) p"
    by (auto simp: received_def outer_fixed_def)
  then show ?thesis
    using outer_table.restored [OF assms(1), of computed] assms(2) by (simp add: computed_ids_def)
qed

section \<open>No two rules match the same packet\<close>

lemma compatible_append [simp]:
  "compatible (a @ x) (a @ y) \<longleftrightarrow> compatible x y" "compatible (a @ x) a \<longleftrightarrow> compatible x []"
  "compatible a (a @ x) \<longleftrightarrow> compatible [] x"
  by (induction a) auto

definition common_fields :: "ext_state \<Rightarrow> rule_field list" where
  "common_fields ext = rule_fields (add_udp_fields ext (add_ip_fields ext (init_rule 0 STACK_IPV6_UDP 0)))"

lemma add_common [simp]:
  "rule_fields (add_udp_fields ext (add_ip_fields ext (init_rule i st n))) = common_fields ext"
  "rule_id (add_udp_fields ext (add_ip_fields ext (init_rule i st n))) = i"
  by (simp_all add: common_fields_def add_udp_fields_def add_ip_fields_def Let_def)

lemma outer_ids:
  "rule_id (ipv6_coap_oscore_request_rule ext code) = 56" "rule_id (ipv6_coap_oscore_response_rule ext code) = 57"
  "rule_id (ipv6_coap_oscore_observe_request_rule ext code) = 58"
  "rule_id (ipv6_coap_oscore_observe_response_rule ext code) = 59"
  "rule_id (ipv6_coap_oscore_observe_notif_rule ext code) = 60" "rule_id (ipv6_coap_edhoc_request_rule ext code) = 69"
  "rule_id (ipv6_coap_edhoc_response_rule ext code) = 70" "rule_id (ipv6_udp_rule ext) = 61"
  by (simp_all add: outer_rule_defs outer_constants)

definition coap_signature ::
    "bool list \<Rightarrow> byte \<Rightarrow> (fid \<times> nat \<times> bool list option) list \<Rightarrow> (fid \<times> nat \<times> bool list option) list" where
  "coap_signature ty c rest = [(FID_COAP_VERSION, 1, Some [False, True]), (FID_COAP_TYPE, 1, Some ty),
     (FID_COAP_TOKEN_LENGTH, 1, Some [False, False, True, False]), (FID_COAP_CODE, 1, Some (byte_seq [c])),
     (FID_COAP_MSG_ID, 1, None), (FID_COAP_TOKEN, 1, None)] @ rest"

lemma outer_bits:
  "bits_of (Bit_string [0x01] 6 2) = [False, True]" "bits_of (Bit_string [0] 6 2) = [False, False]"
  "bits_of (Bit_string [1] 6 2) = [False, True]" "bits_of (Bit_string [2] 6 2) = [True, False]"
  "bits_of (Bit_string [2] 4 4) = [False, False, True, False]"
  "bits_of (Bit_string [c] 0 8) = byte_seq [c]" "bits_of (Bit_string [c] 0 0) = []"
  by (code_simp, code_simp, code_simp, code_simp, code_simp, simp add: bits_whole, simp add: bits_of_def)

lemma edhoc_uri:
  "field_id rule_field_edhoc_uri = FID_COAP_URI_PATH" "position rule_field_edhoc_uri = 1"
  "field_mo rule_field_edhoc_uri = MO_EQUAL"
  "target_bits (target rule_field_edhoc_uri) = text_bits ''.well-known/edhoc''"
  using bits_text [of "''.well-known/edhoc''"]
  by (simp_all only: rule_field_edhoc_uri_def Let_def rule_field.sel target_bits.simps text_bits_def CHAR_BIT_def
      One_nat_def)

lemma outer_signatures:
  assumes "sig = map (\<lambda>f. (field_id f, position f, if field_mo f = MO_EQUAL then Some (target_bits (target f)) else None))"
  shows "signature (ipv6_coap_oscore_request_rule ext code) = sig (common_fields ext)
      @ coap_signature [False, False] (code COAP_POST) [(FID_COAP_OSCORE, 1, None)]"
    "signature (ipv6_coap_oscore_response_rule ext code) = sig (common_fields ext)
      @ coap_signature [True, False] (code COAP_CHANGED) [(FID_COAP_OSCORE, 1, Some [])]"
    "signature (ipv6_coap_oscore_observe_request_rule ext code) = sig (common_fields ext)
      @ coap_signature [False, False] (code COAP_FETCH) [(FID_COAP_OBSERVE, 1, Some []), (FID_COAP_OSCORE, 1, None)]"
    "signature (ipv6_coap_oscore_observe_response_rule ext code) = sig (common_fields ext)
      @ coap_signature [True, False] (code COAP_CONTENT) [(FID_COAP_OBSERVE, 1, Some []), (FID_COAP_OSCORE, 1, Some [])]"
    "signature (ipv6_coap_oscore_observe_notif_rule ext code) = sig (common_fields ext)
      @ coap_signature [False, True] (code COAP_CONTENT) [(FID_COAP_OBSERVE, 1, None), (FID_COAP_OSCORE, 1, None)]"
    "signature (ipv6_coap_edhoc_request_rule ext code) = sig (common_fields ext)
      @ coap_signature [False, False] (code COAP_POST) [(FID_COAP_URI_PATH, 1, Some (text_bits ''.well-known/edhoc''))]"
    "signature (ipv6_coap_edhoc_response_rule ext code) = sig (common_fields ext)
      @ coap_signature [True, False] (code COAP_CHANGED) []"
    "signature (ipv6_udp_rule ext) = sig (common_fields ext)"
  by (simp_all add: assms signature_def outer_rule_defs outer_field_defs(4-) Let_def outer_bits edhoc_uri coap_signature_def)

lemma coap_signature_compatible [simp]:
  "compatible (coap_signature ty c xs) (coap_signature ty' c' ys) \<longleftrightarrow> ty = ty' \<and> c = c' \<and> compatible xs ys"
  "\<not> compatible (coap_signature ty c xs) []" "\<not> compatible [] (coap_signature ty c xs)"
  by (auto simp: coap_signature_def)


section \<open>Concrete packets\<close>

text \<open>A UDP packet between the unset addresses.\<close>

definition example_outer_packet :: packet where
  "example_outer_packet = [(FID_IPV6_VERSION, 1, [False, True, True, False]), (FID_IPV6_TRAFFIC_CLASS, 1, replicate 8 False),
     (FID_IPV6_FLOW_LABEL, 1, replicate 20 True), (FID_IPV6_PAYLOAD_LENGTH, 1, byte_seq [0, 9]),
     (FID_IPV6_NEXT_HEADER, 1, byte_seq [17]), (FID_IPV6_HOP_LIMIT, 1, byte_seq [255]),
     (FID_IPV6_PREFIX_DEV, 1, replicate 64 False), (FID_IPV6_IID_DEV, 1, replicate 64 False),
     (FID_IPV6_PREFIX_APP, 1, replicate 64 False), (FID_IPV6_IID_APP, 1, replicate 64 False),
     (FID_UDP_PORT_DEV, 1, replicate 16 False), (FID_UDP_PORT_APP, 1, replicate 16 False),
     (FID_UDP_LENGTH, 1, byte_seq [0, 9]), (FID_UDP_CHECKSUM, 1, byte_seq [3, 4])]"

lemma outer_rules_rebuild_witness:
  "schc_decompress (\<lambda>i. if i = FID_UDP_CHECKSUM then byte_seq [3, 4] else byte_seq [0, 9])
      (get_orangelabs_outer_rules ext_init rfc7252_code) (61, replicate 14 Nothing) =
    Some (map (\<lambda>(i, k, v). (i, k, if i = FID_IPV6_FLOW_LABEL then take 20 (byte_seq [0x12, 0x34, 0x50])
      else if i = FID_IPV6_HOP_LIMIT then byte_seq [64] else v)) example_outer_packet)"
proof (rule outer_rules_rebuild)
  show "schc_compress (get_orangelabs_outer_rules ext_init rfc7252_code) example_outer_packet =
      Some (61, replicate 14 Nothing)"
    by code_simp
  show "\<forall>(i, k, v) \<in> set example_outer_packet. i \<in> {FID_IPV6_PAYLOAD_LENGTH, FID_UDP_LENGTH, FID_UDP_CHECKSUM} \<longrightarrow>
      (if i = FID_UDP_CHECKSUM then byte_seq [3, 4] else byte_seq [0, 9]) = v"
    by (simp add: example_outer_packet_def)
qed


end
