(* ===== verification/Outer_Peers.thy ===== *)
theory Outer_Peers
  imports Outer_Rules_Props
begin

text \<open>
  The outer rule tables of the two ends of a link. Each end writes its own address and port into the
  device fields of its table and the other's into the application fields, so the two tables are not
  the same context in the sense of RFC 8724: the device of the one is the application of the other.
\<close>

section \<open>Mirrored ends\<close>

text \<open>The static addresses of two workers are each other's.\<close>

definition mirrored :: "ext_state \<Rightarrow> ext_state \<Rightarrow> bool" where
  "mirrored d p \<longleftrightarrow> host_ipv6_addr d = remote_ipv6_addr p \<and> host_udp_port d = remote_udp_port p
     \<and> remote_ipv6_addr d = host_ipv6_addr p \<and> remote_udp_port d = host_udp_port p"

text \<open>The fields of one end and those the other end has in their place.\<close>

definition exchange :: "fid \<Rightarrow> fid" where
  "exchange i =
     (case i of
        FID_IPV6_PREFIX_DEV \<Rightarrow> FID_IPV6_PREFIX_APP | FID_IPV6_PREFIX_APP \<Rightarrow> FID_IPV6_PREFIX_DEV
      | FID_IPV6_IID_DEV \<Rightarrow> FID_IPV6_IID_APP | FID_IPV6_IID_APP \<Rightarrow> FID_IPV6_IID_DEV
      | FID_UDP_PORT_DEV \<Rightarrow> FID_UDP_PORT_APP | FID_UDP_PORT_APP \<Rightarrow> FID_UDP_PORT_DEV
      | _ \<Rightarrow> i)"

definition value_of :: "fid \<Rightarrow> packet \<Rightarrow> bool list" where
  "value_of i p = (case map_of (map (\<lambda>(i, k, v). (i, v)) p) i of Some v \<Rightarrow> v | None \<Rightarrow> [])"

text \<open>The target values of the address and port fields of a table.\<close>

definition face :: "ext_state \<Rightarrow> fid \<Rightarrow> bool list option" where
  "face ext i =
     (case i of
        FID_IPV6_PREFIX_DEV \<Rightarrow> Some (bits_of (Bit_string (host_ipv6_addr ext) 0 64))
      | FID_IPV6_IID_DEV \<Rightarrow> Some (bits_of (Bit_string (drop 8 (host_ipv6_addr ext)) 0 64))
      | FID_IPV6_PREFIX_APP \<Rightarrow> Some (bits_of (Bit_string (remote_ipv6_addr ext) 0 64))
      | FID_IPV6_IID_APP \<Rightarrow> Some (bits_of (Bit_string (drop 8 (remote_ipv6_addr ext)) 0 64))
      | FID_UDP_PORT_DEV \<Rightarrow> Some (bits_of (Bit_string (host_udp_port ext) 0 16))
      | FID_UDP_PORT_APP \<Rightarrow> Some (bits_of (Bit_string (remote_udp_port ext) 0 16))
      | _ \<Rightarrow> None)"

section \<open>The tables\<close>

definition outer_rest :: "(coap_code \<Rightarrow> byte) \<Rightarrow> (nat \<times> rule_field list) list" where
  "outer_rest code =
     [(56, [rule_field_14, rule_field_15_con, rule_field_16, rule_field_17_post code, rule_field_18, rule_field_19, rule_field_21_request]),
      (57, [rule_field_14, rule_field_15_ack, rule_field_16, rule_field_17_changed code, rule_field_18, rule_field_19, rule_field_21_response]),
      (58, [rule_field_14, rule_field_15_con, rule_field_16, rule_field_17_fetch code, rule_field_18, rule_field_19, rule_field_20_observe, rule_field_21_request]),
      (59, [rule_field_14, rule_field_15_ack, rule_field_16, rule_field_17_content code, rule_field_18, rule_field_19, rule_field_20_observe, rule_field_21_response]),
      (60, [rule_field_14, rule_field_15_non_con, rule_field_16, rule_field_17_content code, rule_field_18, rule_field_19, rule_field_20_observe_notif, rule_field_21_observe_notif]),
      (69, [rule_field_14, rule_field_15_con, rule_field_16, rule_field_17_post code, rule_field_18, rule_field_19, rule_field_edhoc_uri]),
      (70, [rule_field_14, rule_field_15_ack, rule_field_16, rule_field_17_changed code, rule_field_18, rule_field_19]),
      (61, [])]"

lemma outer_rules_shape:
  "map (\<lambda>r. (rule_id r, rule_fields r)) (rule_array (get_orangelabs_outer_rules ext code)) =
    map (\<lambda>(i, fs). (i, common_fields ext @ fs)) (outer_rest code)"
  unfolding outer_array by (simp add: outer_rest_def outer_ids outer_rule_defs outer_constants)

lemma outer_rest_plain: "\<forall>(i, fs) \<in> set (outer_rest code). list_all2 (redirected (face ext)) fs fs"
  by (simp add: outer_rest_def redirected_def outer_field_defs Let_def face_def)

lemma common_redirected: "list_all2 (redirected (face ext')) (common_fields ext) (common_fields ext')"
  by (simp add: common_fields_def outer_field_defs(1,2) Let_def redirected_def face_def)

lemma rule_counterpart:
  assumes "r \<in> set (rule_array (get_orangelabs_outer_rules ext code))"
  obtains r' where "r' \<in> set (rule_array (get_orangelabs_outer_rules ext' code))" "rule_id r' = rule_id r"
    "list_all2 (redirected (face ext')) (rule_fields r) (rule_fields r')"
proof -
  have "(rule_id r, rule_fields r) \<in> set (map (\<lambda>(i, fs). (i, common_fields ext @ fs)) (outer_rest code))"
    using assms unfolding outer_rules_shape [of ext code, symmetric] by force
  then obtain fs where fs: "(rule_id r, fs) \<in> set (outer_rest code)" "rule_fields r = common_fields ext @ fs"
    by auto
  then have "(rule_id r, common_fields ext' @ fs) \<in> set (map (\<lambda>(i, fs). (i, common_fields ext' @ fs)) (outer_rest code))"
    by force
  then obtain r' where r': "r' \<in> set (rule_array (get_orangelabs_outer_rules ext' code))" "rule_id r' = rule_id r"
    "rule_fields r' = common_fields ext' @ fs"
    unfolding outer_rules_shape [of ext' code, symmetric] by auto
  moreover have "list_all2 (redirected (face ext')) (rule_fields r) (rule_fields r')"
    unfolding fs(2) r'(3) using bspec [OF outer_rest_plain fs(1), of ext'] common_redirected [of ext' ext]
    by (auto intro: list_all2_appendI)
  ultimately show thesis
    using that by blast
qed

text \<open>What one end compresses the other decompresses, whatever addresses each of them has: to the packet
  with the other's addresses.\<close>

lemma outer_redirect:
  assumes "schc_compress (get_orangelabs_outer_rules ext code) p = Some c"
    and "\<forall>(i, k, v) \<in> set p. i \<in> computed_ids \<longrightarrow> computed i = v"
  shows "schc_decompress computed (get_orangelabs_outer_rules ext' code) c = Some (received outer_fixed (received (face ext') p))"
proof -
  obtain r where r: "r \<in> set (rule_array (get_orangelabs_outer_rules ext code))" "matches_rule r p"
    "c = (rule_id r, map2 (\<lambda>f (i, k, v). compress_field f v) (rule_fields r) p)"
    using assms(1) by (rule compress_matches)
  obtain r' where r': "r' \<in> set (rule_array (get_orangelabs_outer_rules ext' code))" "rule_id r' = rule_id r"
    "list_all2 (redirected (face ext')) (rule_fields r) (rule_fields r')"
    by (rule rule_counterpart [OF r(1), of ext'])
  note match = redirected_match [OF r(2) [unfolded matches_rule_def] r'(3)]
  have "\<forall>(i, k, v) \<in> set (received (face ext') p). i \<in> computed_ids \<longrightarrow> computed i = v"
    using assms(2) by (fastforce simp: received_def computed_ids_def face_def)
  then show ?thesis
    using outer_table.restored_by [OF r'(1), of "received (face ext') p" computed] match r'(2)
    by (simp add: r(3) matches_rule_def)
qed

text \<open>Every packet an outer rule matches carries the addresses of the table it was matched with.\<close>

lemma outer_faces:
  assumes "schc_compress (get_orangelabs_outer_rules ext code) p = Some c" and "face ext i = Some w"
  shows "value_of i p = w"
proof -
  obtain r where r: "r \<in> set (rule_array (get_orangelabs_outer_rules ext code))" "matches_rule r p"
    using assms(1) by (rule compress_matches)
  have "(rule_id r, rule_fields r) \<in> set (map (\<lambda>(i, fs). (i, common_fields ext @ fs)) (outer_rest code))"
    using r(1) unfolding outer_rules_shape [of ext code, symmetric] by force
  then obtain fs where "rule_fields r = common_fields ext @ fs"
    by auto
  then have "list_all2 (\<lambda>f (i, k, v). field_id f = i \<and> position f = k \<and> matches_field f v) (common_fields ext @ fs) p"
    using r(2) by (simp add: matches_rule_def)
  then show ?thesis
    using assms(2)
    by (auto simp: list_all2_append1 common_fields_def outer_field_defs(1,2) Let_def list_all2_Cons1 matches_field_def
        value_of_def face_def split: fid.splits)
qed

lemma face_mirrored:
  assumes "mirrored d p"
  shows "face p i = face d (exchange i)"
  using assms by (cases i) (simp_all add: face_def exchange_def mirrored_def)

lemma face_exchange: "face ext i = None \<longleftrightarrow> exchange i = i"
  by (cases i) (simp_all add: face_def exchange_def)

text \<open>C32: The table of one end of a link decompresses what the table of the other end compressed,
  although they are not the same table: the configured addresses and ports of the two workers are
  each other's, and the receiver rebuilds the packet with the prefix, identifier and port of the
  device in the place of those of the application and the other way round, with flow label 0x12345 and hop limit 64,
  and everything else as it was sent; lengths and checksum are those the receiver recomputes.\<close>

theorem peer_tables_exchange:
  assumes "mirrored d p" and "schc_compress (get_orangelabs_outer_rules d code) packet = Some c"
    and "\<forall>(i, k, v) \<in> set packet. i \<in> {FID_IPV6_PAYLOAD_LENGTH, FID_UDP_LENGTH, FID_UDP_CHECKSUM} \<longrightarrow> computed i = v"
  shows "schc_decompress computed (get_orangelabs_outer_rules p code) c = Some (map (\<lambda>(i, k, v). (i, k,
    if i = FID_IPV6_FLOW_LABEL then take 20 (byte_seq [0x12, 0x34, 0x50])
    else if i = FID_IPV6_HOP_LIMIT then byte_seq [64]
    else if exchange i \<noteq> i then value_of (exchange i) packet else v)) packet)"
proof -
  have "(case face p i of None \<Rightarrow> v | Some w \<Rightarrow> w) = (if exchange i \<noteq> i then value_of (exchange i) packet else v)" for i v
    using face_mirrored [OF assms(1), of i] outer_faces [OF assms(2), of "exchange i"] face_exchange [of p i]
    by (cases "face p i") auto
  then show ?thesis
    using outer_redirect [OF assms(2), of computed p] assms(3)
    by (auto simp: computed_ids_def received_def outer_fixed_def exchange_def)
qed

definition example_mirror :: "ext_state \<times> ext_state" where
  "example_mirror =
     (ext_init\<lparr>host_ipv6_addr := replicate 16 7, remote_ipv6_addr := replicate 16 9, host_udp_port := [1, 2], remote_udp_port := [3, 4]\<rparr>,
      ext_init\<lparr>host_ipv6_addr := replicate 16 9, remote_ipv6_addr := replicate 16 7, host_udp_port := [3, 4], remote_udp_port := [1, 2]\<rparr>)"

definition example_mirror_packet :: packet where
  "example_mirror_packet = [(FID_IPV6_VERSION, 1, [False, True, True, False]), (FID_IPV6_TRAFFIC_CLASS, 1, replicate 8 False),
     (FID_IPV6_FLOW_LABEL, 1, replicate 20 True), (FID_IPV6_PAYLOAD_LENGTH, 1, byte_seq [0, 9]),
     (FID_IPV6_NEXT_HEADER, 1, byte_seq [17]), (FID_IPV6_HOP_LIMIT, 1, byte_seq [255]),
     (FID_IPV6_PREFIX_DEV, 1, byte_seq (replicate 8 7)), (FID_IPV6_IID_DEV, 1, byte_seq (replicate 8 7)),
     (FID_IPV6_PREFIX_APP, 1, byte_seq (replicate 8 9)), (FID_IPV6_IID_APP, 1, byte_seq (replicate 8 9)),
     (FID_UDP_PORT_DEV, 1, byte_seq [1, 2]), (FID_UDP_PORT_APP, 1, byte_seq [3, 4]),
     (FID_UDP_LENGTH, 1, byte_seq [0, 9]), (FID_UDP_CHECKSUM, 1, byte_seq [3, 4])]"

theorem peer_tables_exchange_witness:
  "schc_decompress (\<lambda>i. if i = FID_UDP_CHECKSUM then byte_seq [3, 4] else byte_seq [0, 9])
      (get_orangelabs_outer_rules (snd example_mirror) rfc7252_code) (61, replicate 14 Nothing) =
    Some (map (\<lambda>(i, k, v). (i, k,
      if i = FID_IPV6_FLOW_LABEL then take 20 (byte_seq [0x12, 0x34, 0x50])
      else if i = FID_IPV6_HOP_LIMIT then byte_seq [64]
      else if exchange i \<noteq> i then value_of (exchange i) example_mirror_packet else v)) example_mirror_packet)"
proof (rule peer_tables_exchange)
  show "mirrored (fst example_mirror) (snd example_mirror)"
    by (simp add: mirrored_def example_mirror_def)
  show "schc_compress (get_orangelabs_outer_rules (fst example_mirror) rfc7252_code) example_mirror_packet = Some (61, replicate 14 Nothing)"
    by code_simp
  show "\<forall>(i, k, v) \<in> set example_mirror_packet. i \<in> {FID_IPV6_PAYLOAD_LENGTH, FID_UDP_LENGTH, FID_UDP_CHECKSUM} \<longrightarrow>
      (if i = FID_UDP_CHECKSUM then byte_seq [3, 4] else byte_seq [0, 9]) = v"
    by (simp add: example_mirror_packet_def)
qed

end
