(* ===== verification/Template_Rules.thy ===== *)
theory Template_Rules
  imports Rules
begin

text \<open>
  The LPWAN scenario template, \<open>templates/lpwan_scenario_coap_template.c\<close>: its rule, whose address and
  port targets point into the file's four parameter arrays, its parameters, and the
  accessors. The template library (parameter storage) is a parameter where it is called.
\<close>

section \<open>Constants and parameters\<close>

definition TPL_NB_RULES :: nat where "TPL_NB_RULES = 1"
definition TPL_NO_COMP_RULE_ID :: nat where "TPL_NO_COMP_RULE_ID = 150"
definition IPV6_UDP_RULE_ID :: nat where "IPV6_UDP_RULE_ID = 28"
definition TEMPLATE_ID :: nat where "TEMPLATE_ID = 25"
definition NB_PARAMS :: nat where "NB_PARAMS = 6"

lemmas template_constants =
  TPL_NB_RULES_def TPL_NO_COMP_RULE_ID_def IPV6_UDP_RULE_ID_def TEMPLATE_ID_def NB_PARAMS_def

record tpl_memory =
  dev_ip :: memory
  app_ip :: memory
  dev_port :: memory
  app_port :: memory

definition tpl_initial :: tpl_memory where
  "tpl_initial = \<lparr>dev_ip = replicate 16 0, app_ip = replicate 16 0, dev_port = replicate 2 0, app_port = replicate 2 0\<rparr>"

section \<open>The rule\<close>

definition tpl_ip_fields :: "tpl_memory \<Rightarrow> rule_field list" where
  "tpl_ip_fields mem =
   (let ipv6_version = [0x60];
        ipv6_version_tv = TV_BIT_STRING (Bit_string ipv6_version 0 4);
        ipv6_traffic_class = [0];
        ipv6_traffic_class_tv = TV_BIT_STRING (Bit_string ipv6_traffic_class 0 8);
        ipv6_flow_label = [0x00, 0x00, 0x00];
        ipv6_flow_label_tv = TV_BIT_STRING (Bit_string ipv6_flow_label 0 20);
        ipv6_next_header_udp = [17];
        ipv6_next_header_udp_tv = TV_BIT_STRING (Bit_string ipv6_next_header_udp 0 8);
        ipv6_hop_limit = [255];
        ipv6_hop_limit_tv = TV_BIT_STRING (Bit_string ipv6_hop_limit 0 8);
        ipv6_prefix_dev_tv = TV_BIT_STRING (Bit_string (dev_ip mem) 0 64);
        ipv6_iid_dev_tv = TV_BIT_STRING (Bit_string (drop 8 (dev_ip mem)) 0 64);
        ipv6_prefix_app_tv = TV_BIT_STRING (Bit_string (app_ip mem) 0 64);
        ipv6_iid_app_tv = TV_BIT_STRING (Bit_string (drop 8 (app_ip mem)) 0 64);
        rule_field_00 = Rule_field FID_IPV6_VERSION 1 DIR_BI (Some ipv6_version_tv) 4 MO_EQUAL 0 CDA_NOT_SENT;
        rule_field_01 = Rule_field FID_IPV6_TRAFFIC_CLASS 1 DIR_BI (Some ipv6_traffic_class_tv) 8 MO_EQUAL 0 CDA_NOT_SENT;
        rule_field_02 = Rule_field FID_IPV6_FLOW_LABEL 1 DIR_BI (Some ipv6_flow_label_tv) 20 MO_IGNORE 0 CDA_NOT_SENT;
        rule_field_03 = Rule_field FID_IPV6_PAYLOAD_LENGTH 1 DIR_BI None 16 MO_IGNORE 0 CDA_COMPUTE_LENGTH;
        rule_field_04 = Rule_field FID_IPV6_NEXT_HEADER 1 DIR_BI (Some ipv6_next_header_udp_tv) 8 MO_EQUAL 0 CDA_NOT_SENT;
        rule_field_05 = Rule_field FID_IPV6_HOP_LIMIT 1 DIR_BI (Some ipv6_hop_limit_tv) 8 MO_IGNORE 0 CDA_NOT_SENT;
        rule_field_06 = Rule_field FID_IPV6_PREFIX_DEV 1 DIR_BI (Some ipv6_prefix_dev_tv) 64 MO_EQUAL 0 CDA_NOT_SENT;
        rule_field_07 = Rule_field FID_IPV6_IID_DEV 1 DIR_BI (Some ipv6_iid_dev_tv) 64 MO_EQUAL 0 CDA_NOT_SENT;
        rule_field_08 = Rule_field FID_IPV6_PREFIX_APP 1 DIR_BI (Some ipv6_prefix_app_tv) 64 MO_EQUAL 0 CDA_NOT_SENT;
        rule_field_09 = Rule_field FID_IPV6_IID_APP 1 DIR_BI (Some ipv6_iid_app_tv) 64 MO_EQUAL 0 CDA_NOT_SENT
    in [rule_field_00, rule_field_01, rule_field_02, rule_field_03, rule_field_04, rule_field_05, rule_field_06, rule_field_07, rule_field_08, rule_field_09])"

definition tpl_udp_fields :: "tpl_memory \<Rightarrow> rule_field list" where
  "tpl_udp_fields mem =
   (let udp_port_dev_tv = TV_BIT_STRING (Bit_string (dev_port mem) 0 16);
        udp_port_app_tv = TV_BIT_STRING (Bit_string (app_port mem) 0 16);
        rule_field_10 = Rule_field FID_UDP_PORT_DEV 1 DIR_BI (Some udp_port_dev_tv) 16 MO_EQUAL 0 CDA_NOT_SENT;
        rule_field_11 = Rule_field FID_UDP_PORT_APP 1 DIR_BI (Some udp_port_app_tv) 16 MO_EQUAL 0 CDA_NOT_SENT;
        rule_field_12 = Rule_field FID_UDP_LENGTH 1 DIR_BI None 16 MO_IGNORE 0 CDA_COMPUTE_LENGTH;
        rule_field_13 = Rule_field FID_UDP_CHECKSUM 1 DIR_BI None 16 MO_IGNORE 0 CDA_COMPUTE_CHECKSUM
    in [rule_field_10, rule_field_11, rule_field_12, rule_field_13])"

definition tpl_coap_fields :: "(coap_code \<Rightarrow> byte) \<Rightarrow> rule_field list" where
  "tpl_coap_fields code =
   (let coap_version = [0x01];
        coap_version_tv = TV_BIT_STRING (Bit_string coap_version 6 2);
        rule_field_14 = Rule_field FID_COAP_VERSION 1 DIR_BI (Some coap_version_tv) 2 MO_EQUAL 0 CDA_NOT_SENT;
        con_coap_type = [0];
        con_coap_type_tv = TV_BIT_STRING (Bit_string con_coap_type 6 2);
        rule_field_15_con = Rule_field FID_COAP_TYPE 1 DIR_BI (Some con_coap_type_tv) 2 MO_EQUAL 0 CDA_NOT_SENT;
        coap_tkl = [0];
        coap_tkl_tv = TV_BIT_STRING (Bit_string coap_tkl 4 4);
        rule_field_16 = Rule_field FID_COAP_TOKEN_LENGTH 1 DIR_BI (Some coap_tkl_tv) 4 MO_EQUAL 0 CDA_NOT_SENT;
        post_coap_code = [code COAP_POST];
        post_coap_code_tv = TV_BIT_STRING (Bit_string post_coap_code 0 8);
        rule_field_17_post = Rule_field FID_COAP_CODE 1 DIR_BI (Some post_coap_code_tv) 8 MO_EQUAL 0 CDA_NOT_SENT;
        rule_field_18 = Rule_field FID_COAP_MSG_ID 1 DIR_BI None 16 MO_IGNORE 0 CDA_VALUE_SENT;
        token_placeholder = [0];
        coap_tk_tv = TV_BIT_STRING (Bit_string token_placeholder 0 0);
        rule_field_19 = Rule_field FID_COAP_TOKEN 1 DIR_BI (Some coap_tk_tv) 0 MO_EQUAL 0 CDA_NOT_SENT;
        uri_path_1 = c_array ''notifications'';
        uri_path_1_bit_len = (length uri_path_1 - 1) * 8;
        uri_path_1_tv = TV_BIT_STRING (Bit_string uri_path_1 0 uri_path_1_bit_len);
        rule_field_20 = Rule_field FID_COAP_URI_PATH 1 DIR_BI (Some uri_path_1_tv) uri_path_1_bit_len MO_EQUAL 0 CDA_NOT_SENT;
        uri_path_2 = c_array ''temp'';
        uri_path_2_bit_len = (length uri_path_2 - 1) * 8;
        uri_path_2_tv = TV_BIT_STRING (Bit_string uri_path_2 0 uri_path_2_bit_len);
        rule_field_21 = Rule_field FID_COAP_URI_PATH 2 DIR_BI (Some uri_path_2_tv) uri_path_2_bit_len MO_EQUAL 0 CDA_NOT_SENT;
        content_format = [0x3c];
        content_format_tv = TV_BIT_STRING (Bit_string content_format 0 8);
        rule_field_22 = Rule_field FID_COAP_CONTENT_FORMAT 1 DIR_BI (Some content_format_tv) 8 MO_EQUAL 0 CDA_NOT_SENT
    in [rule_field_14, rule_field_15_con, rule_field_16, rule_field_17_post, rule_field_18, rule_field_19, rule_field_20, rule_field_21, rule_field_22])"

definition tpl_get_template_rules :: "tpl_memory \<Rightarrow> (coap_code \<Rightarrow> byte) \<Rightarrow> rules" where
  "tpl_get_template_rules mem code =
     fold add_rule
       [fold add_rule_field (tpl_ip_fields mem @ tpl_udp_fields mem @ tpl_coap_fields code)
         (init_rule IPV6_UDP_RULE_ID STACK_IPV6_UDP_COAP 23)]
       (init_rules TPL_NB_RULES TPL_NO_COMP_RULE_ID)"
section \<open>Parameters and accessors\<close>

text \<open>A parameter is a bit string over one of the arrays (array, byte offset, bit length) and its
  size in bytes, as \<open>init_param\<close> gets them. The template library keeps the parameters; its
  operations are parameters here.\<close>

datatype tpl_array = Dev_ip | App_ip | Dev_port | App_port

record template_param =
  param_array :: tpl_array
  param_offset :: nat
  param_bits :: nat
  param_size :: nat

definition tpl_params :: "template_param list" where
  "tpl_params =
     [\<lparr>param_array = Dev_ip, param_offset = 0, param_bits = 8 * 8, param_size = 8\<rparr>,
      \<lparr>param_array = Dev_ip, param_offset = 8, param_bits = 8 * 8, param_size = 8\<rparr>,
      \<lparr>param_array = App_ip, param_offset = 0, param_bits = 8 * 8, param_size = 8\<rparr>,
      \<lparr>param_array = App_ip, param_offset = 8, param_bits = 8 * 8, param_size = 8\<rparr>,
      \<lparr>param_array = Dev_port, param_offset = 0, param_bits = 2 * 8, param_size = 2\<rparr>,
      \<lparr>param_array = App_port, param_offset = 0, param_bits = 2 * 8, param_size = 2\<rparr>]"

definition tpl_init_template ::
    "(nat \<Rightarrow> 't) \<Rightarrow> ('t \<Rightarrow> template_param \<Rightarrow> 't) \<Rightarrow> 't" where
  "tpl_init_template init_template add_param =
     fold (\<lambda>i t. add_param t (tpl_params ! i)) [0 ..< NB_PARAMS] (init_template TEMPLATE_ID)"

datatype tpl_status = TPL_SUCCESS | TPL_OPERATION_NOT_SUPPORTED | Tpl_other nat

definition tpl_set_index_param_value ::
    "('t \<Rightarrow> nat \<Rightarrow> memory \<Rightarrow> u16 \<Rightarrow> tpl_status \<times> 't) \<Rightarrow> nat \<Rightarrow> memory \<Rightarrow> u16 \<Rightarrow> 't \<Rightarrow> tpl_status \<times> 't" where
  "tpl_set_index_param_value tpl_set_param_value index bytes len t = tpl_set_param_value t index bytes len"

definition tpl_get_nb_template_params :: nat where
  "tpl_get_nb_template_params = NB_PARAMS"

definition tpl_get_ip_dev_address :: "tpl_memory \<Rightarrow> memory \<Rightarrow> (tpl_status \<times> memory) ub" where
  "tpl_get_ip_dev_address mem out =
     do { bs \<leftarrow> load (dev_ip mem) 0 16; out \<leftarrow> store out 0 bs; Some (TPL_SUCCESS, out) }"

definition tpl_get_udp_dev_port :: "tpl_memory \<Rightarrow> memory \<Rightarrow> (tpl_status \<times> memory) ub" where
  "tpl_get_udp_dev_port mem out =
     do { bs \<leftarrow> load (dev_port mem) 0 2; out \<leftarrow> store out 0 bs; Some (TPL_SUCCESS, out) }"

definition tpl_set_template_rules :: "memory \<Rightarrow> u16 \<Rightarrow> memory \<Rightarrow> u16 \<Rightarrow> tpl_status" where
  "tpl_set_template_rules compact_rules compact_rules_len memory_ptr memory_len = TPL_OPERATION_NOT_SUPPORTED"

text \<open>The rest of the template interface: what the template does not support, and calls passed on to the
  library, for the template \<open>t\<close> it keeps.\<close>

definition tpl_get_payload_rules :: "rules option" where
  "tpl_get_payload_rules = None"

definition tpl_get_template_id :: "('t \<Rightarrow> byte) \<Rightarrow> 't \<Rightarrow> byte" where
  "tpl_get_template_id tpl_id t = tpl_id t"

definition tpl_set_template_cert_rules :: "memory \<Rightarrow> u16 \<Rightarrow> memory \<Rightarrow> u16 \<Rightarrow> tpl_status" where
  "tpl_set_template_cert_rules compact_rules compact_rules_len memory_ptr memory_len = TPL_OPERATION_NOT_SUPPORTED"

definition tpl_set_payload_pattern_rules :: "memory \<Rightarrow> u16 \<Rightarrow> memory \<Rightarrow> u16 \<Rightarrow> tpl_status" where
  "tpl_set_payload_pattern_rules compact_rules compact_rules_len memory_ptr memory_len = TPL_OPERATION_NOT_SUPPORTED"

definition tpl_is_configured :: "('t \<Rightarrow> bool) \<Rightarrow> 't \<Rightarrow> bool" where
  "tpl_is_configured tpl_is_template_configured t = tpl_is_template_configured t"

definition tpl_is_provisioned :: bool where
  "tpl_is_provisioned = True"

definition tpl_get_index_param_value ::
    "('t \<Rightarrow> nat \<Rightarrow> tpl_status \<times> memory \<times> u16) \<Rightarrow> nat \<Rightarrow> 't \<Rightarrow> tpl_status \<times> memory \<times> u16" where
  "tpl_get_index_param_value tpl_get_param_value index t = tpl_get_param_value t index"

datatype tpl_ip_version = TPL_NET_IPV6 | Tpl_other_version nat

definition tpl_get_ip_version :: tpl_ip_version where
  "tpl_get_ip_version = TPL_NET_IPV6"

definition tpl_ruleparser_parse_frag_profile :: "memory \<Rightarrow> u16 \<Rightarrow> tpl_status" where
  "tpl_ruleparser_parse_frag_profile bytes n = TPL_OPERATION_NOT_SUPPORTED"

definition tpl_ruleparser_parse_qos :: "memory \<Rightarrow> u16 \<Rightarrow> tpl_status" where
  "tpl_ruleparser_parse_qos bytes n = TPL_OPERATION_NOT_SUPPORTED"

definition tpl_ruleparser_parse_template :: "memory \<Rightarrow> u16 \<Rightarrow> byte \<Rightarrow> tpl_status" where
  "tpl_ruleparser_parse_template bytes n sid_size = TPL_OPERATION_NOT_SUPPORTED"

section \<open>Properties\<close>

text \<open>The bytes a parameter covers; together the parameters tile the four arrays.\<close>

definition param_bytes :: "template_param \<Rightarrow> (tpl_array \<times> nat) list" where
  "param_bytes p = map (\<lambda>i. (param_array p, param_offset p + i)) [0 ..< param_size p]"

lemma params_tile_arrays:
  "concat (map param_bytes tpl_params) = map (Pair Dev_ip) [0 ..< 16] @ map (Pair App_ip) [0 ..< 16]
     @ map (Pair Dev_port) [0 ..< 2] @ map (Pair App_port) [0 ..< 2]"
  by code_simp

definition tpl_fixed :: "fid \<Rightarrow> bool list option" where
  "tpl_fixed i = (if i = FID_IPV6_FLOW_LABEL then Some (replicate 20 False)
     else if i = FID_IPV6_HOP_LIMIT then Some (byte_seq [255]) else None)"

lemma tpl_fixed_bits:
  "target_bits (Some (TV_BIT_STRING (Bit_string [0, 0, 0] 0 20))) = replicate 20 False"
  "target_bits (Some (TV_BIT_STRING (Bit_string [255] 0 8))) = byte_seq [255]"
  by (code_simp, simp add: bits_whole)

interpretation template_table: rule_table "tpl_get_template_rules mem code" tpl_fixed for mem code
proof
  show "rules_fit (tpl_get_template_rules mem code)"
    by (simp add: rules_fit_def tpl_get_template_rules_def tpl_ip_fields_def tpl_udp_fields_def tpl_coap_fields_def
        template_constants Let_def)
  show "list_all (\<lambda>r. list_all (field_ok tpl_fixed) (rule_fields r)) (rule_array (tpl_get_template_rules mem code))"
    by (simp add: tpl_get_template_rules_def tpl_ip_fields_def tpl_udp_fields_def tpl_coap_fields_def Let_def
        field_ok_def tpl_fixed_def computes_def computed_ids_def tpl_fixed_bits del: target_bits.simps)
qed

text \<open>C33: The template's rule rebuilds the notification packets it matches as they were sent, for
  every value of the template's parameters, except that the flow label becomes 0 and
  the hop limit 255.\<close>

theorem template_rule_rebuild:
  assumes "schc_compress (tpl_get_template_rules mem code) p = Some c"
    and "\<forall>(i, k, v) \<in> set p. i \<in> {FID_IPV6_PAYLOAD_LENGTH, FID_UDP_LENGTH, FID_UDP_CHECKSUM} \<longrightarrow> computed i = v"
  shows "fst c = IPV6_UDP_RULE_ID
    \<and> schc_decompress computed (tpl_get_template_rules mem code) c = Some (map (\<lambda>(i, k, v). (i, k,
      if i = FID_IPV6_FLOW_LABEL then replicate 20 False
      else if i = FID_IPV6_HOP_LIMIT then byte_seq [255] else v)) p)"
proof -
  have "received tpl_fixed p = map (\<lambda>(i, k, v). (i, k,
      if i = FID_IPV6_FLOW_LABEL then replicate 20 False
      else if i = FID_IPV6_HOP_LIMIT then byte_seq [255] else v)) p"
    by (auto simp: received_def tpl_fixed_def)
  moreover obtain r where "r \<in> set (rule_array (tpl_get_template_rules mem code))" "fst c = rule_id r"
    using compress_matches [OF assms(1)] by (metis fst_conv)
  ultimately show ?thesis
    using template_table.restored [OF assms(1), of computed] assms(2)
    by (simp add: computed_ids_def) (simp add: tpl_get_template_rules_def)
qed

definition example_tpl_packet :: packet where
  "example_tpl_packet = [(FID_IPV6_VERSION, 1, [False, True, True, False]), (FID_IPV6_TRAFFIC_CLASS, 1, replicate 8 False),
     (FID_IPV6_FLOW_LABEL, 1, replicate 20 True), (FID_IPV6_PAYLOAD_LENGTH, 1, byte_seq [0, 9]),
     (FID_IPV6_NEXT_HEADER, 1, byte_seq [17]), (FID_IPV6_HOP_LIMIT, 1, byte_seq [64]),
     (FID_IPV6_PREFIX_DEV, 1, replicate 64 False), (FID_IPV6_IID_DEV, 1, replicate 64 False),
     (FID_IPV6_PREFIX_APP, 1, replicate 64 False), (FID_IPV6_IID_APP, 1, replicate 64 False),
     (FID_UDP_PORT_DEV, 1, replicate 16 False), (FID_UDP_PORT_APP, 1, replicate 16 False),
     (FID_UDP_LENGTH, 1, byte_seq [0, 9]), (FID_UDP_CHECKSUM, 1, byte_seq [3, 4]),
     (FID_COAP_VERSION, 1, [False, True]), (FID_COAP_TYPE, 1, [False, False]), (FID_COAP_TOKEN_LENGTH, 1, replicate 4 False),
     (FID_COAP_CODE, 1, byte_seq [2]), (FID_COAP_MSG_ID, 1, byte_seq [7, 8]), (FID_COAP_TOKEN, 1, []),
     (FID_COAP_URI_PATH, 1, text_bits ''notifications''), (FID_COAP_URI_PATH, 2, text_bits ''temp''),
     (FID_COAP_CONTENT_FORMAT, 1, byte_seq [0x3c])]"

theorem template_rule_rebuild_witness:
  "fst (28 :: nat, replicate 18 Nothing @ [Bits (byte_seq [7, 8])] @ replicate 4 Nothing) = IPV6_UDP_RULE_ID
    \<and> schc_decompress (\<lambda>i. if i = FID_UDP_CHECKSUM then byte_seq [3, 4] else byte_seq [0, 9])
      (tpl_get_template_rules tpl_initial rfc7252_code)
      (28, replicate 18 Nothing @ [Bits (byte_seq [7, 8])] @ replicate 4 Nothing) =
    Some (map (\<lambda>(i, k, v). (i, k, if i = FID_IPV6_FLOW_LABEL then replicate 20 False
      else if i = FID_IPV6_HOP_LIMIT then byte_seq [255] else v)) example_tpl_packet)"
proof (rule template_rule_rebuild)
  show "schc_compress (tpl_get_template_rules tpl_initial rfc7252_code) example_tpl_packet =
      Some (28, replicate 18 Nothing @ [Bits (byte_seq [7, 8])] @ replicate 4 Nothing)"
    by code_simp
  show "\<forall>(i, k, v) \<in> set example_tpl_packet. i \<in> {FID_IPV6_PAYLOAD_LENGTH, FID_UDP_LENGTH, FID_UDP_CHECKSUM} \<longrightarrow>
      (if i = FID_UDP_CHECKSUM then byte_seq [3, 4] else byte_seq [0, 9]) = v"
    by (simp add: example_tpl_packet_def)
qed

end
