(* ===== verification/L2_Ahoi.thy ===== *)
theory L2_Ahoi
  imports Platform_Fds
begin

text \<open>
  The L2 adapter for the ahoi acoustic modem, \<open>l2/ahoi_posix_host/src/fullsdkl2a.c\<close>: the link
  below the SCHC stack. It keeps a set of pending events and reports them to the stack, through
  the callbacks the stack registered, when the stack calls \<open>l2a_process\<close>.

  The state holds the module's static variables, the watched descriptors, the state \<open>upper\<close> of the
  stack above, and what the module did: the callbacks it made, the frames it gave to the modem
  and the descriptors it disconnected.

  Parameters: the modem library (\<open>ahoi_connect\<close>, the results of the attempts to write and to read)
  and \<open>sdk\<close>, what the stack does in a callback. The stack may call the adapter's operations
  there, so \<open>sdk\<close> changes the whole state.
\<close>

section \<open>Data\<close>

datatype l2a_status =
  L2A_SUCCESS | L2A_CONNECT_ERR | L2A_L2_ERROR | L2A_BUFFER_ERR

datatype l2a_call =
    Processing_required
  | Connectivity_available
  | Transmission_result l2a_status u16
  | Data_received u16 l2a_status

record ahoi_init =
  open_addr :: string
  init_id :: byte
  recv_buf_len :: nat

text \<open>The flags are the library's constant \<open>AHOI_NO_FLAGS\<close>; the payload size is kept at the width
  the adapter has it in, before the library stores it.\<close>

datatype ahoi_flags = AHOI_NO_FLAGS | Other_flags byte

record ahoi_header =
  hdr_dst :: byte
  hdr_type :: byte
  hdr_flags :: ahoi_flags
  hdr_seq :: byte
  hdr_pl_size :: u16

text \<open>A received packet: the announced payload size, and the memory the payload pointer leads to.\<close>

record ahoi_packet =
  pl_size :: u16
  payload :: memory

definition L2A_CONNECTIVITY_AVAILABLE_EVENT :: u32 where
  "L2A_CONNECTIVITY_AVAILABLE_EVENT = flag_bit 0"

definition TRANSMISSION_RESULT_EVENT :: u32 where
  "TRANSMISSION_RESULT_EVENT = flag_bit 1"

definition DOWNLINK_AVAILABLE_EVENT :: u32 where
  "DOWNLINK_AVAILABLE_EVENT = flag_bit 2"

definition L2A_NO_EVENT :: u32 where
  "L2A_NO_EVENT = 0"

lemmas l2a_flags =
  L2A_CONNECTIVITY_AVAILABLE_EVENT_def TRANSMISSION_RESULT_EVENT_def DOWNLINK_AVAILABLE_EVENT_def

text \<open>\<open>cb_set\<close> tells whether the callback table \<open>l2a_cb\<close> has been filled: before, its function
  pointers are NULL and calling one is undefined.\<close>

record 's l2a =
  l2_mtu :: u16
  l2_tx_delay_ms :: u32
  ahoi_port :: string
  iid :: byte
  cb_set :: bool
  l2a_rx_buffer :: "memory option"
  l2a_rx_buffer_size :: u16
  ahoifd :: int
  l2_event :: u32
  l2_fds :: "fd_callback slot list"
  upper :: 's
  calls :: "l2a_call list"
  frames :: "(ahoi_header \<times> memory) list"
  disconnected :: "int list"

type_synonym 's sdk = "l2a_call \<Rightarrow> 's l2a \<Rightarrow> 's l2a ub"

text \<open>The static initialisers; the largest payload is a constant of the modem library.\<close>

definition l2a_initial :: "u16 \<Rightarrow> fd_callback slot list \<Rightarrow> 's \<Rightarrow> 's l2a" where
  "l2a_initial max_payload fds up =
     \<lparr>l2_mtu = max_payload, l2_tx_delay_ms = 300, ahoi_port = ''/dev/ttyUSB0'', iid = 1,
      cb_set = False, l2a_rx_buffer = None, l2a_rx_buffer_size = 0, ahoifd = -1,
      l2_event = L2A_NO_EVENT, l2_fds = fds, upper = up, calls = [], frames = [], disconnected = []\<rparr>"

section \<open>Operations\<close>

definition l2_set_mtu :: "u16 \<Rightarrow> 's l2a \<Rightarrow> 's l2a" where
  "l2_set_mtu mtu l = l\<lparr>l2_mtu := mtu\<rparr>"

definition l2_set_serial_port :: "string \<Rightarrow> 's l2a \<Rightarrow> 's l2a" where
  "l2_set_serial_port port l = l\<lparr>ahoi_port := port\<rparr>"

definition l2_set_iid :: "byte \<Rightarrow> 's l2a \<Rightarrow> 's l2a" where
  "l2_set_iid val l = l\<lparr>iid := val\<rparr>"

definition l2_set_next_tx_delay :: "u32 \<Rightarrow> 's l2a \<Rightarrow> 's l2a" where
  "l2_set_next_tx_delay tx_delay_ms l = l\<lparr>l2_tx_delay_ms := tx_delay_ms\<rparr>"

definition l2a_get_mtu :: "'s l2a \<Rightarrow> u16" where
  "l2a_get_mtu l = l2_mtu l"

definition l2a_get_next_tx_delay :: "u16 \<Rightarrow> 's l2a \<Rightarrow> u32" where
  "l2a_get_next_tx_delay data_size l = l2_tx_delay_ms l"

text \<open>A call through \<open>l2a_cb\<close>.\<close>

definition callback :: "'s sdk \<Rightarrow> l2a_call \<Rightarrow> 's l2a \<Rightarrow> 's l2a ub" where
  "callback sdk c l = (if cb_set l then sdk c (l\<lparr>calls := calls l @ [c]\<rparr>) else None)"

text \<open>\<open>event |= f; l2a_cb.processing_required();\<close>\<close>

definition raise_event :: "'s sdk \<Rightarrow> u32 \<Rightarrow> 's l2a \<Rightarrow> 's l2a ub" where
  "raise_event sdk f l = callback sdk Processing_required (l\<lparr>l2_event := raise_flag (l2_event l) f\<rparr>)"

definition downlink_available_callback :: "'s sdk \<Rightarrow> 's l2a \<Rightarrow> 's l2a ub" where
  "downlink_available_callback sdk l = raise_event sdk DOWNLINK_AVAILABLE_EVENT l"

text \<open>\<open>ahoi_connect\<close> maps the settings and the old descriptor to its result and the descriptor it
  leaves.\<close>

definition l2a_initialize ::
    "'s sdk \<Rightarrow> (ahoi_init \<Rightarrow> int \<Rightarrow> int \<times> int) \<Rightarrow> nat \<Rightarrow> memory \<Rightarrow> u16 \<Rightarrow> 's l2a \<Rightarrow> (l2a_status \<times> 's l2a) ub" where
  "l2a_initialize sdk ahoi_connect rx_len p_receive_buffer receive_buffer_size l =
     (let l = l\<lparr>cb_set := True\<rparr>;
          init = \<lparr>open_addr = ahoi_port l, init_id = iid l, recv_buf_len = rx_len\<rparr>;
          l = l\<lparr>l2a_rx_buffer := Some p_receive_buffer, l2a_rx_buffer_size := receive_buffer_size,
                l2_event := L2A_NO_EVENT\<rparr>;
          (ret, fd) = ahoi_connect init (ahoifd l);
          l = l\<lparr>ahoifd := fd\<rparr>
      in if ret < 0 then Some (L2A_CONNECT_ERR, l)
      else do {
        l \<leftarrow> raise_event sdk L2A_CONNECTIVITY_AVAILABLE_EVENT l;
        let (r, t) = watch_fd_for_input (ahoifd l) (Some Downlink_available) (l2_fds l);
        let l = l\<lparr>l2_fds := t\<rparr>;
        if \<not> r then Some (L2A_CONNECT_ERR, l) else Some (L2A_SUCCESS, l)
      })"

datatype write_result = Written | Write_error errno

text \<open>The \<open>do ... while\<close> loop: the results of the attempts in order; None when they are used up while
  the loop still retries.\<close>

fun write_ahoi :: "write_result list \<Rightarrow> write_result option" where
  "write_ahoi [] = None"
| "write_ahoi (r # rs) = (if r = Write_error EINTR then write_ahoi rs else Some r)"

definition l2a_send_data ::
    "'s sdk \<Rightarrow> write_result list \<Rightarrow> memory \<Rightarrow> u16 \<Rightarrow> 's l2a \<Rightarrow> (l2a_status \<times> 's l2a) ub" where
  "l2a_send_data sdk writes p_data data_size l =
     do {
       bytes \<leftarrow> load p_data 0 (unat data_size);
       let hdr = \<lparr>hdr_dst = 0xFF, hdr_type = 1, hdr_flags = AHOI_NO_FLAGS, hdr_seq = 0, hdr_pl_size = data_size\<rparr>;
       ret \<leftarrow> write_ahoi writes;
       if ret \<noteq> Written then Some (L2A_L2_ERROR, l)
       else do {
         l \<leftarrow> raise_event sdk TRANSMISSION_RESULT_EVENT (l\<lparr>frames := frames l @ [(hdr, bytes)]\<rparr>);
         Some (L2A_SUCCESS, l)
       }
     }"

definition packet_consumer :: "'s sdk \<Rightarrow> ahoi_packet \<Rightarrow> 's l2a \<Rightarrow> 's l2a ub" where
  "packet_consumer sdk pkt l =
     (if pl_size pkt > l2a_rx_buffer_size l then callback sdk (Data_received 0 L2A_BUFFER_ERR) l
      else do {
        buf \<leftarrow> l2a_rx_buffer l;
        bytes \<leftarrow> load (payload pkt) 0 (unat (pl_size pkt));
        buf \<leftarrow> store buf 0 bytes;
        callback sdk (Data_received (pl_size pkt) L2A_SUCCESS) (l\<lparr>l2a_rx_buffer := Some buf\<rparr>)
      })"

text \<open>
  One attempt of \<open>ahoi_stateless_read\<close>: the packets it hands to the consumer, whether it returns
  \<open>READ_OK\<close>, and the value of \<open>errno\<close> when it returns.
\<close>

record ahoi_read =
  packets :: "ahoi_packet list"
  read_ok :: bool
  read_errno :: errno

fun consume :: "'s sdk \<Rightarrow> ahoi_packet list \<Rightarrow> 's l2a \<Rightarrow> 's l2a ub" where
  "consume sdk [] l = Some l"
| "consume sdk (p # ps) l = do { l \<leftarrow> packet_consumer sdk p l; consume sdk ps l }"

fun read_ahoi :: "'s sdk \<Rightarrow> ahoi_read list \<Rightarrow> 's l2a \<Rightarrow> (bool \<times> 's l2a) ub" where
  "read_ahoi sdk [] l = None"
| "read_ahoi sdk (r # rs) l =
     do {
       l \<leftarrow> consume sdk (packets r) l;
       if \<not> read_ok r \<and> read_errno r = EINTR then read_ahoi sdk rs l else Some (read_ok r, l)
     }"

definition read_downlink :: "'s sdk \<Rightarrow> ahoi_read list \<Rightarrow> 's l2a \<Rightarrow> 's l2a ub" where
  "read_downlink sdk reads l =
     do {
       (ok, l) \<leftarrow> read_ahoi sdk reads l;
       if \<not> ok then callback sdk (Data_received 0 L2A_L2_ERROR) l else Some l
     }"

text \<open>The flags are tested one after the other on the current value of \<open>event\<close>.\<close>

definition l2a_process :: "'s sdk \<Rightarrow> ahoi_read list \<Rightarrow> 's l2a \<Rightarrow> (l2a_status \<times> 's l2a) ub" where
  "l2a_process sdk reads l =
     do {
       l \<leftarrow> (if has_flag (l2_event l) L2A_CONNECTIVITY_AVAILABLE_EVENT
            then callback sdk Connectivity_available l else Some l);
       l \<leftarrow> (if has_flag (l2_event l) TRANSMISSION_RESULT_EVENT
            then callback sdk (Transmission_result L2A_SUCCESS 0) l else Some l);
       l \<leftarrow> (if has_flag (l2_event l) DOWNLINK_AVAILABLE_EVENT then read_downlink sdk reads l else Some l);
       Some (L2A_SUCCESS, l\<lparr>l2_event := L2A_NO_EVENT\<rparr>)
     }"

definition l2a_get_dev_iid :: "'s l2a \<Rightarrow> bool" where
  "l2a_get_dev_iid l = False"

definition l2_deinit :: "'s l2a \<Rightarrow> 's l2a" where
  "l2_deinit l = (if ahoifd l \<ge> 0 then l\<lparr>disconnected := disconnected l @ [ahoifd l]\<rparr> else l)"

end
