(* ===== verification/L2_Ahoi_Props.thy ===== *)
theory L2_Ahoi_Props
  imports L2_Ahoi
begin

text \<open>
  Properties of the L2 adapter: what one call of \<open>l2a_process\<close> reports to the stack, what happens to
  events raised while it runs, and what remains registered after \<open>l2_deinit\<close>.
\<close>

section \<open>What the stack sees\<close>

text \<open>The bytes the stack may read in a callback: those announced by a successful reception.\<close>

fun visible :: "l2a_call \<Rightarrow> 's l2a \<Rightarrow> memory" where
  "visible (Data_received n L2A_SUCCESS) l = take (unat n) (the (l2a_rx_buffer l))"
| "visible _ l = []"

text \<open>A stack that only updates its own state in a callback, from the call and the visible bytes.\<close>

definition quiet :: "'s sdk \<Rightarrow> (l2a_call \<Rightarrow> memory \<Rightarrow> 's \<Rightarrow> 's) \<Rightarrow> bool" where
  "quiet sdk f \<longleftrightarrow> (\<forall>c l. sdk c l = Some (l\<lparr>upper := f c (visible c l) (upper l)\<rparr>))"

definition see :: "(l2a_call \<Rightarrow> memory \<Rightarrow> 's \<Rightarrow> 's) \<Rightarrow> l2a_call \<times> memory \<Rightarrow> 's l2a \<Rightarrow> 's l2a" where
  "see f r l = l\<lparr>calls := calls l @ [fst r], upper := f (fst r) (snd r) (upper l)\<rparr>"

lemma callback_quiet:
  "quiet sdk f \<Longrightarrow> cb_set l \<Longrightarrow> callback sdk c l = Some (see f (c, visible c l) l)"
  by (cases "(c, l)" rule: visible.cases) (simp_all add: quiet_def callback_def see_def)

definition packet_report :: "u16 \<Rightarrow> ahoi_packet \<Rightarrow> l2a_call \<times> memory" where
  "packet_report rx p =
     (if pl_size p > rx then (Data_received 0 L2A_BUFFER_ERR, [])
      else (Data_received (pl_size p) L2A_SUCCESS, take (unat (pl_size p)) (payload p)))"

definition reads_reports :: "u16 \<Rightarrow> ahoi_read list \<Rightarrow> (l2a_call \<times> memory) list" where
  "reads_reports rx rs = concat (map (\<lambda>r. map (packet_report rx) (packets r)) rs)
     @ (if read_ok (last rs) then [] else [(Data_received 0 L2A_L2_ERROR, [])])"

definition reports :: "u32 \<Rightarrow> u16 \<Rightarrow> ahoi_read list \<Rightarrow> (l2a_call \<times> memory) list" where
  "reports e rx rs =
     (if has_flag e L2A_CONNECTIVITY_AVAILABLE_EVENT then [(Connectivity_available, [])] else [])
     @ (if has_flag e TRANSMISSION_RESULT_EVENT then [(Transmission_result L2A_SUCCESS 0, [])] else [])
     @ (if has_flag e DOWNLINK_AVAILABLE_EVENT then reads_reports rx rs else [])"

text \<open>The attempts of one read: all but the last were interrupted, the last was not.\<close>

definition interrupted :: "ahoi_read \<Rightarrow> bool" where
  "interrupted r \<longleftrightarrow> \<not> read_ok r \<and> read_errno r = EINTR"

definition attempts :: "ahoi_read list \<Rightarrow> bool" where
  "attempts rs \<longleftrightarrow> rs \<noteq> [] \<and> (\<forall>r \<in> set (butlast rs). interrupted r) \<and> \<not> interrupted (last rs)"

definition readable :: "ahoi_read list \<Rightarrow> bool" where
  "readable rs \<longleftrightarrow> (\<forall>r \<in> set rs. \<forall>p \<in> set (packets r). unat (pl_size p) \<le> length (payload p))"

text \<open>The adapter is ready: it has callbacks and a receive buffer as large as announced.\<close>

definition ready :: "'s l2a \<Rightarrow> bool" where
  "ready l \<longleftrightarrow> cb_set l
     \<and> (\<exists>buf. l2a_rx_buffer l = Some buf \<and> unat (l2a_rx_buffer_size l) \<le> length buf)"


lemma see_fields [simp]:
  "l2_event (see f r l) = l2_event l" "cb_set (see f r l) = cb_set l"
  "l2a_rx_buffer (see f r l) = l2a_rx_buffer l" "l2a_rx_buffer_size (see f r l) = l2a_rx_buffer_size l"
  "frames (see f r l) = frames l" "l2_fds (see f r l) = l2_fds l" "ahoifd (see f r l) = ahoifd l"
  "disconnected (see f r l) = disconnected l"
  by (simp_all add: see_def)

lemma ready_see [simp]: "ready (see f r l) \<longleftrightarrow> ready l"
  by (simp add: ready_def)

lemma fold_see_fields [simp]:
  "l2_event (fold (see f) rs l) = l2_event l" "l2a_rx_buffer_size (fold (see f) rs l) = l2a_rx_buffer_size l"
  "ready (fold (see f) rs l) \<longleftrightarrow> ready l" "frames (fold (see f) rs l) = frames l"
  by (induction rs arbitrary: l) simp_all

lemma fold_see:
  "calls (fold (see f) rs l) = calls l @ map fst rs"
  "upper (fold (see f) rs l) = fold (\<lambda>r. f (fst r) (snd r)) rs (upper l)"
  by (induction rs arbitrary: l) (simp_all add: see_def)

lemma see_buffer: "see f r (l\<lparr>l2a_rx_buffer := b\<rparr>) = (see f r l)\<lparr>l2a_rx_buffer := b\<rparr>"
  by (simp add: see_def)

lemma fold_see_buffer: "fold (see f) rs (l\<lparr>l2a_rx_buffer := b\<rparr>) = (fold (see f) rs l)\<lparr>l2a_rx_buffer := b\<rparr>"
  by (induction rs arbitrary: l) (simp_all add: see_buffer)

lemma ready_fold_buffer:
  "ready ((fold (see f) rs l)\<lparr>l2a_rx_buffer := b\<rparr>) \<longleftrightarrow> ready (l\<lparr>l2a_rx_buffer := b\<rparr>)"
  by (simp flip: fold_see_buffer)

lemma packet_consumer_report:
  assumes q: "quiet sdk f" and l: "ready l" and p: "unat (pl_size p) \<le> length (payload p)"
  shows "\<exists>b. packet_consumer sdk p l = Some ((see f (packet_report (l2a_rx_buffer_size l) p) l)\<lparr>l2a_rx_buffer := b\<rparr>)
    \<and> ready ((see f (packet_report (l2a_rx_buffer_size l) p) l)\<lparr>l2a_rx_buffer := b\<rparr>)"
proof (cases "pl_size p > l2a_rx_buffer_size l")
  case True
  then show ?thesis
    using callback_quiet [OF q, of l "Data_received 0 L2A_BUFFER_ERR"] l
    by (intro exI [of _ "l2a_rx_buffer l"]) (simp add: packet_consumer_def packet_report_def ready_def see_def)
next
  case False
  then have n: "unat (pl_size p) \<le> unat (l2a_rx_buffer_size l)"
    by (simp add: not_less word_le_nat_alt)
  obtain buf where buf: "l2a_rx_buffer l = Some buf" "unat (l2a_rx_buffer_size l) \<le> length buf" and cb: "cb_set l"
    using l by (auto simp: ready_def)
  define bs where "bs = take (unat (pl_size p)) (payload p)"
  have bs: "length bs = unat (pl_size p)" "load (payload p) 0 (unat (pl_size p)) = Some bs"
    using p by (simp_all add: bs_def load_def)
  have st: "store buf 0 bs = Some (poke buf 0 bs)" "take (unat (pl_size p)) (poke buf 0 bs) = bs"
    using bs(1) n buf(2) by (simp_all add: store_def poke_def)
  have "length (poke buf 0 bs) = length buf"
    using bs(1) n buf(2) by simp
  then show ?thesis
    using callback_quiet [OF q, of "l\<lparr>l2a_rx_buffer := Some (poke buf 0 bs)\<rparr>" "Data_received (pl_size p) L2A_SUCCESS"]
      False n buf cb bs(2) st
    by (intro exI [of _ "Some (poke buf 0 bs)"])
      (simp add: packet_consumer_def packet_report_def ready_def see_buffer flip: bs_def)
qed

lemma consume_reports:
  assumes q: "quiet sdk f"
  shows "ready l \<Longrightarrow> \<forall>p \<in> set ps. unat (pl_size p) \<le> length (payload p) \<Longrightarrow>
    \<exists>b. consume sdk ps l = Some ((fold (see f) (map (packet_report (l2a_rx_buffer_size l)) ps) l)\<lparr>l2a_rx_buffer := b\<rparr>)
      \<and> ready (l\<lparr>l2a_rx_buffer := b\<rparr>)"
proof (induction ps arbitrary: l)
  case Nil
  show ?case
    using Nil.prems by (intro exI [of _ "l2a_rx_buffer l"]) simp
next
  case (Cons p ps)
  let ?r = "packet_report (l2a_rx_buffer_size l) p"
  from packet_consumer_report [OF q Cons.prems(1)] Cons.prems(2) obtain b where
    b: "packet_consumer sdk p l = Some ((see f ?r l)\<lparr>l2a_rx_buffer := b\<rparr>)" "ready ((see f ?r l)\<lparr>l2a_rx_buffer := b\<rparr>)"
    by auto
  from Cons.IH [OF b(2)] Cons.prems(2) obtain c where
    "consume sdk ps ((see f ?r l)\<lparr>l2a_rx_buffer := b\<rparr>) =
      Some ((fold (see f) (map (packet_report (l2a_rx_buffer_size l)) ps) ((see f ?r l)\<lparr>l2a_rx_buffer := b\<rparr>))\<lparr>l2a_rx_buffer := c\<rparr>)"
    "ready ((see f ?r l)\<lparr>l2a_rx_buffer := c\<rparr>)"
    by auto
  then show ?case
    using b(1) by (intro exI [of _ c]) (simp add: fold_see_buffer ready_def)
qed

lemma read_ahoi_reports:
  assumes q: "quiet sdk f"
  shows "attempts rs \<Longrightarrow> readable rs \<Longrightarrow> ready l \<Longrightarrow>
    \<exists>b. read_ahoi sdk rs l = Some (read_ok (last rs),
        (fold (see f) (concat (map (\<lambda>r. map (packet_report (l2a_rx_buffer_size l)) (packets r)) rs)) l)\<lparr>l2a_rx_buffer := b\<rparr>)
      \<and> ready (l\<lparr>l2a_rx_buffer := b\<rparr>)"
proof (induction rs arbitrary: l)
  case Nil
  then show ?case
    by (simp add: attempts_def)
next
  case (Cons r rs)
  let ?reps = "map (packet_report (l2a_rx_buffer_size l)) (packets r)"
  from consume_reports [OF q Cons.prems(3), of "packets r"] Cons.prems(2) obtain b where
    b: "consume sdk (packets r) l = Some ((fold (see f) ?reps l)\<lparr>l2a_rx_buffer := b\<rparr>)"
    "ready (l\<lparr>l2a_rx_buffer := b\<rparr>)"
    by (auto simp: readable_def)
  show ?case
  proof (cases "rs = []")
    case True
    then show ?thesis
      using b Cons.prems(1) by (intro exI [of _ b]) (simp add: attempts_def interrupted_def)
  next
    case False
    then have r: "interrupted r" and rs: "attempts rs" "readable rs"
      using Cons.prems(1,2) by (simp_all add: attempts_def readable_def)
    have "ready ((fold (see f) ?reps l)\<lparr>l2a_rx_buffer := b\<rparr>)"
      using b(2) by (simp flip: fold_see_buffer)
    from Cons.IH [OF rs this] obtain c where
      "read_ahoi sdk rs ((fold (see f) ?reps l)\<lparr>l2a_rx_buffer := b\<rparr>) = Some (read_ok (last rs),
        (fold (see f) (concat (map (\<lambda>r. map (packet_report (l2a_rx_buffer_size l)) (packets r)) rs))
          ((fold (see f) ?reps l)\<lparr>l2a_rx_buffer := b\<rparr>))\<lparr>l2a_rx_buffer := c\<rparr>)"
      "ready ((fold (see f) ?reps l)\<lparr>l2a_rx_buffer := c\<rparr>)"
      by auto
    then show ?thesis
      using b(1) r False
      by (intro exI [of _ c]) (simp add: interrupted_def fold_see_buffer ready_fold_buffer)
  qed
qed

section \<open>Processing\<close>

lemma process_reports:
  assumes "quiet sdk f" and "ready l" and "attempts rs" and "readable rs"
  shows "\<exists>l'. l2a_process sdk rs l = Some (L2A_SUCCESS, l')
    \<and> calls l' = calls l @ map fst (reports (l2_event l) (l2a_rx_buffer_size l) rs)
    \<and> upper l' = fold (\<lambda>r. f (fst r) (snd r)) (reports (l2_event l) (l2a_rx_buffer_size l) rs) (upper l)
    \<and> l2_event l' = L2A_NO_EVENT \<and> ready l'"
proof -
  note q = assms(1)
  have cb: "callback sdk c m = Some (see f (c, visible c m) m)" if "ready m" for c m
    using callback_quiet [OF q] that by (simp add: ready_def)
  define l1 where "l1 = (if has_flag (l2_event l) L2A_CONNECTIVITY_AVAILABLE_EVENT
    then see f (Connectivity_available, []) l else l)"
  define l2 where "l2 = (if has_flag (l2_event l) TRANSMISSION_RESULT_EVENT
    then see f (Transmission_result L2A_SUCCESS 0, []) l1 else l1)"
  have r1: "ready l1" "l2_event l1 = l2_event l" "l2a_rx_buffer_size l1 = l2a_rx_buffer_size l"
    using assms(2) by (simp_all add: l1_def)
  then have r2: "ready l2" "l2_event l2 = l2_event l" "l2a_rx_buffer_size l2 = l2a_rx_buffer_size l"
    by (simp_all add: l2_def)
  have "\<exists>b. read_downlink sdk rs l2 =
      Some ((fold (see f) (reads_reports (l2a_rx_buffer_size l) rs) l2)\<lparr>l2a_rx_buffer := b\<rparr>)
    \<and> ready (l2\<lparr>l2a_rx_buffer := b\<rparr>)"
    using read_ahoi_reports [OF q assms(3,4) r2(1)] r2(3)
    by (auto simp: read_downlink_def reads_reports_def cb ready_fold_buffer see_buffer)
  then obtain b where b: "read_downlink sdk rs l2 =
      Some ((fold (see f) (reads_reports (l2a_rx_buffer_size l) rs) l2)\<lparr>l2a_rx_buffer := b\<rparr>)"
    "ready (l2\<lparr>l2a_rx_buffer := b\<rparr>)"
    by blast
  define l3 where "l3 = (if has_flag (l2_event l) DOWNLINK_AVAILABLE_EVENT
    then (fold (see f) (reads_reports (l2a_rx_buffer_size l) rs) l2)\<lparr>l2a_rx_buffer := b\<rparr> else l2)"
  have s1: "(if has_flag (l2_event l) L2A_CONNECTIVITY_AVAILABLE_EVENT
      then callback sdk Connectivity_available l else Some l) = Some l1"
    using assms(2) by (simp add: l1_def cb)
  have s2: "(if has_flag (l2_event l1) TRANSMISSION_RESULT_EVENT
      then callback sdk (Transmission_result L2A_SUCCESS 0) l1 else Some l1) = Some l2"
    using r1 by (simp add: l2_def cb)
  have s3: "(if has_flag (l2_event l2) DOWNLINK_AVAILABLE_EVENT then read_downlink sdk rs l2 else Some l2) = Some l3"
    using r2(2) b(1) by (simp add: l3_def)
  have "l2a_process sdk rs l = Some (L2A_SUCCESS, l3\<lparr>l2_event := L2A_NO_EVENT\<rparr>)"
    by (simp only: l2a_process_def s1 s2 s3 Option.bind.bind_lunit)
  moreover have "ready l3"
    using r2(1) b(2) by (simp add: l3_def ready_fold_buffer)
  ultimately show ?thesis
    by (auto simp: l3_def l2_def l1_def reports_def fold_see see_def ready_def)
qed

text \<open>C34: With a stack that does not call back into the adapter, one \<open>l2a_process\<close> returns, reports
  every pending event exactly once and in a fixed order (connectivity, transmission result, the
  received packets in their order, a failed read), shows the stack exactly the payload bytes of
  each packet that fits the receive buffer and an error for each that does not, and leaves no
  event pending. An interrupted read is repeated.\<close>

theorem l2a_process_reports:
  assumes "quiet sdk f" and "ready l" and "attempts rs" and "readable rs"
  shows "\<exists>l'. l2a_process sdk rs l = Some (L2A_SUCCESS, l')
    \<and> calls l' = calls l @ map fst (reports (l2_event l) (l2a_rx_buffer_size l) rs)
    \<and> upper l' = fold (\<lambda>r. f (fst r) (snd r)) (reports (l2_event l) (l2a_rx_buffer_size l) rs) (upper l)
    \<and> l2_event l' = L2A_NO_EVENT \<and> ready l'"
  by (rule process_reports [OF assms])

definition log_stack :: "memory list sdk" where
  "log_stack c l = Some (l\<lparr>upper := upper l @ [visible c l]\<rparr>)"

definition example_link :: "memory list l2a" where
  "example_link = (l2a_initial 128 initial_fds [])\<lparr>cb_set := True, l2a_rx_buffer := Some [0, 0, 0],
     l2a_rx_buffer_size := 3, l2_event := raise_flag TRANSMISSION_RESULT_EVENT DOWNLINK_AVAILABLE_EVENT\<rparr>"

definition example_reads :: "ahoi_read list" where
  "example_reads =
     [\<lparr>packets = [\<lparr>pl_size = 2, payload = [7, 8]\<rparr>], read_ok = False, read_errno = EINTR\<rparr>,
      \<lparr>packets = [\<lparr>pl_size = 4, payload = [1, 2, 3, 4]\<rparr>, \<lparr>pl_size = 1, payload = [9]\<rparr>],
       read_ok = True, read_errno = EINTR\<rparr>]"

lemma example_reports:
  "reports (l2_event example_link) (l2a_rx_buffer_size example_link) example_reads =
    [(Transmission_result L2A_SUCCESS 0, []), (Data_received 2 L2A_SUCCESS, [7, 8]),
     (Data_received 0 L2A_BUFFER_ERR, []), (Data_received 1 L2A_SUCCESS, [9])]"
  by code_simp

theorem l2a_process_reports_witness:
  "\<exists>l'. l2a_process log_stack example_reads example_link = Some (L2A_SUCCESS, l')
    \<and> calls l' = [Transmission_result L2A_SUCCESS 0, Data_received 2 L2A_SUCCESS,
        Data_received 0 L2A_BUFFER_ERR, Data_received 1 L2A_SUCCESS]
    \<and> upper l' = [[], [7, 8], [], [9]] \<and> l2_event l' = 0"
proof -
  have "quiet log_stack (\<lambda>c bs up. up @ [bs])"
    by (simp add: quiet_def log_stack_def)
  moreover have "ready example_link"
    by (simp add: ready_def example_link_def)
  moreover have "attempts example_reads" "readable example_reads"
    by (simp_all add: attempts_def interrupted_def readable_def example_reads_def)
  ultimately obtain l' where "l2a_process log_stack example_reads example_link = Some (L2A_SUCCESS, l')"
    "calls l' = calls example_link @ map fst (reports (l2_event example_link) (l2a_rx_buffer_size example_link) example_reads)"
    "upper l' = fold (\<lambda>r up. up @ [snd r])
       (reports (l2_event example_link) (l2a_rx_buffer_size example_link) example_reads) (upper example_link)"
    "l2_event l' = L2A_NO_EVENT"
    using l2a_process_reports [of log_stack "\<lambda>c bs up. up @ [bs]"] by blast
  then show ?thesis
    unfolding example_reports by (simp add: example_link_def l2a_initial_def L2A_NO_EVENT_def)
qed

section \<open>Events raised while processing\<close>

text \<open>A stack that sends its next frame from the transmission-result callback.\<close>

definition sends_next :: "memory \<Rightarrow> u16 \<Rightarrow> 's sdk \<Rightarrow> bool" where
  "sends_next p n sdk \<longleftrightarrow> (\<forall>l. sdk (Transmission_result L2A_SUCCESS 0) l =
     map_option snd (l2a_send_data (\<lambda>_. Some) [Written] p n l))"

lemma idle_process: "l2_event l = L2A_NO_EVENT \<Longrightarrow> l2a_process sdk rs l = Some (L2A_SUCCESS, l)"
  by (simp add: l2a_process_def L2A_NO_EVENT_def)

lemma only_result:
  "\<not> has_flag TRANSMISSION_RESULT_EVENT L2A_CONNECTIVITY_AVAILABLE_EVENT"
  "has_flag TRANSMISSION_RESULT_EVENT TRANSMISSION_RESULT_EVENT"
  "\<not> has_flag (raise_flag TRANSMISSION_RESULT_EVENT TRANSMISSION_RESULT_EVENT) DOWNLINK_AVAILABLE_EVENT"
  by (simp_all add: l2a_flags has_flag_bit raise_flag_def) (simp_all add: flag_bit_def bit_simps)

text \<open>C35: \<open>l2a_process\<close> clears every event after its callbacks ran, also those they raised: when the
  stack sends its next frame from the transmission-result callback, the frame goes out, but its
  own result is discarded with the event, and no later call of \<open>l2a_process\<close> reports it.\<close>

theorem transmission_result_lost:
  assumes "sends_next p n sdk" and "cb_set l" and "unat n \<le> length p"
    and "l2_event l = TRANSMISSION_RESULT_EVENT"
  shows "\<exists>l' hdr. l2a_process sdk rs l = Some (L2A_SUCCESS, l')
    \<and> frames l' = frames l @ [(hdr, take (unat n) p)]
    \<and> calls l' = calls l @ [Transmission_result L2A_SUCCESS 0, Processing_required]
    \<and> (\<forall>sdk' rs'. l2a_process sdk' rs' l' = Some (L2A_SUCCESS, l'))"
proof -
  have ld: "load p 0 (unat n) = Some (take (unat n) p)"
    using assms(3) by (simp add: load_def)
  show ?thesis
    using assms(2,4) only_result
    by (simp add: l2a_process_def callback_def assms(1) [unfolded sends_next_def, rule_format]
        l2a_send_data_def ld raise_event_def idle_process)
      (simp add: L2A_NO_EVENT_def)
qed

definition sending_stack :: "unit sdk" where
  "sending_stack c l =
     (if c = Transmission_result L2A_SUCCESS 0
      then map_option snd (l2a_send_data (\<lambda>_. Some) [Written] [1, 2] 2 l) else Some l)"

theorem transmission_result_lost_witness:
  "\<exists>l' hdr. l2a_process sending_stack []
      ((l2a_initial 128 initial_fds ())\<lparr>cb_set := True, l2_event := TRANSMISSION_RESULT_EVENT\<rparr>)
      = Some (L2A_SUCCESS, l')
    \<and> frames l' = [(hdr, [1, 2])]
    \<and> calls l' = [Transmission_result L2A_SUCCESS 0, Processing_required]
    \<and> (\<forall>sdk' rs'. l2a_process sdk' rs' l' = Some (L2A_SUCCESS, l'))"
  using transmission_result_lost [of "[1, 2]" 2 sending_stack
      "(l2a_initial 128 initial_fds ())\<lparr>cb_set := True, l2_event := TRANSMISSION_RESULT_EVENT\<rparr>" "[]"]
  by (simp add: sends_next_def sending_stack_def l2a_initial_def)

section \<open>Initialisation and deinitialisation\<close>

lemma raise_event_quiet:
  "quiet sdk f \<Longrightarrow> cb_set l \<Longrightarrow> raise_event sdk e l =
    Some (see f (Processing_required, []) (l\<lparr>l2_event := raise_flag (l2_event l) e\<rparr>))"
  by (simp add: raise_event_def callback_quiet)

text \<open>The state once \<open>ahoi_connect\<close> has returned \<open>fd\<close> and the stack has been told.\<close>

definition connected ::
    "(l2a_call \<Rightarrow> memory \<Rightarrow> 's \<Rightarrow> 's) \<Rightarrow> int \<Rightarrow> memory \<Rightarrow> u16 \<Rightarrow> 's l2a \<Rightarrow> 's l2a" where
  "connected f fd buf n l =
     see f (Processing_required, []) (l\<lparr>cb_set := True, l2a_rx_buffer := Some buf, l2a_rx_buffer_size := n,
       ahoifd := fd, l2_event := raise_flag L2A_NO_EVENT L2A_CONNECTIVITY_AVAILABLE_EVENT\<rparr>)"

lemma l2a_initialize_outcome:
  assumes "quiet sdk f"
    and "conn \<lparr>open_addr = ahoi_port l, init_id = iid l, recv_buf_len = rx\<rparr> (ahoifd l) = (ret, fd)" and "0 \<le> ret"
  shows "l2a_initialize sdk conn rx buf n l =
    (let w = watch_fd_for_input fd (Some Downlink_available) (l2_fds l) in
     Some (if fst w then L2A_SUCCESS else L2A_CONNECT_ERR, (connected f fd buf n l)\<lparr>l2_fds := snd w\<rparr>))"
  using assms(2,3)
  by (auto simp: l2a_initialize_def raise_event_quiet [OF assms(1)] connected_def Let_def split: prod.split)

lemma connected_fields [simp]:
  "ahoifd (connected f fd buf n l) = fd" "l2_fds (connected f fd buf n l) = l2_fds l"
  "disconnected (connected f fd buf n l) = disconnected l" "ahoi_port (connected f fd buf n l) = ahoi_port l"
  "iid (connected f fd buf n l) = iid l" "cb_set (connected f fd buf n l)"
  "l2_event (connected f fd buf n l) = raise_flag L2A_NO_EVENT L2A_CONNECTIVITY_AVAILABLE_EVENT"
  by (simp_all add: connected_def see_def)

text \<open>After \<open>l2_deinit\<close> the adapter cannot be initialised again on the same descriptor number, the
  one the system hands out next: the descriptor was disconnected but stays in the table of
  watched descriptors, so the second registration is refused and \<open>l2a_initialize\<close> fails, leaving
  the modem connected.\<close>

lemma reinitialize_same_descriptor_fails:
  assumes "quiet sdk f" and "watch_inv (l2_fds l)"
    and "\<And>i old. conn i old = (0, fd)"
    and "l2a_initialize sdk conn rx buf n l = Some (L2A_SUCCESS, l1)"
  shows "\<exists>l2. l2a_initialize sdk conn rx buf n (l2_deinit l1) = Some (L2A_CONNECT_ERR, l2)
    \<and> disconnected l2 = disconnected l @ [fd] \<and> ahoifd l2 = fd
    \<and> watched (l2_fds l1) fd = Some (Some Downlink_available) \<and> watched (l2_fds l2) = watched (l2_fds l1)"
proof -
  let ?w = "watch_fd_for_input fd (Some Downlink_available) (l2_fds l)"
  from l2a_initialize_outcome [OF assms(1), where conn = conn and l = l and ret = 0 and fd = fd, OF assms(3)]
  have w: "fst ?w" and l1: "l1 = (connected f fd buf n l)\<lparr>l2_fds := snd ?w\<rparr>"
    using assms(4) by (auto simp: Let_def split: if_splits)
  have pos: "0 \<le> fd"
    using w fds.watch_result [OF assms(2), of fd "Some Downlink_available"] by simp
  have inv: "watch_inv (snd ?w)"
    using fds.watch_ok [OF assms(2)] by simp
  have refused: "\<not> fst (watch_fd_for_input fd (Some Downlink_available) (snd ?w))"
    using fds.watch_twice [OF assms(2) w] .
  have look: "watched (snd ?w) = (watched (l2_fds l))(fd \<mapsto> Some Downlink_available)"
    using fds.watch_lookup [OF assms(2), of fd "Some Downlink_available"] w by simp
  have look2: "watched (snd (watch_fd_for_input fd (Some Downlink_available) (snd ?w))) = watched (snd ?w)"
    using fds.watch_lookup [OF inv, of fd "Some Downlink_available"] refused by simp
  show ?thesis
    using l2a_initialize_outcome [OF assms(1), where conn = conn and l = "l2_deinit l1" and ret = 0 and fd = fd, OF assms(3)]
      refused look look2 pos
    by (simp add: l1 l2_deinit_def Let_def)
qed

definition example_conn :: "ahoi_init \<Rightarrow> int \<Rightarrow> int \<times> int" where
  "example_conn i old = (0, 4)"

lemma reinitialize_same_descriptor_fails_witness:
  "\<exists>l1 l2. l2a_initialize log_stack example_conn 512 [0, 0, 0] 3 (l2a_initial 128 initial_fds []) = Some (L2A_SUCCESS, l1)
    \<and> l2a_initialize log_stack example_conn 512 [0, 0, 0] 3 (l2_deinit l1) = Some (L2A_CONNECT_ERR, l2)
    \<and> disconnected l2 = [4]"
proof -
  have q: "quiet log_stack (\<lambda>c bs up. up @ [bs])"
    by (simp add: quiet_def log_stack_def)
  have inv: "watch_inv (initial_fds :: fd_callback slot list)"
    by code_simp
  have "fst (the (l2a_initialize log_stack example_conn 512 [0, 0, 0] 3 (l2a_initial 128 initial_fds []))) = L2A_SUCCESS
    \<and> l2a_initialize log_stack example_conn 512 [0, 0, 0] 3 (l2a_initial 128 initial_fds []) \<noteq> None"
    by code_simp
  then obtain l1 where
    "l2a_initialize log_stack example_conn 512 [0, 0, 0] 3 (l2a_initial 128 initial_fds []) = Some (L2A_SUCCESS, l1)"
    by auto
  with reinitialize_same_descriptor_fails [OF q, of "l2a_initial 128 initial_fds []" example_conn 4 512 "[0, 0, 0]" 3 l1] inv
  show ?thesis
    by (auto simp: example_conn_def l2a_initial_def)
qed

end
