(* ===== verification/L2_Link.thy ===== *)
theory L2_Link
  imports L2_Ahoi_Props
begin

text \<open>
  Two L2 adapters and the modems between them: the frames one stack gives to its adapter are those the
  other stack is shown. The modem library is a parameter: \<open>air\<close> gives the packet the receiver's library
  hands over for a frame the sender's library accepted.
\<close>

text \<open>Payloads of at most 255 bytes, the most the modem's one-byte length can announce, arrive as sent.\<close>

definition carries :: "(ahoi_header \<Rightarrow> memory \<Rightarrow> ahoi_packet) \<Rightarrow> bool" where
  "carries air \<longleftrightarrow> (\<forall>h d. length d \<le> 255 \<and> unat (hdr_pl_size h) = length d \<longrightarrow>
     pl_size (air h d) = hdr_pl_size h \<and> length d \<le> length (payload (air h d)) \<and> take (length d) (payload (air h d)) = d)"

text \<open>A stack that sends frames one after the other, each with the outcomes of the attempts to write it.\<close>

fun send_frames :: "'s sdk \<Rightarrow> (write_result list \<times> memory) list \<Rightarrow> 's l2a \<Rightarrow> 's l2a ub" where
  "send_frames sdk [] l = Some l"
| "send_frames sdk ((ws, d) # fs) l =
     do { (r, l) \<leftarrow> l2a_send_data sdk ws d (of_nat (length d)) l; send_frames sdk fs l }"

text \<open>The frames the modem took.\<close>

definition on_air :: "(write_result list \<times> memory) list \<Rightarrow> memory list" where
  "on_air fs = map snd (filter (\<lambda>(ws, d). write_ahoi ws = Some Written) fs)"

definition frame_header :: "memory \<Rightarrow> ahoi_header" where
  "frame_header d = \<lparr>hdr_dst = 0xFF, hdr_type = 1, hdr_flags = AHOI_NO_FLAGS, hdr_seq = 0, hdr_pl_size = of_nat (length d)\<rparr>"

lemma frame_size: "length d \<le> 255 \<Longrightarrow> unat (of_nat (length d) :: u16) = length d"
  by (rule unat_of_nat_small) simp

lemma send_frames_eq:
  assumes "quiet sdk f"
  shows "cb_set l \<Longrightarrow> \<forall>(ws, d) \<in> set fs. write_ahoi ws \<noteq> None \<and> length d \<le> 255 \<Longrightarrow>
    \<exists>l'. send_frames sdk fs l = Some l' \<and> cb_set l' \<and> frames l' = frames l @ map (\<lambda>d. (frame_header d, d)) (on_air fs)"
proof (induction fs arbitrary: l)
  case (Cons a fs)
  obtain ws d where a: "a = (ws, d)"
    by (cases a)
  then have d: "load d 0 (unat (of_nat (length d) :: u16)) = Some d" "length d \<le> 255"
    using Cons.prems(2) by (simp_all add: load_def frame_size)
  obtain ret where ret: "write_ahoi ws = Some ret"
    using Cons.prems(2) a by auto
  show ?case
  proof (cases "ret = Written")
    case False
    then have "l2a_send_data sdk ws d (of_nat (length d)) l = Some (L2A_L2_ERROR, l)"
      using d(1) ret by (simp add: l2a_send_data_def Let_def)
    then show ?thesis
      using Cons.IH [OF Cons.prems(1)] Cons.prems(2) a ret False by (simp add: on_air_def)
  next
    case True
    define l1 where "l1 = see f (Processing_required, [])
      (l\<lparr>frames := frames l @ [(frame_header d, d)], l2_event := raise_flag (l2_event l) TRANSMISSION_RESULT_EVENT\<rparr>)"
    have "l2a_send_data sdk ws d (of_nat (length d)) l = Some (L2A_SUCCESS, l1)"
      using d(1) ret True callback_quiet [OF assms] Cons.prems(1)
      by (simp add: l2a_send_data_def raise_event_def l1_def frame_header_def Let_def)
    moreover have "cb_set l1" "frames l1 = frames l @ [(frame_header d, d)]"
      using Cons.prems(1) by (simp_all add: l1_def)
    ultimately show ?thesis
      using Cons.IH [of l1] Cons.prems(2) a ret True by (auto simp: on_air_def)
  qed
qed (simp add: on_air_def)

text \<open>What the receiving stack is told of a frame, and the bytes it sees with it.\<close>

definition frame_report :: "u16 \<Rightarrow> memory \<Rightarrow> l2a_call \<times> memory" where
  "frame_report rx d =
     (if length d \<le> unat rx then (Data_received (of_nat (length d)) L2A_SUCCESS, d) else (Data_received 0 L2A_BUFFER_ERR, []))"

lemma air_report:
  assumes "carries air" and "length d \<le> 255"
  shows "packet_report rx (air (frame_header d) d) = frame_report rx d"
    and "unat (pl_size (air (frame_header d) d)) \<le> length (payload (air (frame_header d) d))"
proof -
  have c: "pl_size (air (frame_header d) d) = of_nat (length d)" "length d \<le> length (payload (air (frame_header d) d))"
    "take (length d) (payload (air (frame_header d) d)) = d"
    using assms(1) [unfolded carries_def, rule_format, of d "frame_header d"] assms(2) frame_size [OF assms(2)]
    by (simp_all add: frame_header_def)
  then show "unat (pl_size (air (frame_header d) d)) \<le> length (payload (air (frame_header d) d))"
    by (simp only: frame_size [OF assms(2)])
  show "packet_report rx (air (frame_header d) d) = frame_report rx d"
    using c by (simp only: packet_report_def frame_report_def frame_size [OF assms(2)] word_less_nat_alt not_le [symmetric]) simp
qed

text \<open>C6: Every frame a stack gives to its adapter and the modem takes is shown to the stack at the other end
  exactly once, in order and byte for byte, in one \<open>l2a_process\<close> there, however the packets are spread
  over interrupted reads; a frame larger than the receive buffer is announced as an error instead of
  being cut, and a frame the modem refuses is not announced at all. Each frame has at most 255
  bytes.\<close>

theorem frames_cross_link:
  assumes "quiet up f" and "cb_set la" and "\<forall>(ws, d) \<in> set fs. write_ahoi ws \<noteq> None \<and> length d \<le> 255"
    and "carries air" and "quiet down g" and "ready lb" and "attempts rs" and "read_ok (last rs)"
    and "l2_event lb = DOWNLINK_AVAILABLE_EVENT"
    and "\<And>la'. send_frames up fs la = Some la' \<Longrightarrow>
      concat (map packets rs) = map (\<lambda>(h, d). air h d) (drop (length (frames la)) (frames la'))"
  shows "\<exists>la' lb'. send_frames up fs la = Some la' \<and> l2a_process down rs lb = Some (L2A_SUCCESS, lb')
    \<and> calls lb' = calls lb @ map (\<lambda>d. fst (frame_report (l2a_rx_buffer_size lb) d)) (on_air fs)
    \<and> upper lb' = fold (\<lambda>d. case frame_report (l2a_rx_buffer_size lb) d of (c, bs) \<Rightarrow> g c bs) (on_air fs) (upper lb)
    \<and> l2_event lb' = L2A_NO_EVENT \<and> ready lb'"
proof -
  obtain la' where la': "send_frames up fs la = Some la'" "frames la' = frames la @ map (\<lambda>d. (frame_header d, d)) (on_air fs)"
    using send_frames_eq [OF assms(1-3)] by blast
  then have ps: "concat (map packets rs) = map (\<lambda>d. air (frame_header d) d) (on_air fs)"
    using assms(10) by (simp add: comp_def)
  have small: "\<forall>d \<in> set (on_air fs). length d \<le> 255"
    using assms(3) by (auto simp: on_air_def)
  let ?rx = "l2a_rx_buffer_size lb"
  have "readable rs"
  proof -
    have "unat (pl_size p) \<le> length (payload p)" if "p \<in> set (concat (map packets rs))" for p
      using that small air_report(2) [OF assms(4)] unfolding ps by auto
    then show ?thesis
      by (auto simp: readable_def)
  qed
  then obtain lb' where lb': "l2a_process down rs lb = Some (L2A_SUCCESS, lb')"
    "calls lb' = calls lb @ map fst (reports (l2_event lb) ?rx rs)"
    "upper lb' = fold (\<lambda>r. g (fst r) (snd r)) (reports (l2_event lb) ?rx rs) (upper lb)"
    "l2_event lb' = L2A_NO_EVENT" "ready lb'"
    using process_reports [OF assms(5-7)] by blast
  have flags: "has_flag DOWNLINK_AVAILABLE_EVENT DOWNLINK_AVAILABLE_EVENT"
    "\<not> has_flag DOWNLINK_AVAILABLE_EVENT L2A_CONNECTIVITY_AVAILABLE_EVENT"
    "\<not> has_flag DOWNLINK_AVAILABLE_EVENT TRANSMISSION_RESULT_EVENT"
    by code_simp+
  have "reports (l2_event lb) ?rx rs = map (packet_report ?rx) (concat (map packets rs))"
    using assms(8) by (simp add: assms(9) reports_def reads_reports_def flags map_concat comp_def)
  also have "\<dots> = map (frame_report ?rx) (on_air fs)"
    using small air_report(1) [OF assms(4)] by (simp add: ps)
  finally show ?thesis
    using la'(1) lb' by (intro exI [of _ la'] exI [of _ lb']) (simp add: comp_def fold_map case_prod_beta)
qed

section \<open>Two ends\<close>

definition plain_air :: "ahoi_header \<Rightarrow> memory \<Rightarrow> ahoi_packet" where
  "plain_air h d = \<lparr>pl_size = hdr_pl_size h, payload = d\<rparr>"

definition example_sends :: "(write_result list \<times> memory) list" where
  "example_sends = [([Write_error EINTR, Written], [7, 8]), ([Write_error EAGAIN], [5]), ([Written], [1, 2, 3, 4]), ([Written], [9])]"

definition example_attempts :: "ahoi_read list" where
  "example_attempts =
     [\<lparr>packets = [plain_air (frame_header [7, 8]) [7, 8]], read_ok = False, read_errno = EINTR\<rparr>,
      \<lparr>packets = [plain_air (frame_header [1, 2, 3, 4]) [1, 2, 3, 4], plain_air (frame_header [9]) [9]],
       read_ok = True, read_errno = EAGAIN\<rparr>]"

definition example_receiver :: "memory list l2a" where
  "example_receiver = example_link\<lparr>l2_event := DOWNLINK_AVAILABLE_EVENT\<rparr>"

lemma example_on_air: "on_air example_sends = [[7, 8], [1, 2, 3, 4], [9]]"
  by (simp add: on_air_def example_sends_def)

theorem frames_cross_link_witness:
  "\<exists>la' lb'. send_frames log_stack example_sends example_link = Some la'
    \<and> l2a_process log_stack example_attempts example_receiver = Some (L2A_SUCCESS, lb')
    \<and> calls lb' = [Data_received 2 L2A_SUCCESS, Data_received 0 L2A_BUFFER_ERR, Data_received 1 L2A_SUCCESS]
    \<and> upper lb' = [[7, 8], [], [9]]"
proof -
  have q: "quiet log_stack (\<lambda>c bs up. up @ [bs])"
    by (simp add: quiet_def log_stack_def)
  have cb: "cb_set example_link"
    by (simp add: example_link_def)
  have fs: "\<forall>(ws, d) \<in> set example_sends. write_ahoi ws \<noteq> None \<and> length d \<le> 255"
    by (simp add: example_sends_def)
  have air: "carries plain_air"
    by (simp add: carries_def plain_air_def)
  have r: "ready example_receiver" "attempts example_attempts" "read_ok (last example_attempts)"
    "l2_event example_receiver = DOWNLINK_AVAILABLE_EVENT"
    by (simp_all add: ready_def example_receiver_def example_link_def attempts_def interrupted_def example_attempts_def)
  have rx: "l2a_rx_buffer_size example_receiver = 3" "calls example_receiver = []" "upper example_receiver = []"
    by (simp_all add: example_receiver_def example_link_def l2a_initial_def)
  have "concat (map packets example_attempts) = map (\<lambda>(h, d). plain_air h d) (drop (length (frames example_link)) (frames la'))"
    if "send_frames log_stack example_sends example_link = Some la'" for la'
    using that send_frames_eq [OF q cb fs] by (auto simp: example_on_air example_attempts_def)
  from frames_cross_link [OF q cb fs air q r this]
  show ?thesis
    by (auto simp: example_on_air frame_report_def rx)
qed

end
