(* ===== verification/Frag_Api.thy ===== *)
theory Frag_Api
  imports Prelude
begin

text \<open>
  The fragmentation profiles of the three variants of \<open>libs/schc_frag_apis\<close>: No-ACK (\<open>na_basic\<close>),
  ACK-on-Error (\<open>ae_basic\<close>) and ACK-Always (\<open>aa_basic\<close>). The file that is built in hands the SDK one
  profile for each direction; both ends of a link are built from the same file, and the mode of
  the SDK decides which profile a peer sends with.

  Parameters: the rule identifiers, which the SDK's headers define, and the SDK's list of
  profiles (\<open>init_profiles\<close> makes an empty one, \<open>add_profile\<close> adds to it).
\<close>

section \<open>Profiles\<close>

datatype sdk_mode = SDK_DEVICE_MODE | SDK_APP_MODE
datatype profile_dir = PROFILE_DIR_UP | PROFILE_DIR_DOWN
datatype frag_mode = FRAG_MODE_NA | FRAG_MODE_AOE | FRAG_MODE_AA
datatype rcs_function = PROFILE_COMPUTE_RCS

record na_params =
  max_polling_frame :: nat

record ae_params =
  tile_size_bits :: nat
  ae_m :: nat
  ae_window_size :: nat
  ae_max_ack_requests :: nat
  ae_rt_exp_time :: nat
  no_tile_in_all1_flag :: nat
  one_l2_word_smaller_flag :: nat
  resend_contiguous_tiles_flag :: nat

record aa_params =
  aa_max_ack_requests :: nat
  aa_window_size :: nat
  aa_rt_exp_time :: nat
  ack_req_dn_opportunity :: nat
  ack_rt_exp_time :: nat
  idle_polling_time :: nat

text \<open>The part of the profile that depends on the mode, a union in C. Members a file does not set are
  zero, as C initialises them.\<close>

datatype mode_params = Na na_params | Ae ae_params | Aa aa_params

record frag_profile =
  mode :: frag_mode
  direction :: profile_dir
  rule_id :: nat
  rule_id_size_bits :: nat
  dtag_size_bits :: nat
  l2_word_size_bits :: nat
  frag_n :: nat
  rcs_size_bytes :: nat
  calc_rcs :: rcs_function
  polling_enabled :: bool
  params :: mode_params
  it_exp_time :: nat

section \<open>No-ACK (na_basic)\<close>

definition up_noack_profile :: "nat \<Rightarrow> frag_profile" where
  "up_noack_profile default_na_downlink_frag_rule_id =
     \<lparr>mode = FRAG_MODE_NA, direction = PROFILE_DIR_UP, rule_id = default_na_downlink_frag_rule_id + 1, rule_id_size_bits = 8,
      dtag_size_bits = 7, l2_word_size_bits = 8, frag_n = 1, rcs_size_bytes = 4,
      calc_rcs = PROFILE_COMPUTE_RCS, polling_enabled = False,
      params = Na \<lparr>max_polling_frame = 2\<rparr>, it_exp_time = 180000\<rparr>"

definition down_noack_profile :: "nat \<Rightarrow> frag_profile" where
  "down_noack_profile default_na_downlink_frag_rule_id =
     \<lparr>mode = FRAG_MODE_NA, direction = PROFILE_DIR_DOWN, rule_id = default_na_downlink_frag_rule_id, rule_id_size_bits = 8,
      dtag_size_bits = 7, l2_word_size_bits = 8, frag_n = 1, rcs_size_bytes = 4,
      calc_rcs = PROFILE_COMPUTE_RCS, polling_enabled = False,
      params = Na \<lparr>max_polling_frame = 2\<rparr>, it_exp_time = 180000\<rparr>"

definition na_get_point_to_point_profiles ::
    "'l \<Rightarrow> ('l \<Rightarrow> frag_profile \<Rightarrow> 'l) \<Rightarrow> sdk_mode \<Rightarrow> frag_profile \<times> frag_profile \<Rightarrow>
     'l \<times> frag_profile \<times> frag_profile" where
  "na_get_point_to_point_profiles init_profiles add_profile sdk_mode st =
     (case st of (up, down) \<Rightarrow>
        let (up, down) =
              (if sdk_mode = SDK_DEVICE_MODE
               then (up\<lparr>direction := PROFILE_DIR_UP\<rparr>, down\<lparr>direction := PROFILE_DIR_DOWN\<rparr>)
               else (up\<lparr>direction := PROFILE_DIR_DOWN\<rparr>, down\<lparr>direction := PROFILE_DIR_UP\<rparr>));
            profiles = init_profiles;
            profiles = add_profile profiles up;
            profiles = add_profile profiles down
        in (profiles, up, down))"

definition na_mgt_load_profiles ::
    "'l \<Rightarrow> ('l \<Rightarrow> frag_profile \<Rightarrow> 'l) \<Rightarrow> sdk_mode \<Rightarrow> frag_profile \<times> frag_profile \<Rightarrow>
     'l \<times> frag_profile \<times> frag_profile" where
  "na_mgt_load_profiles = na_get_point_to_point_profiles"

section \<open>ACK-on-Error (ae_basic)\<close>

definition up_aoe_profile :: "nat \<Rightarrow> frag_profile" where
  "up_aoe_profile aoe_uplink_frag_rule_id =
     \<lparr>mode = FRAG_MODE_AOE, direction = PROFILE_DIR_UP, rule_id = aoe_uplink_frag_rule_id, rule_id_size_bits = 8,
      dtag_size_bits = 2, l2_word_size_bits = 8, frag_n = 6, rcs_size_bytes = 4,
      calc_rcs = PROFILE_COMPUTE_RCS, polling_enabled = False,
      params = Ae \<lparr>tile_size_bits = 32, ae_m = 2, ae_window_size = 63, ae_max_ack_requests = 3,
        ae_rt_exp_time = 0, no_tile_in_all1_flag = 1, one_l2_word_smaller_flag = 0,
        resend_contiguous_tiles_flag = 1\<rparr>, it_exp_time = 600000\<rparr>"

definition down_aoe_profile :: "nat \<Rightarrow> frag_profile" where
  "down_aoe_profile aoe_downlink_frag_rule_id =
     \<lparr>mode = FRAG_MODE_AOE, direction = PROFILE_DIR_DOWN, rule_id = aoe_downlink_frag_rule_id, rule_id_size_bits = 8,
      dtag_size_bits = 2, l2_word_size_bits = 8, frag_n = 6, rcs_size_bytes = 4,
      calc_rcs = PROFILE_COMPUTE_RCS, polling_enabled = False,
      params = Ae \<lparr>tile_size_bits = 32, ae_m = 2, ae_window_size = 63, ae_max_ack_requests = 3,
        ae_rt_exp_time = 0, no_tile_in_all1_flag = 1, one_l2_word_smaller_flag = 0,
        resend_contiguous_tiles_flag = 1\<rparr>, it_exp_time = 600000\<rparr>"

definition ae_get_point_to_point_profiles ::
    "'l \<Rightarrow> ('l \<Rightarrow> frag_profile \<Rightarrow> 'l) \<Rightarrow> sdk_mode \<Rightarrow> frag_profile \<times> frag_profile \<Rightarrow>
     'l \<times> frag_profile \<times> frag_profile" where
  "ae_get_point_to_point_profiles init_profiles add_profile sdk_mode st =
     (case st of (up, down) \<Rightarrow>
        let (up, down) =
              (if sdk_mode = SDK_DEVICE_MODE
               then (up\<lparr>direction := PROFILE_DIR_UP\<rparr>, down\<lparr>direction := PROFILE_DIR_DOWN\<rparr>)
               else (up\<lparr>direction := PROFILE_DIR_DOWN\<rparr>, down\<lparr>direction := PROFILE_DIR_UP\<rparr>));
            profiles = init_profiles;
            profiles = add_profile profiles up;
            profiles = add_profile profiles down
        in (profiles, up, down))"

definition ae_mgt_load_profiles ::
    "'l \<Rightarrow> ('l \<Rightarrow> frag_profile \<Rightarrow> 'l) \<Rightarrow> sdk_mode \<Rightarrow> frag_profile \<times> frag_profile \<Rightarrow>
     'l \<times> frag_profile \<times> frag_profile" where
  "ae_mgt_load_profiles = ae_get_point_to_point_profiles"

section \<open>ACK-Always (aa_basic)\<close>

definition MAX_ACK_REQ :: nat where "MAX_ACK_REQ = 3"
definition SCHC_ACK_REQ_DN_OPPORTUNITY :: nat where "SCHC_ACK_REQ_DN_OPPORTUNITY = 2"
definition INACTIVITY_TIMER_EXP :: nat where "INACTIVITY_TIMER_EXP = 600000"
definition IDLE_POLLING_TIMER_EXP :: nat where
  "IDLE_POLLING_TIMER_EXP = (INACTIVITY_TIMER_EXP * 3) div 4"
definition RETRANSMISSION_TIMER_EXP_DOWN :: nat where
  "RETRANSMISSION_TIMER_EXP_DOWN = INACTIVITY_TIMER_EXP div (MAX_ACK_REQ + 1)"
definition ACK_RETRANSMISSION_TIMER_EXP :: nat where
  "ACK_RETRANSMISSION_TIMER_EXP =
     RETRANSMISSION_TIMER_EXP_DOWN div (MAX_ACK_REQ * SCHC_ACK_REQ_DN_OPPORTUNITY)"

lemmas aa_timers = MAX_ACK_REQ_def SCHC_ACK_REQ_DN_OPPORTUNITY_def INACTIVITY_TIMER_EXP_def
  IDLE_POLLING_TIMER_EXP_def RETRANSMISSION_TIMER_EXP_DOWN_def ACK_RETRANSMISSION_TIMER_EXP_def

definition aa_down_profile :: "nat \<Rightarrow> frag_profile" where
  "aa_down_profile aa_downlink_frag_rule_id =
     \<lparr>mode = FRAG_MODE_AA, direction = PROFILE_DIR_DOWN, rule_id = aa_downlink_frag_rule_id + 1, rule_id_size_bits = 8,
      dtag_size_bits = 0, l2_word_size_bits = 8, frag_n = 1, rcs_size_bytes = 4,
      calc_rcs = PROFILE_COMPUTE_RCS, polling_enabled = False,
      params = Aa \<lparr>aa_max_ack_requests = MAX_ACK_REQ, aa_window_size = 1, aa_rt_exp_time = 0,
        ack_req_dn_opportunity = SCHC_ACK_REQ_DN_OPPORTUNITY,
        ack_rt_exp_time = ACK_RETRANSMISSION_TIMER_EXP,
        idle_polling_time = IDLE_POLLING_TIMER_EXP\<rparr>, it_exp_time = INACTIVITY_TIMER_EXP\<rparr>"

definition aa_up_profile :: "nat \<Rightarrow> frag_profile" where
  "aa_up_profile aa_downlink_frag_rule_id =
     \<lparr>mode = FRAG_MODE_AA, direction = PROFILE_DIR_DOWN, rule_id = aa_downlink_frag_rule_id, rule_id_size_bits = 8,
      dtag_size_bits = 0, l2_word_size_bits = 8, frag_n = 1, rcs_size_bytes = 4,
      calc_rcs = PROFILE_COMPUTE_RCS, polling_enabled = False,
      params = Aa \<lparr>aa_max_ack_requests = MAX_ACK_REQ, aa_window_size = 1, aa_rt_exp_time = 0,
        ack_req_dn_opportunity = SCHC_ACK_REQ_DN_OPPORTUNITY,
        ack_rt_exp_time = ACK_RETRANSMISSION_TIMER_EXP,
        idle_polling_time = IDLE_POLLING_TIMER_EXP\<rparr>, it_exp_time = INACTIVITY_TIMER_EXP\<rparr>"

definition aa_get_point_to_point_profiles ::
    "'l \<Rightarrow> ('l \<Rightarrow> frag_profile \<Rightarrow> 'l) \<Rightarrow> sdk_mode \<Rightarrow> frag_profile \<times> frag_profile \<Rightarrow>
     'l \<times> frag_profile \<times> frag_profile" where
  "aa_get_point_to_point_profiles init_profiles add_profile sdk_mode st =
     (case st of (up, down) \<Rightarrow>
        let (up, down) =
              (if sdk_mode = SDK_DEVICE_MODE
               then (up\<lparr>direction := PROFILE_DIR_UP\<rparr>, down\<lparr>direction := PROFILE_DIR_DOWN\<rparr>)
               else (up\<lparr>direction := PROFILE_DIR_DOWN\<rparr>, down\<lparr>direction := PROFILE_DIR_UP\<rparr>));
            profiles = init_profiles;
            profiles = add_profile profiles up;
            profiles = add_profile profiles down
        in (profiles, up, down))"

definition aa_mgt_load_profiles ::
    "'l \<Rightarrow> ('l \<Rightarrow> frag_profile \<Rightarrow> 'l) \<Rightarrow> sdk_mode \<Rightarrow> frag_profile \<times> frag_profile \<Rightarrow>
     'l \<times> frag_profile \<times> frag_profile" where
  "aa_mgt_load_profiles = aa_get_point_to_point_profiles"

section \<open>Properties\<close>

text \<open>What the variants share: whatever directions earlier calls left, the profiles loaded are the
  two of the file with their directions set by the mode.\<close>

fun dir_of :: "sdk_mode \<Rightarrow> bool \<Rightarrow> profile_dir" where
  "dir_of SDK_DEVICE_MODE up = (if up then PROFILE_DIR_UP else PROFILE_DIR_DOWN)"
| "dir_of SDK_APP_MODE up = (if up then PROFILE_DIR_DOWN else PROFILE_DIR_UP)"

definition aim :: "sdk_mode \<Rightarrow> frag_profile \<times> frag_profile \<Rightarrow> frag_profile list" where
  "aim m st = [(fst st)\<lparr>direction := dir_of m True\<rparr>, (snd st)\<lparr>direction := dir_of m False\<rparr>]"

lemma load_aim:
  "na_mgt_load_profiles [] (\<lambda>l p. l @ [p]) m st = (aim m st, hd (aim m st), hd (tl (aim m st)))"
  "ae_mgt_load_profiles [] (\<lambda>l p. l @ [p]) m st = (aim m st, hd (aim m st), hd (tl (aim m st)))"
  "aa_mgt_load_profiles [] (\<lambda>l p. l @ [p]) m st = (aim m st, hd (aim m st), hd (tl (aim m st)))"
  by (cases m; cases st; simp add: na_mgt_load_profiles_def na_get_point_to_point_profiles_def
      ae_mgt_load_profiles_def ae_get_point_to_point_profiles_def
      aa_mgt_load_profiles_def aa_get_point_to_point_profiles_def aim_def)+

fun opposite :: "profile_dir \<Rightarrow> profile_dir" where
  "opposite PROFILE_DIR_UP = PROFILE_DIR_DOWN"
| "opposite PROFILE_DIR_DOWN = PROFILE_DIR_UP"

text \<open>Two peers agree: the same profiles in the same order, but each sent in the opposite direction,
  one of them up and one of them down, under different rule identifiers.\<close>

definition peers_agree :: "frag_profile list \<Rightarrow> frag_profile list \<Rightarrow> bool" where
  "peers_agree dev app \<longleftrightarrow>
     app = map (\<lambda>p. p\<lparr>direction := opposite (direction p)\<rparr>) dev
     \<and> distinct (map rule_id dev) \<and> distinct (map direction dev)"

lemma aim_agree:
  "rule_id (fst st) \<noteq> rule_id (snd st) \<Longrightarrow> st' = ((fst st)\<lparr>direction := d\<rparr>, (snd st)\<lparr>direction := e\<rparr>) \<Longrightarrow>
    peers_agree (aim SDK_DEVICE_MODE st) (aim SDK_APP_MODE st')"
  by (simp add: peers_agree_def aim_def)

text \<open>In each of the three variants, a device and an application built from the same file agree
  on their fragmentation profiles, whatever directions earlier calls have left in the static
  profiles: what one peer sends under a rule identifier the other receives under it, with equal
  parameters, and each has one profile for each direction. For ACK-on-Error this needs the two
  rule identifiers of the SDK's headers to differ.\<close>

lemma frag_peers_agree:
  assumes "up_id \<noteq> down_id"
  shows "peers_agree
      (fst (na_mgt_load_profiles [] (\<lambda>l p. l @ [p]) SDK_DEVICE_MODE (up_noack_profile i, down_noack_profile i)))
      (fst (na_mgt_load_profiles [] (\<lambda>l p. l @ [p]) SDK_APP_MODE
        ((up_noack_profile i)\<lparr>direction := d\<rparr>, (down_noack_profile i)\<lparr>direction := e\<rparr>)))
    \<and> peers_agree
      (fst (ae_mgt_load_profiles [] (\<lambda>l p. l @ [p]) SDK_DEVICE_MODE (up_aoe_profile up_id, down_aoe_profile down_id)))
      (fst (ae_mgt_load_profiles [] (\<lambda>l p. l @ [p]) SDK_APP_MODE
        ((up_aoe_profile up_id)\<lparr>direction := d\<rparr>, (down_aoe_profile down_id)\<lparr>direction := e\<rparr>)))
    \<and> peers_agree
      (fst (aa_mgt_load_profiles [] (\<lambda>l p. l @ [p]) SDK_DEVICE_MODE (aa_up_profile i, aa_down_profile i)))
      (fst (aa_mgt_load_profiles [] (\<lambda>l p. l @ [p]) SDK_APP_MODE
        ((aa_up_profile i)\<lparr>direction := d\<rparr>, (aa_down_profile i)\<lparr>direction := e\<rparr>)))"
proof (intro conjI)
  show "peers_agree
      (fst (na_mgt_load_profiles [] (\<lambda>l p. l @ [p]) SDK_DEVICE_MODE (up_noack_profile i, down_noack_profile i)))
      (fst (na_mgt_load_profiles [] (\<lambda>l p. l @ [p]) SDK_APP_MODE
        ((up_noack_profile i)\<lparr>direction := d\<rparr>, (down_noack_profile i)\<lparr>direction := e\<rparr>)))"
    unfolding load_aim fst_conv by (rule aim_agree) (simp_all add: up_noack_profile_def down_noack_profile_def)
  show "peers_agree
      (fst (ae_mgt_load_profiles [] (\<lambda>l p. l @ [p]) SDK_DEVICE_MODE (up_aoe_profile up_id, down_aoe_profile down_id)))
      (fst (ae_mgt_load_profiles [] (\<lambda>l p. l @ [p]) SDK_APP_MODE
        ((up_aoe_profile up_id)\<lparr>direction := d\<rparr>, (down_aoe_profile down_id)\<lparr>direction := e\<rparr>)))"
    unfolding load_aim fst_conv
    by (rule aim_agree) (use assms in \<open>simp_all add: up_aoe_profile_def down_aoe_profile_def\<close>)
  show "peers_agree
      (fst (aa_mgt_load_profiles [] (\<lambda>l p. l @ [p]) SDK_DEVICE_MODE (aa_up_profile i, aa_down_profile i)))
      (fst (aa_mgt_load_profiles [] (\<lambda>l p. l @ [p]) SDK_APP_MODE
        ((aa_up_profile i)\<lparr>direction := d\<rparr>, (aa_down_profile i)\<lparr>direction := e\<rparr>)))"
    unfolding load_aim fst_conv by (rule aim_agree) (simp_all add: aa_up_profile_def aa_down_profile_def)
qed

text \<open>
  The limits RFC 8724 puts on a profile: the rule identifier fits its size, a window index fits
  the FCN field (section 8.4), the tiles of an ACK-on-Error profile are whole L2 words, and the
  acknowledgement requests of an ACK-Always profile end before the inactivity timer does.
\<close>

definition rfc8724_profile :: "frag_profile \<Rightarrow> bool" where
  "rfc8724_profile p \<longleftrightarrow> rule_id p < 2 ^ rule_id_size_bits p \<and> 1 \<le> frag_n p
     \<and> (case params p of
          Na q \<Rightarrow> mode p = FRAG_MODE_NA
        | Ae q \<Rightarrow> mode p = FRAG_MODE_AOE \<and> 1 \<le> ae_window_size q \<and> ae_window_size q < 2 ^ frag_n p
            \<and> tile_size_bits q mod l2_word_size_bits p = 0 \<and> 1 \<le> ae_m q
        | Aa q \<Rightarrow> mode p = FRAG_MODE_AA \<and> 1 \<le> aa_window_size q \<and> aa_window_size q < 2 ^ frag_n p
            \<and> aa_max_ack_requests q * ack_req_dn_opportunity q * ack_rt_exp_time q < it_exp_time p
            \<and> idle_polling_time q < it_exp_time p)"

text \<open>The bytes an ACK-on-Error session can carry: its windows of tiles.\<close>

definition ae_capacity :: "frag_profile \<Rightarrow> nat option" where
  "ae_capacity p = (case params p of
     Ae q \<Rightarrow> Some (2 ^ ae_m q * ae_window_size q * tile_size_bits q div 8) | _ \<Rightarrow> None)"

text \<open>Every profile the three variants load keeps the limits of RFC 8724, and the ACK-on-Error
  profiles carry packets of up to 1008 bytes: more than the 256 bytes of the Linux worker, less
  than the 1500 bytes the LPWAN applications announce as their largest payload.\<close>

lemma frag_profiles_within_limits:
  assumes "i < 255" and "up_id < 256" and "down_id < 256"
  shows "list_all rfc8724_profile
      (fst (na_mgt_load_profiles [] (\<lambda>l p. l @ [p]) m (up_noack_profile i, down_noack_profile i))
       @ fst (ae_mgt_load_profiles [] (\<lambda>l p. l @ [p]) m (up_aoe_profile up_id, down_aoe_profile down_id))
       @ fst (aa_mgt_load_profiles [] (\<lambda>l p. l @ [p]) m (aa_up_profile i, aa_down_profile i)))
    \<and> map ae_capacity (fst (ae_mgt_load_profiles [] (\<lambda>l p. l @ [p]) m (up_aoe_profile up_id, down_aoe_profile down_id)))
      = [Some 1008, Some 1008]"
  unfolding load_aim fst_conv
  using assms
  by (simp add: aim_def rfc8724_profile_def ae_capacity_def up_noack_profile_def down_noack_profile_def
      up_aoe_profile_def down_aoe_profile_def aa_up_profile_def aa_down_profile_def aa_timers)

lemma frag_profiles_within_limits_witness:
  "map ae_capacity (fst (ae_mgt_load_profiles [] (\<lambda>l p. l @ [p]) SDK_APP_MODE (up_aoe_profile 20, down_aoe_profile 21)))
      = [Some 1008, Some 1008]"
  using frag_profiles_within_limits [of 10 20 21 SDK_APP_MODE] by simp

end
