(* ===== verification/Sdk_Glue.thy ===== *)
theory Sdk_Glue
  imports Platform_Timers
begin

text \<open>
  The callbacks the applications register with the SDK's management interface: the three timers it
  may use, and the flag that asks the main loop to call \<open>mgt_process\<close>. The same code stands in
  \<open>applications/schc_worker_linux/src/main.c\<close> and in \<open>libs/schc_commons/src/schc_helper.c\<close>.

  A timer object's callback, a function pointer, is the number of the handler here: handler \<open>i\<close>
  calls \<open>mgt_timer_timeout(i)\<close>.
\<close>

datatype sdk_timer_event = Sdk_timer_event nat

record glue =
  mgt_process_request :: bool
  sdk_timers :: "(sdk_timer_event, unit) timer_event list"
  os :: os_timers
  cleaner_table :: cleaner

definition NB_SDK_TIMERS :: nat where
  "NB_SDK_TIMERS = 3"

text \<open>One \<open>TimerInit(&sdk_timers[i], sdk_timer_<i+1>_event)\<close>; \<open>r\<close> holds the outcomes of its system
  calls.\<close>

definition init_sdk_timer :: "nat \<Rightarrow> bool \<times> timer_id option \<Rightarrow> glue \<Rightarrow> glue" where
  "init_sdk_timer i r g =
     (case TimerInit (fst r) (snd r) (Sdk_timer_event i) (sdk_timers g ! i, os g, cleaner_table g) of
        (obj, os', c) \<Rightarrow> g\<lparr>sdk_timers := (sdk_timers g)[i := obj], os := os', cleaner_table := c\<rparr>)"

definition init_sdk_timers ::
    "bool \<times> timer_id option \<Rightarrow> bool \<times> timer_id option \<Rightarrow> bool \<times> timer_id option \<Rightarrow> glue \<Rightarrow> glue" where
  "init_sdk_timers r0 r1 r2 g = init_sdk_timer 2 r2 (init_sdk_timer 1 r1 (init_sdk_timer 0 r0 g))"

definition cb_mgt_processing_required :: "glue \<Rightarrow> glue" where
  "cb_mgt_processing_required g = g\<lparr>mgt_process_request := True\<rparr>"

text \<open>The identifier indexes the array unchecked.\<close>

definition cb_start_timer :: "bool \<Rightarrow> byte \<Rightarrow> u32 \<Rightarrow> glue \<Rightarrow> glue ub" where
  "cb_start_timer ok tid ms g =
     (if unat tid \<ge> NB_SDK_TIMERS then None
      else let i = unat tid;
               (obj, os') = TimerStart ok (TimerSetValue ms (sdk_timers g ! i), os g)
           in Some (g\<lparr>sdk_timers := (sdk_timers g)[i := obj], os := os'\<rparr>))"

definition cb_stop_timer :: "bool \<Rightarrow> byte \<Rightarrow> glue \<Rightarrow> glue ub" where
  "cb_stop_timer ok tid g =
     (if unat tid \<ge> NB_SDK_TIMERS then None
      else let i = unat tid;
               (obj, os') = TimerStop ok (sdk_timers g ! i, os g)
           in Some (g\<lparr>sdk_timers := (sdk_timers g)[i := obj], os := os'\<rparr>))"

text \<open>The expiry of timer \<open>i\<close>: the number its handler passes to \<open>mgt_timer_timeout\<close>, None when the
  timer was not armed.\<close>

definition timer_expired :: "nat \<Rightarrow> glue \<Rightarrow> glue \<times> nat option" where
  "timer_expired i g =
     (case expire (sdk_timers g ! i, os g) of
        ((obj, os'), call) \<Rightarrow>
          (g\<lparr>sdk_timers := (sdk_timers g)[i := obj], os := os'\<rparr>,
           map_option (\<lambda>(cb, ctx). case cb of Sdk_timer_event k \<Rightarrow> k) call))"

section \<open>Properties\<close>

text \<open>Three timers with handlers 0, 1 and 2, each with a timer of the system of its own.\<close>

definition timers_ready :: "glue \<Rightarrow> bool" where
  "timers_ready g \<longleftrightarrow> length (sdk_timers g) = NB_SDK_TIMERS
     \<and> map callback (sdk_timers g) = [Sdk_timer_event 0, Sdk_timer_event 1, Sdk_timer_event 2]
     \<and> distinct (map timerid (sdk_timers g)) \<and> timerid ` set (sdk_timers g) \<subseteq> set (created (os g))
     \<and> (\<forall>i < NB_SDK_TIMERS. started (sdk_timers g ! i) \<longleftrightarrow> armed (os g) (timerid (sdk_timers g ! i)) \<noteq> None)"

lemma list3: "length xs = 3 \<longleftrightarrow> (\<exists>a b c. xs = [a, b, c])"
  by (auto simp: numeral_3_eq_3 length_Suc_conv)

lemma less3: "(\<forall>i < (3 :: nat). P i) \<longleftrightarrow> P 0 \<and> P 1 \<and> P 2"
  by (auto simp: numeral_3_eq_3 less_Suc_eq numeral_2_eq_2)

lemma timers_ready_3:
  "timers_ready g \<longleftrightarrow> (\<exists>a b c. sdk_timers g = [a, b, c]
     \<and> callback a = Sdk_timer_event 0 \<and> callback b = Sdk_timer_event 1 \<and> callback c = Sdk_timer_event 2
     \<and> distinct [timerid a, timerid b, timerid c] \<and> {timerid a, timerid b, timerid c} \<subseteq> set (created (os g))
     \<and> (\<forall>t \<in> {a, b, c}. started t \<longleftrightarrow> armed (os g) (timerid t) \<noteq> None))"
  by (auto simp: timers_ready_def NB_SDK_TIMERS_def list3 less3)

lemma ready_nth:
  assumes "timers_ready g" and "i < 3"
  shows "timerid (sdk_timers g ! i) \<in> set (created (os g))"
    and "started (sdk_timers g ! i) \<longleftrightarrow> armed (os g) (timerid (sdk_timers g ! i)) \<noteq> None"
    and "callback (sdk_timers g ! i) = Sdk_timer_event i"
proof -
  have "i = 0 \<or> i = 1 \<or> i = 2"
    using assms(2) by auto
  then show "timerid (sdk_timers g ! i) \<in> set (created (os g))"
    and "started (sdk_timers g ! i) \<longleftrightarrow> armed (os g) (timerid (sdk_timers g ! i)) \<noteq> None"
    and "callback (sdk_timers g ! i) = Sdk_timer_event i"
    using assms(1) unfolding timers_ready_3 by (auto elim!: disjE)
qed

lemma init_ready:
  assumes "length (sdk_timers g) = 3" and "distinct [t0, t1, t2]"
  shows "timers_ready (init_sdk_timers (True, Some t0) (True, Some t1) (True, Some t2) g)"
proof -
  obtain a b c where "sdk_timers g = [a, b, c]"
    using assms(1) by (auto simp: list3)
  then show ?thesis
    using assms(2)
    by (simp add: timers_ready_3 init_sdk_timers_def init_sdk_timer_def TimerInit_def timer_create_def Let_def)
qed

lemma ready_upd:
  assumes "timers_ready g" and "i < 3"
    and "timerid obj = timerid (sdk_timers g ! i)" and "callback obj = callback (sdk_timers g ! i)"
    and "created os' = created (os g)"
    and "\<And>t. t \<noteq> timerid obj \<Longrightarrow> armed os' t = armed (os g) t"
    and "started obj \<longleftrightarrow> armed os' (timerid obj) \<noteq> None"
  shows "timers_ready (g\<lparr>sdk_timers := (sdk_timers g)[i := obj], os := os'\<rparr>)"
proof -
  from assms(2) have "i = 0 \<or> i = 1 \<or> i = 2" by auto
  then show ?thesis
    using assms(1,3-) unfolding timers_ready_3 by (elim disjE) force+
qed

lemma cb_start_timer_ready:
  assumes "timers_ready g" and "d \<noteq> 0" and "cb_start_timer ok tid d g = Some g'"
  shows "timers_ready g'"
proof -
  let ?i = "unat tid"
  have i: "?i < 3"
    using assms(3) by (simp add: cb_start_timer_def NB_SDK_TIMERS_def split: if_splits)
  have nz: "duration (TimerSetValue d (sdk_timers g ! ?i)) \<noteq> timespec_zero"
  proof
    assume "duration (TimerSetValue d (sdk_timers g ! ?i)) = timespec_zero"
    then have "unat d = 0"
      using set_value_ms(1) [of d "sdk_timers g ! ?i"] by (simp add: timespec_zero_def)
    then show False
      using assms(2) by (simp add: unsigned_eq_0_iff)
  qed
  note timer = ready_nth [OF assms(1) i]
  obtain obj os' where st: "TimerStart ok (TimerSetValue d (sdk_timers g ! ?i), os g) = (obj, os')"
    by fastforce
  then have "timers_ready (g\<lparr>sdk_timers := (sdk_timers g)[?i := obj], os := os'\<rparr>)"
    using nz timer
    by (intro ready_upd [OF assms(1) i])
      (auto simp: TimerStart_def TimerSetValue_def timer_settime_def split: if_splits)
  then show ?thesis
    using assms(3) st i by (simp add: cb_start_timer_def NB_SDK_TIMERS_def)
qed

lemma expired_ready:
  assumes "timers_ready g" and "i < 3"
  shows "timers_ready (fst (timer_expired i g))"
    and "snd (timer_expired i g) = (if started (sdk_timers g ! i) then Some i else None)"
proof -
  obtain obj os' call where e: "expire (sdk_timers g ! i, os g) = ((obj, os'), call)"
    by (metis prod.exhaust)
  note timer = ready_nth [OF assms]
  have "timers_ready (g\<lparr>sdk_timers := (sdk_timers g)[i := obj], os := os'\<rparr>)"
    using e timer by (intro ready_upd [OF assms]) (auto simp: expire_def sighandler_def split: if_splits)
  then show "timers_ready (fst (timer_expired i g))"
    by (simp add: timer_expired_def e)
  show "snd (timer_expired i g) = (if started (sdk_timers g ! i) then Some i else None)"
    using e timer by (auto simp: timer_expired_def expire_def sighandler_def split: if_splits)
qed

lemma cb_stop_timer_ready:
  assumes "timers_ready g" and "cb_stop_timer ok tid g = Some g'"
  shows "timers_ready g'"
proof -
  let ?i = "unat tid"
  have i: "?i < 3"
    using assms(2) by (simp add: cb_stop_timer_def NB_SDK_TIMERS_def split: if_splits)
  note timer = ready_nth [OF assms(1) i]
  obtain obj os' where st: "TimerStop ok (sdk_timers g ! ?i, os g) = (obj, os')"
    by fastforce
  then have "timers_ready (g\<lparr>sdk_timers := (sdk_timers g)[?i := obj], os := os'\<rparr>)"
    using timer by (intro ready_upd [OF assms(1) i]) (auto simp: TimerStop_def timer_settime_def split: if_splits)
  then show ?thesis
    using assms(2) st i by (simp add: cb_stop_timer_def NB_SDK_TIMERS_def)
qed

text \<open>The states the applications' timers go through, from three successful \<open>TimerInit\<close> calls on.\<close>

inductive glue_reachable :: "glue \<Rightarrow> bool" where
  init: "length (sdk_timers g) = NB_SDK_TIMERS \<Longrightarrow> distinct [t0, t1, t2] \<Longrightarrow>
    glue_reachable (init_sdk_timers (True, Some t0) (True, Some t1) (True, Some t2) g)"
| start: "glue_reachable g \<Longrightarrow> ms \<noteq> 0 \<Longrightarrow> cb_start_timer ok tid ms g = Some g' \<Longrightarrow> glue_reachable g'"
| stop: "glue_reachable g \<Longrightarrow> cb_stop_timer ok tid g = Some g' \<Longrightarrow> glue_reachable g'"
| expiry: "glue_reachable g \<Longrightarrow> i < NB_SDK_TIMERS \<Longrightarrow> glue_reachable (fst (timer_expired i g))"
| request: "glue_reachable g \<Longrightarrow> glue_reachable (cb_mgt_processing_required g)"

lemma glue_reachable_ready: "glue_reachable g \<Longrightarrow> timers_ready g"
proof (induction rule: glue_reachable.induct)
  case (init g t0 t1 t2)
  then show ?case
    by (intro init_ready) (simp_all add: NB_SDK_TIMERS_def)
next
  case (request g)
  then show ?case
    by (simp add: timers_ready_def cb_mgt_processing_required_def)
qed (auto intro: cb_start_timer_ready cb_stop_timer_ready expired_ready(1) simp: NB_SDK_TIMERS_def)

text \<open>In every reachable state, the three timers of the stack do not interfere: when the stack
  starts timer \<open>tid\<close>, its expiry calls \<open>mgt_timer_timeout(tid)\<close>, and only once; the other timers
  expire or not as they would have without it. An identifier beyond 2 leaves the timer array.\<close>

lemma sdk_timers_independent:
  assumes "glue_reachable g" and "ms \<noteq> 0"
  shows "case cb_start_timer True tid ms g of
      None \<Rightarrow> 3 \<le> unat tid
    | Some g' \<Rightarrow> unat tid < 3 \<and> snd (timer_expired (unat tid) g') = Some (unat tid)
        \<and> snd (timer_expired (unat tid) (fst (timer_expired (unat tid) g'))) = None
        \<and> (\<forall>i < 3. i = unat tid \<or> snd (timer_expired i g') = snd (timer_expired i g))"
proof (cases "cb_start_timer True tid ms g")
  case None
  then show ?thesis
    by (auto simp: cb_start_timer_def NB_SDK_TIMERS_def Let_def split: if_splits prod.splits)
next
  case (Some g')
  let ?i = "unat tid"
  have i: "?i < 3"
    using Some by (simp add: cb_start_timer_def NB_SDK_TIMERS_def split: if_splits)
  have g: "timers_ready g"
    by (rule glue_reachable_ready) (rule assms(1))
  have g': "timers_ready g'"
    by (rule cb_start_timer_ready [OF g assms(2) Some])
  have len: "length (sdk_timers g) = 3"
    using g by (simp add: timers_ready_def NB_SDK_TIMERS_def)
  have g'_eq: "sdk_timers g' = (sdk_timers g)[?i := fst (TimerStart True (TimerSetValue ms (sdk_timers g ! ?i), os g))]"
    using Some i by (auto simp: cb_start_timer_def NB_SDK_TIMERS_def Let_def split: prod.splits)
  have st: "started (sdk_timers g' ! ?i)"
    using ready_nth(1) [OF g i] i len
    by (simp add: g'_eq TimerStart_def timer_settime_def TimerSetValue_def)
  have "\<not> started (sdk_timers (fst (timer_expired ?i g')) ! ?i)"
    using i len ready_nth(2) [OF g' i] st
    by (auto simp: timer_expired_def expire_def sighandler_def g'_eq split: prod.split)
  moreover have "snd (timer_expired j g') = snd (timer_expired j g)" if "j < 3" "j \<noteq> ?i" for j
    using expired_ready(2) [OF g that(1)] expired_ready(2) [OF g' that(1)] that by (simp add: g'_eq)
  ultimately show ?thesis
    using Some i st expired_ready(2) [OF g' i] expired_ready(2) [OF expired_ready(1) [OF g' i] i] by auto
qed

definition example_glue :: glue where
  "example_glue = init_sdk_timers (True, Some 7) (True, Some 8) (True, Some 9)
     \<lparr>mgt_process_request = False,
      sdk_timers = replicate 3 \<lparr>timerid = 0, duration = timespec_zero, callback = Sdk_timer_event 0,
        cb_context = None, started = False\<rparr>,
      os = no_timers, cleaner_table = cleaner_init\<rparr>"

lemma sdk_timers_independent_witness:
  "case cb_start_timer True 1 250 example_glue of None \<Rightarrow> False | Some g' \<Rightarrow> snd (timer_expired 1 g') = Some 1"
proof -
  have "glue_reachable example_glue"
    unfolding example_glue_def by (rule glue_reachable.init) (simp_all add: NB_SDK_TIMERS_def)
  from sdk_timers_independent [OF this, of 250 1] show ?thesis
    by (simp split: option.splits)
qed

end
