(* ===== verification/Schc_Helper.thy ===== *)
theory Schc_Helper
  imports Sdk_Glue C_Lib Frag_Api
begin

text \<open>
  The configuration helper of the LPWAN applications, \<open>libs/schc_commons/src/schc_helper.c\<close>: a
  configuration is started, filled by the \<open>with_\<dots>\<close> functions and handed to the SDK by
  \<open>config_schc\<close>. The values of template parameters are allocated on the heap.

  The heap holds the blocks this module allocated: a map from block numbers to their contents.
  Freeing a block that is not there, writing past one and following NULL are undefined.
  Parameters: which allocations succeed, \<open>inet_pton\<close> (None for a string it rejects; the
  uninitialised array on the stack is then copied) and the SDK.
\<close>

section \<open>State\<close>

definition MAX_TEMPLATE_PARAMS :: nat where "MAX_TEMPLATE_PARAMS = 50"
definition IPV4_STR_MAX_LEN :: nat where "IPV4_STR_MAX_LEN = 16"
definition UDP_PORT_STR_MAX_LEN :: nat where "UDP_PORT_STR_MAX_LEN = 6"
definition IPV6_ADDR_BYTES :: nat where "IPV6_ADDR_BYTES = 16"
definition IPV6_ADDR_PREFIX_BYTES :: nat where "IPV6_ADDR_PREFIX_BYTES = 8"
definition UDP_PORT_BYTES :: nat where "UDP_PORT_BYTES = 2"

record l2_addr =
  addr :: string
  port :: string

record schc_template_param =
  param_value :: "nat option"
  param_size :: u16
  param_initialized :: bool

text \<open>\<open>params\<close> is NULL or points to the static array \<open>template_params\<close>: \<open>params_set\<close>.\<close>

record 'cb schc_config =
  config_mtu :: u16
  host_addr :: l2_addr
  dst_addr :: l2_addr
  net_callbacks :: "'cb option"
  config_mode :: sdk_mode
  params_set :: bool

datatype schc_config_result = SCHC_CONFIG_OK | SCHC_CONFIG_KO

record 'cb helper =
  initialized :: bool
  staging_config :: "'cb schc_config"
  template_params :: "schc_template_param list"
  heap :: "nat \<rightharpoonup> memory"
  next_block :: nat
  callbacks :: glue

definition null_param :: schc_template_param where
  "null_param = \<lparr>param_value = None, param_size = 0, param_initialized = False\<rparr>"

definition zero_config :: "'cb schc_config" where
  "zero_config = \<lparr>config_mtu = 0, host_addr = \<lparr>addr = [], port = []\<rparr>, dst_addr = \<lparr>addr = [], port = []\<rparr>,
     net_callbacks = None, config_mode = SDK_DEVICE_MODE, params_set = False\<rparr>"

text \<open>The static initialisers.\<close>

definition helper_initial :: "glue \<Rightarrow> 'cb helper" where
  "helper_initial g = \<lparr>initialized = False, staging_config = zero_config,
     template_params = replicate MAX_TEMPLATE_PARAMS null_param, heap = Map.empty, next_block = 0,
     callbacks = g\<rparr>"

section \<open>The heap\<close>

definition free_block :: "nat option \<Rightarrow> 'cb helper \<Rightarrow> 'cb helper ub" where
  "free_block v h =
     (case v of
        None \<Rightarrow> Some h
      | Some b \<Rightarrow> if heap h b = None then None else Some (h\<lparr>heap := (heap h)(b := None)\<rparr>))"

text \<open>The macro \<open>INIT_PARAM\<close> on \<open>staging_config.params[i]\<close>: the size is set in any case, the block is
  allocated and zeroed once. A failed \<open>malloc\<close> is not tested for.\<close>

definition init_param :: "(nat \<Rightarrow> bool) \<Rightarrow> nat \<Rightarrow> nat \<Rightarrow> 'cb helper \<Rightarrow> 'cb helper ub" where
  "init_param malloc_ok i sz h =
     (if \<not> params_set (staging_config h) \<or> i \<ge> MAX_TEMPLATE_PARAMS then None
      else let p = (template_params h ! i)\<lparr>param_size := of_nat sz\<rparr> in
        if \<not> param_initialized p then
          (if \<not> malloc_ok sz then None
           else Some (h\<lparr>template_params := (template_params h)[i :=
                    p\<lparr>param_value := Some (next_block h), param_initialized := True\<rparr>],
                  heap := (heap h)(next_block h \<mapsto> replicate sz 0), next_block := next_block h + 1\<rparr>))
        else Some (h\<lparr>template_params := (template_params h)[i := p]\<rparr>))"

text \<open>\<open>memcpy(param->value, bytes, length bytes)\<close>\<close>

definition copy_param :: "nat \<Rightarrow> memory \<Rightarrow> 'cb helper \<Rightarrow> 'cb helper ub" where
  "copy_param i bytes h =
     do {
       b \<leftarrow> param_value (template_params h ! i);
       m \<leftarrow> heap h b;
       m \<leftarrow> store m 0 bytes;
       Some (h\<lparr>heap := (heap h)(b \<mapsto> m)\<rparr>)
     }"

section \<open>Operations\<close>

fun clean_loop :: "nat \<Rightarrow> nat \<Rightarrow> 'cb helper \<Rightarrow> 'cb helper ub" where
  "clean_loop 0 i h = Some h"
| "clean_loop (Suc k) i h =
     do {
       h \<leftarrow> free_block (param_value (template_params h ! i)) h;
       clean_loop k (i + 1) (h\<lparr>template_params := (template_params h)[i := null_param]\<rparr>)
     }"

definition clean_params :: "'cb helper \<Rightarrow> (schc_config_result \<times> 'cb helper) ub" where
  "clean_params h =
     (if \<not> params_set (staging_config h) then None
      else do { h \<leftarrow> clean_loop MAX_TEMPLATE_PARAMS 0 h; Some (SCHC_CONFIG_OK, h) })"

definition start_config :: "'cb helper \<Rightarrow> (schc_config_result \<times> 'cb helper) ub" where
  "start_config h =
     do {
       h \<leftarrow> (if initialized h then map_option snd (clean_params h) else Some h);
       let h = h\<lparr>staging_config := zero_config\<rparr>;
       Some (SCHC_CONFIG_OK, h\<lparr>staging_config := (staging_config h)\<lparr>params_set := True\<rparr>, initialized := True\<rparr>)
     }"

definition with_mtu :: "u16 \<Rightarrow> 'cb helper \<Rightarrow> 'cb helper" where
  "with_mtu mtu h = h\<lparr>staging_config := (staging_config h)\<lparr>config_mtu := mtu\<rparr>\<rparr>"

definition with_sdk_mode :: "sdk_mode \<Rightarrow> 'cb helper \<Rightarrow> 'cb helper" where
  "with_sdk_mode m h = h\<lparr>staging_config := (staging_config h)\<lparr>config_mode := m\<rparr>\<rparr>"

definition with_net_callbacks :: "'cb \<Rightarrow> 'cb helper \<Rightarrow> 'cb helper" where
  "with_net_callbacks cbs h = h\<lparr>staging_config := (staging_config h)\<lparr>net_callbacks := Some cbs\<rparr>\<rparr>"

text \<open>\<open>strcpy\<close> into an array of \<open>cap\<close> characters.\<close>

definition strcpy :: "nat \<Rightarrow> string \<Rightarrow> string ub" where
  "strcpy cap s = (if length s < cap then Some s else None)"

definition with_tunnel :: "string \<Rightarrow> string \<Rightarrow> string \<Rightarrow> string \<Rightarrow> 'cb helper \<Rightarrow> 'cb helper ub" where
  "with_tunnel host_ip host_port dst_ip dst_port h =
     do {
       ha \<leftarrow> strcpy IPV4_STR_MAX_LEN host_ip;
       hp \<leftarrow> strcpy UDP_PORT_STR_MAX_LEN host_port;
       da \<leftarrow> strcpy IPV4_STR_MAX_LEN dst_ip;
       dp \<leftarrow> strcpy UDP_PORT_STR_MAX_LEN dst_port;
       Some (h\<lparr>staging_config := (staging_config h)\<lparr>host_addr := \<lparr>addr = ha, port = hp\<rparr>,
               dst_addr := \<lparr>addr = da, port = dp\<rparr>\<rparr>\<rparr>)
     }"

text \<open>The 16 bytes the conversion leaves in the local array.\<close>

definition addr_bytes :: "(string \<Rightarrow> memory option) \<Rightarrow> memory \<Rightarrow> string \<Rightarrow> memory" where
  "addr_bytes inet_pton stack a = (case inet_pton a of None \<Rightarrow> stack | Some bs \<Rightarrow> bs)"

definition with_ipv6_src_param ::
    "(nat \<Rightarrow> bool) \<Rightarrow> (string \<Rightarrow> memory option) \<Rightarrow> memory \<Rightarrow> string \<Rightarrow> 'cb helper \<Rightarrow> 'cb helper ub" where
  "with_ipv6_src_param malloc_ok inet_pton stack dev_addr h =
     do {
       let src_addr = addr_bytes inet_pton stack dev_addr;
       h \<leftarrow> init_param malloc_ok 0 IPV6_ADDR_PREFIX_BYTES h;
       prefix \<leftarrow> load src_addr 0 IPV6_ADDR_PREFIX_BYTES;
       h \<leftarrow> copy_param 0 prefix h;
       h \<leftarrow> init_param malloc_ok 1 (IPV6_ADDR_BYTES - IPV6_ADDR_PREFIX_BYTES) h;
       iid \<leftarrow> load src_addr IPV6_ADDR_PREFIX_BYTES (unat (param_size (template_params h ! 1)));
       copy_param 1 iid h
     }"

definition with_ipv6_dst_param ::
    "(nat \<Rightarrow> bool) \<Rightarrow> (string \<Rightarrow> memory option) \<Rightarrow> memory \<Rightarrow> string \<Rightarrow> 'cb helper \<Rightarrow> 'cb helper ub" where
  "with_ipv6_dst_param malloc_ok inet_pton stack app_addr h =
     do {
       let dst_addr = addr_bytes inet_pton stack app_addr;
       h \<leftarrow> init_param malloc_ok 2 IPV6_ADDR_PREFIX_BYTES h;
       prefix \<leftarrow> load dst_addr 0 IPV6_ADDR_PREFIX_BYTES;
       h \<leftarrow> copy_param 2 prefix h;
       h \<leftarrow> init_param malloc_ok 3 (IPV6_ADDR_BYTES - IPV6_ADDR_PREFIX_BYTES) h;
       iid \<leftarrow> load dst_addr IPV6_ADDR_PREFIX_BYTES (unat (param_size (template_params h ! 3)));
       copy_param 3 iid h
     }"

text \<open>\<open>htons(atoi(s))\<close> and the two bytes it has in memory.\<close>

definition port_memory :: "string \<Rightarrow> memory" where
  "port_memory s = (let p = htons (of_int (atoi s)) in [lo16 p, hi16 p])"

definition with_ipv6_udp_src_param :: "(nat \<Rightarrow> bool) \<Rightarrow> string \<Rightarrow> 'cb helper \<Rightarrow> 'cb helper ub" where
  "with_ipv6_udp_src_param malloc_ok src_param h =
     do { h \<leftarrow> init_param malloc_ok 4 UDP_PORT_BYTES h; copy_param 4 (port_memory src_param) h }"

definition with_ipv6_udp_dst_param :: "(nat \<Rightarrow> bool) \<Rightarrow> string \<Rightarrow> 'cb helper \<Rightarrow> 'cb helper ub" where
  "with_ipv6_udp_dst_param malloc_ok dst_param h =
     do { h \<leftarrow> init_param malloc_ok 5 UDP_PORT_BYTES h; copy_param 5 (port_memory dst_param) h }"

text \<open>
  \<open>config_schc\<close>. \<open>timer\<close> holds the outcomes of the system calls of \<open>TimerInit\<close>. The SDK: whether \<open>mgt_initialize\<close> and \<open>net_initialize\<close> succeed, the number of template
  parameters it reports, and which parameters it accepts. What the function tells the SDK and the
  link layer is recorded: the MTU, the tunnel endpoints of the \<open>udp\<close> stack, the mode, the
  template parameters in the order they are set, and the callbacks.
\<close>

record 'cb sdk_setup =
  sdk_mtu :: "u16 option"
  sdk_tunnel :: "(l2_addr \<times> l2_addr) option"
  sdk_mode_set :: "sdk_mode option"
  sdk_params :: "(nat \<times> memory) list"
  sdk_callbacks :: "'cb option"

definition no_setup :: "'cb sdk_setup" where
  "no_setup = \<lparr>sdk_mtu = None, sdk_tunnel = None, sdk_mode_set = None, sdk_params = [], sdk_callbacks = None\<rparr>"

text \<open>The loop over the parameters: false when the SDK refused one.\<close>

fun set_params ::
    "(nat \<Rightarrow> memory \<Rightarrow> bool) \<Rightarrow> nat \<Rightarrow> nat \<Rightarrow> 'cb helper \<Rightarrow> (nat \<times> memory) list \<Rightarrow> (bool \<times> (nat \<times> memory) list) ub" where
  "set_params accept 0 i h done = Some (True, done)"
| "set_params accept (Suc k) i h done =
     (if i \<ge> MAX_TEMPLATE_PARAMS then None
      else if param_initialized (template_params h ! i) then do {
        b \<leftarrow> param_value (template_params h ! i);
        m \<leftarrow> heap h b;
        v \<leftarrow> load m 0 (unat (param_size (template_params h ! i)));
        if \<not> accept i v then Some (False, done) else set_params accept k (i + 1) h (done @ [(i, v)])
      }
      else set_params accept k (i + 1) h done)"

definition finish :: "schc_config_result \<Rightarrow> 'cb sdk_setup \<Rightarrow> 'cb helper \<Rightarrow>
    (schc_config_result \<times> 'cb sdk_setup \<times> 'cb helper) ub" where
  "finish r s h = do { (x, h) \<leftarrow> clean_params h; Some (r, s, h\<lparr>initialized := False\<rparr>) }"

definition config_schc ::
    "(nat \<Rightarrow> bool \<times> timer_id option) \<Rightarrow> bool \<Rightarrow> byte \<Rightarrow> (nat \<Rightarrow> memory \<Rightarrow> bool) \<Rightarrow> bool \<Rightarrow> 'cb helper \<Rightarrow>
     (schc_config_result \<times> 'cb sdk_setup \<times> 'cb helper) ub" where
  "config_schc timer mgt_ok nb_params accept net_ok h =
     (if \<not> initialized h then finish SCHC_CONFIG_KO no_setup h
      else let h = h\<lparr>callbacks := init_sdk_timers (timer 0) (timer 1) (timer 2) (callbacks h)\<rparr>;
               c = staging_config h;
               s = no_setup\<lparr>sdk_mtu := Some (config_mtu c), sdk_tunnel := Some (host_addr c, dst_addr c),
                     sdk_mode_set := Some (config_mode c)\<rparr>
      in if \<not> mgt_ok then finish SCHC_CONFIG_KO s h
      else do {
        (ok, ps) \<leftarrow> set_params accept (unat nb_params) 0 h [];
        let s = s\<lparr>sdk_params := ps\<rparr>;
        if \<not> ok then finish SCHC_CONFIG_KO s h
        else let s = s\<lparr>sdk_callbacks := net_callbacks c\<rparr> in
          if \<not> net_ok then Some (SCHC_CONFIG_KO, s, h)
          else finish SCHC_CONFIG_OK s h
      })"

section \<open>The callbacks of the SDK\<close>

text \<open>The three timer handlers, the request for processing and the timer operations, on the timers
  of this module; handler \<open>sdk_timer_<i+1>_event\<close> hands \<open>i\<close> to \<open>mgt_timer_timeout\<close>.\<close>

definition helper_sdk_timer_event :: "nat \<Rightarrow> 'cb helper \<Rightarrow> 'cb helper \<times> nat option" where
  "helper_sdk_timer_event i h =
     (case timer_expired i (callbacks h) of (g, timeout) \<Rightarrow> (h\<lparr>callbacks := g\<rparr>, timeout))"

definition helper_cb_mgt_processing_required :: "'cb helper \<Rightarrow> 'cb helper" where
  "helper_cb_mgt_processing_required h =
     h\<lparr>callbacks := (callbacks h)\<lparr>mgt_process_request := True\<rparr>\<rparr>"

text \<open>The identifier indexes the array unchecked, as in the worker.\<close>

definition helper_cb_start_timer :: "bool \<Rightarrow> byte \<Rightarrow> u32 \<Rightarrow> 'cb helper \<Rightarrow> 'cb helper ub" where
  "helper_cb_start_timer ok tid ms h =
     (let g = callbacks h; i = unat tid in
      if i \<ge> NB_SDK_TIMERS then None
      else let (obj, os') = TimerStart ok (TimerSetValue ms (sdk_timers g ! i), os g)
           in Some (h\<lparr>callbacks := g\<lparr>sdk_timers := (sdk_timers g)[i := obj], os := os'\<rparr>\<rparr>))"

definition helper_cb_stop_timer :: "bool \<Rightarrow> byte \<Rightarrow> 'cb helper \<Rightarrow> 'cb helper ub" where
  "helper_cb_stop_timer ok tid h =
     (let g = callbacks h; i = unat tid in
      if i \<ge> NB_SDK_TIMERS then None
      else let (obj, os') = TimerStop ok (sdk_timers g ! i, os g)
           in Some (h\<lparr>callbacks := g\<lparr>sdk_timers := (sdk_timers g)[i := obj], os := os'\<rparr>\<rparr>))"

text \<open>They do to the timers of this module what the worker's do to the worker's.\<close>

lemma helper_callbacks_as_worker:
  "helper_cb_start_timer ok tid ms h = map_option (\<lambda>g. h\<lparr>callbacks := g\<rparr>) (cb_start_timer ok tid ms (callbacks h))"
  "helper_cb_stop_timer ok tid h = map_option (\<lambda>g. h\<lparr>callbacks := g\<rparr>) (cb_stop_timer ok tid (callbacks h))"
  "helper_cb_mgt_processing_required h = h\<lparr>callbacks := cb_mgt_processing_required (callbacks h)\<rparr>"
  by (simp_all add: helper_cb_start_timer_def cb_start_timer_def helper_cb_stop_timer_def cb_stop_timer_def
      helper_cb_mgt_processing_required_def cb_mgt_processing_required_def Let_def split: prod.splits)

end
