(* ===== verification/Schc_Helper_Props.thy ===== *)
theory Schc_Helper_Props
  imports Schc_Helper
begin

text \<open>
  Properties of the configuration helper: its heap blocks are owned by exactly one template parameter
  each, the parameters behave like a finite map from indices to values, and what reaches the SDK.
\<close>

section \<open>The parameters as a map\<close>

definition size_of :: "nat \<Rightarrow> nat" where
  "size_of i = (if i < 4 then 8 else 2)"

definition contents :: "'cb helper \<Rightarrow> nat \<rightharpoonup> memory" where
  "contents h i = (if i < MAX_TEMPLATE_PARAMS then
     (case param_value (template_params h ! i) of None \<Rightarrow> None | Some b \<Rightarrow> heap h b) else None)"

text \<open>A parameter has a value exactly when it is initialised; the value is a block of the size its
  index always has, no two parameters share one, and no other block is allocated.\<close>

definition param_ok :: "'cb helper \<Rightarrow> nat \<Rightarrow> schc_template_param \<Rightarrow> bool" where
  "param_ok h i p \<longleftrightarrow> (param_initialized p \<longleftrightarrow> param_value p \<noteq> None)
     \<and> (\<forall>b. param_value p = Some b \<longrightarrow> i < 6 \<and> param_size p = of_nat (size_of i) \<and> b < next_block h
          \<and> (\<exists>m. heap h b = Some m \<and> length m = size_of i))"

definition helper_inv :: "'cb helper \<Rightarrow> bool" where
  "helper_inv h \<longleftrightarrow> length (template_params h) = MAX_TEMPLATE_PARAMS
     \<and> (\<forall>i < MAX_TEMPLATE_PARAMS. param_ok h i (template_params h ! i))
     \<and> (\<forall>i < MAX_TEMPLATE_PARAMS. \<forall>j < MAX_TEMPLATE_PARAMS. \<forall>b.
          param_value (template_params h ! i) = Some b \<longrightarrow> param_value (template_params h ! j) = Some b \<longrightarrow> i = j)
     \<and> (\<forall>b. heap h b \<noteq> None \<longrightarrow> (\<exists>i < MAX_TEMPLATE_PARAMS. param_value (template_params h ! i) = Some b))
     \<and> (initialized h \<longrightarrow> params_set (staging_config h))"

lemma helper_invD:
  assumes "helper_inv h"
  shows "length (template_params h) = MAX_TEMPLATE_PARAMS"
    and "i < MAX_TEMPLATE_PARAMS \<Longrightarrow> param_ok h i (template_params h ! i)"
    and "i < MAX_TEMPLATE_PARAMS \<Longrightarrow> j < MAX_TEMPLATE_PARAMS \<Longrightarrow>
      param_value (template_params h ! i) = Some b \<Longrightarrow> param_value (template_params h ! j) = Some b \<Longrightarrow> i = j"
    and "heap h b \<noteq> None \<Longrightarrow> \<exists>i < MAX_TEMPLATE_PARAMS. param_value (template_params h ! i) = Some b"
    and "initialized h \<Longrightarrow> params_set (staging_config h)"
  using assms by (auto simp: helper_inv_def)

lemma inv_initial: "helper_inv (helper_initial g)"
  by (simp add: helper_inv_def helper_initial_def param_ok_def null_param_def)

lemma contents_cong:
  "template_params h = template_params h' \<Longrightarrow> heap h = heap h' \<Longrightarrow> contents h = contents h'"
  by (simp add: contents_def fun_eq_iff split: option.split)

lemma contents_initial: "contents (helper_initial g) = Map.empty"
  by (auto simp: contents_def helper_initial_def null_param_def)

lemma contents_empty_heap: "helper_inv h \<Longrightarrow> contents h = Map.empty \<Longrightarrow> heap h = Map.empty"
  using helper_invD(4) by (fastforce simp: contents_def fun_eq_iff split: if_splits)

text \<open>What the other fields are.\<close>

definition same_config :: "'cb helper \<Rightarrow> 'cb helper \<Rightarrow> bool" where
  "same_config h h' \<longleftrightarrow> staging_config h' = staging_config h \<and> initialized h' = initialized h
     \<and> callbacks h' = callbacks h"

lemma same_config_trans [trans]: "same_config a b \<Longrightarrow> same_config b c \<Longrightarrow> same_config a c"
  by (simp add: same_config_def)

lemma init_param_inv:
  assumes inv: "helper_inv h" and set: "params_set (staging_config h)" and i: "i < 6"
    and ok: "malloc_ok (size_of i)"
  shows "\<exists>h' m. init_param malloc_ok i (size_of i) h = Some h' \<and> helper_inv h' \<and> same_config h h'
    \<and> contents h' = (contents h)(i \<mapsto> m) \<and> length m = size_of i
    \<and> param_size (template_params h' ! i) = of_nat (size_of i)"
proof (cases "param_initialized (template_params h ! i)")
  case True
  have i50: "i < MAX_TEMPLATE_PARAMS"
    using i by (simp add: MAX_TEMPLATE_PARAMS_def)
  note p = helper_invD(2) [OF inv i50]
  obtain b m where b: "param_value (template_params h ! i) = Some b" "heap h b = Some m" "length m = size_of i"
    "param_size (template_params h ! i) = of_nat (size_of i)"
    using p True by (auto simp: param_ok_def)
  have "init_param malloc_ok i (size_of i) h = Some h"
    using True set i50 b(4) helper_invD(1) [OF inv] by (simp add: init_param_def Let_def list_update_same_conv)
  then show ?thesis
    using inv b i50 by (intro exI [of _ h] exI [of _ m]) (auto simp: same_config_def contents_def)
next
  case False
  have i50: "i < MAX_TEMPLATE_PARAMS"
    using i by (simp add: MAX_TEMPLATE_PARAMS_def)
  define nb where "nb = next_block h"
  define p where "p = (template_params h ! i)\<lparr>param_size := of_nat (size_of i), param_value := Some nb, param_initialized := True\<rparr>"
  define h' where "h' = h\<lparr>template_params := (template_params h)[i := p],
      heap := (heap h)(nb \<mapsto> replicate (size_of i) 0), next_block := nb + 1\<rparr>"
  have fresh: "heap h nb = None"
    using helper_invD(2,4) [OF inv] by (fastforce simp: param_ok_def nb_def)
  have notin: "param_value (template_params h ! j) \<noteq> Some nb" if "j < MAX_TEMPLATE_PARAMS" for j
    using helper_invD(2) [OF inv that] fresh by (auto simp: param_ok_def)
  have noval: "param_value (template_params h ! i) = None"
    using helper_invD(2) [OF inv i50] False by (simp add: param_ok_def)
  note len = helper_invD(1) [OF inv]
  have "init_param malloc_ok i (size_of i) h = Some h'"
    using False set i50 ok by (simp add: init_param_def h'_def p_def nb_def Let_def)
  moreover have "helper_inv h'"
    unfolding helper_inv_def
  proof (intro conjI allI impI)
    fix j assume j: "j < MAX_TEMPLATE_PARAMS"
    show "param_ok h' j (template_params h' ! j)"
      using helper_invD(2) [OF inv j] i notin [OF j] len j
      by (cases "j = i") (auto simp: param_ok_def h'_def p_def nb_def)
  next
    fix j k b
    assume "j < MAX_TEMPLATE_PARAMS" "k < MAX_TEMPLATE_PARAMS"
      "param_value (template_params h' ! j) = Some b" "param_value (template_params h' ! k) = Some b"
    then show "j = k"
      using helper_invD(3) [OF inv] notin len i50
      by (cases "j = i"; cases "k = i") (auto simp: h'_def p_def)
  next
    fix b assume "heap h' b \<noteq> None"
    then consider "b = nb" | "heap h b \<noteq> None"
      by (auto simp: h'_def split: if_splits)
    then show "\<exists>j < MAX_TEMPLATE_PARAMS. param_value (template_params h' ! j) = Some b"
    proof cases
      case 1
      then show ?thesis
        using i50 len by (intro exI [of _ i]) (simp add: h'_def p_def)
    next
      case 2
      then show ?thesis
        using helper_invD(4) [OF inv 2] noval by (metis (no_types, lifting) h'_def nth_list_update_neq
            helper.select_convs(3) helper.surjective helper.update_convs(3,4,5) option.distinct(1))
    qed
  qed (use len helper_invD(5) [OF inv] in \<open>simp_all add: h'_def\<close>)
  moreover have "contents h' = (contents h)(i \<mapsto> replicate (size_of i) 0)"
    using notin len i50 by (auto simp: contents_def h'_def p_def fun_eq_iff nth_list_update split: option.split)
  ultimately show ?thesis
    using len i50 by (intro exI [of _ h'] exI [of _ "replicate (size_of i) 0"]) (auto simp: h'_def same_config_def p_def)
qed

lemma copy_param_inv:
  assumes inv: "helper_inv h" and c: "contents h i = Some m" and len: "length bytes = size_of i"
  shows "\<exists>h'. copy_param i bytes h = Some h' \<and> helper_inv h' \<and> same_config h h'
    \<and> contents h' = (contents h)(i \<mapsto> bytes) \<and> template_params h' = template_params h"
proof -
  obtain b where i: "i < MAX_TEMPLATE_PARAMS" and b: "param_value (template_params h ! i) = Some b" "heap h b = Some m"
    using c by (auto simp: contents_def split: if_splits option.splits)
  have m: "length m = size_of i"
    using helper_invD(2) [OF inv i] b by (auto simp: param_ok_def)
  define h' where "h' = h\<lparr>heap := (heap h)(b \<mapsto> bytes)\<rparr>"
  have only: "j = i" if "j < MAX_TEMPLATE_PARAMS" "param_value (template_params h ! j) = Some b" for j
    using helper_invD(3) [OF inv that(1) i that(2) b(1)] .
  have "copy_param i bytes h = Some h'"
    using b m len by (simp add: copy_param_def store_def poke_def h'_def)
  moreover have "param_ok h' j (template_params h ! j)" if "j < MAX_TEMPLATE_PARAMS" for j
    using helper_invD(2) [OF inv that] only [OF that] len by (auto simp: param_ok_def h'_def)
  then have "helper_inv h'"
    using inv b i by (auto simp: helper_inv_def h'_def)
  moreover have "contents h' = (contents h)(i \<mapsto> bytes)"
  proof (rule ext)
    fix j
    show "contents h' j = ((contents h)(i \<mapsto> bytes)) j"
    proof (cases "j = i")
      case True
      then show ?thesis
        using b i by (simp add: contents_def h'_def)
    next
      case False
      then have "j < MAX_TEMPLATE_PARAMS \<Longrightarrow> param_value (template_params h ! j) \<noteq> Some b"
        using only by blast
      then show ?thesis
        using False by (auto simp: contents_def h'_def split: option.split)
    qed
  qed
  ultimately show ?thesis
    by (auto simp: h'_def same_config_def)
qed

text \<open>Allocating if needed and writing: an update of the map.\<close>

definition put :: "(nat \<Rightarrow> bool) \<Rightarrow> nat \<Rightarrow> memory \<Rightarrow> 'cb helper \<Rightarrow> 'cb helper ub" where
  "put malloc_ok i bytes h = do { h \<leftarrow> init_param malloc_ok i (size_of i) h; copy_param i bytes h }"

lemma put_inv:
  assumes "helper_inv h" "params_set (staging_config h)" "i < 6" "malloc_ok (size_of i)" "length bytes = size_of i"
  shows "\<exists>h'. put malloc_ok i bytes h = Some h' \<and> helper_inv h' \<and> same_config h h'
    \<and> contents h' = (contents h)(i \<mapsto> bytes)"
proof -
  obtain h1 m where h1: "init_param malloc_ok i (size_of i) h = Some h1" "helper_inv h1" "same_config h h1"
    "contents h1 = (contents h)(i \<mapsto> m)"
    using init_param_inv [of h i malloc_ok, OF assms(1-4)] by blast
  obtain h2 where "copy_param i bytes h1 = Some h2" "helper_inv h2" "same_config h1 h2"
    "contents h2 = (contents h1)(i \<mapsto> bytes)"
    using copy_param_inv [OF h1(2) _ assms(5), of m] h1(4) by auto
  then show ?thesis
    using h1 by (auto simp: put_def intro: same_config_trans)
qed

text \<open>The addresses an operation is given: 16 bytes, from \<open>inet_pton\<close> or left on the stack.\<close>

abbreviation addr_ok :: "(string \<Rightarrow> memory option) \<Rightarrow> memory \<Rightarrow> string \<Rightarrow> bool" where
  "addr_ok inet_pton stack a \<equiv> length (addr_bytes inet_pton stack a) = IPV6_ADDR_BYTES"

definition mallocs :: "(nat \<Rightarrow> bool) \<Rightarrow> bool" where
  "mallocs malloc_ok \<longleftrightarrow> malloc_ok 8 \<and> malloc_ok 2"

lemma mallocs_size: "mallocs malloc_ok \<Longrightarrow> malloc_ok (size_of i)"
  by (simp add: mallocs_def size_of_def)

lemma two_puts:
  assumes inv: "helper_inv h" "params_set (staging_config h)" and m: "mallocs malloc_ok"
    and i: "i < 6" "j < 6" and len: "length a = size_of i" "length b = size_of j"
  shows "\<exists>h'. do { h \<leftarrow> put malloc_ok i a h; put malloc_ok j b h } = Some h' \<and> helper_inv h' \<and> same_config h h'
    \<and> contents h' = (contents h)(i \<mapsto> a, j \<mapsto> b)"
proof -
  obtain h1 where h1: "put malloc_ok i a h = Some h1" "helper_inv h1" "same_config h h1"
    "contents h1 = (contents h)(i \<mapsto> a)"
    using put_inv [of h i malloc_ok a, OF inv i(1) mallocs_size [OF m] len(1)] by blast
  obtain h2 where "put malloc_ok j b h1 = Some h2" "helper_inv h2" "same_config h1 h2"
    "contents h2 = (contents h1)(j \<mapsto> b)"
    using put_inv [of h1 j malloc_ok b, OF h1(2) _ i(2) mallocs_size [OF m] len(2)] h1(3) inv(2)
    by (auto simp: same_config_def)
  then show ?thesis
    using h1 by (auto intro: same_config_trans)
qed

lemma put_unfold_iid:
  assumes "helper_inv h" "params_set (staging_config h)" "mallocs malloc_ok" "i < 4" "length src = 16"
  shows "do { h \<leftarrow> init_param malloc_ok i 8 h; iid \<leftarrow> load src 8 (unat (param_size (template_params h ! i)));
      copy_param i iid h } = put malloc_ok i (drop 8 src) h"
proof -
  have sz: "size_of i = 8" and i6: "i < 6"
    using assms(4) by (simp_all add: size_of_def)
  obtain h1 where "init_param malloc_ok i (size_of i) h = Some h1" "param_size (template_params h1 ! i) = of_nat (size_of i)"
    using init_param_inv [of h i malloc_ok, OF assms(1,2) i6 mallocs_size [OF assms(3)]] by blast
  then show ?thesis
    using assms(5) by (simp add: put_def sz load_def)
qed

lemma with_ipv6_src_param_put:
  assumes "helper_inv h" "params_set (staging_config h)" "mallocs malloc_ok" "addr_ok inet_pton stack a"
  shows "with_ipv6_src_param malloc_ok inet_pton stack a h =
      do { h \<leftarrow> put malloc_ok 0 (take 8 (addr_bytes inet_pton stack a)) h;
           put malloc_ok 1 (drop 8 (addr_bytes inet_pton stack a)) h }"
proof -
  let ?a = "addr_bytes inet_pton stack a"
  have l: "length ?a = 16" "load ?a 0 8 = Some (take 8 ?a)"
    using assms(4) by (simp_all add: IPV6_ADDR_BYTES_def load_def)
  obtain h1 where h1: "put malloc_ok 0 (take 8 ?a) h = Some h1" "helper_inv h1" "same_config h h1"
    using put_inv [of h 0 malloc_ok "take 8 ?a", OF assms(1,2) _ mallocs_size [OF assms(3)]] l
    by (auto simp: size_of_def)
  have p: "do { h \<leftarrow> init_param malloc_ok 0 8 h; copy_param 0 (take 8 ?a) h } = Some h1"
    using h1(1) by (simp add: put_def size_of_def)
  then obtain h0 where h0: "init_param malloc_ok 0 8 h = Some h0" "copy_param 0 (take 8 ?a) h0 = Some h1"
    by (auto split: Option.bind_split_asm)
  have "params_set (staging_config h1)"
    using h1(3) assms(2) by (simp add: same_config_def)
  from put_unfold_iid [OF h1(2) this assms(3) _ l(1), of 1] show ?thesis
    using h0 l(2) h1(1)
    by (simp add: with_ipv6_src_param_def IPV6_ADDR_PREFIX_BYTES_def IPV6_ADDR_BYTES_def)
qed

lemma with_ipv6_dst_param_put:
  assumes "helper_inv h" "params_set (staging_config h)" "mallocs malloc_ok" "addr_ok inet_pton stack a"
  shows "with_ipv6_dst_param malloc_ok inet_pton stack a h =
      do { h \<leftarrow> put malloc_ok 2 (take 8 (addr_bytes inet_pton stack a)) h;
           put malloc_ok 3 (drop 8 (addr_bytes inet_pton stack a)) h }"
proof -
  let ?a = "addr_bytes inet_pton stack a"
  have l: "length ?a = 16" "load ?a 0 8 = Some (take 8 ?a)"
    using assms(4) by (simp_all add: IPV6_ADDR_BYTES_def load_def)
  obtain h1 where h1: "put malloc_ok 2 (take 8 ?a) h = Some h1" "helper_inv h1" "same_config h h1"
    using put_inv [of h 2 malloc_ok "take 8 ?a", OF assms(1,2) _ mallocs_size [OF assms(3)]] l
    by (auto simp: size_of_def)
  have p: "do { h \<leftarrow> init_param malloc_ok 2 8 h; copy_param 2 (take 8 ?a) h } = Some h1"
    using h1(1) by (simp add: put_def size_of_def)
  then obtain h0 where h0: "init_param malloc_ok 2 8 h = Some h0" "copy_param 2 (take 8 ?a) h0 = Some h1"
    by (auto split: Option.bind_split_asm)
  have "params_set (staging_config h1)"
    using h1(3) assms(2) by (simp add: same_config_def)
  from put_unfold_iid [OF h1(2) this assms(3) _ l(1), of 3] show ?thesis
    using h0 l(2) h1(1)
    by (simp add: with_ipv6_dst_param_def IPV6_ADDR_PREFIX_BYTES_def IPV6_ADDR_BYTES_def)
qed

lemma with_port_put:
  "with_ipv6_udp_src_param malloc_ok s h = put malloc_ok 4 (port_memory s) h"
  "with_ipv6_udp_dst_param malloc_ok s h = put malloc_ok 5 (port_memory s) h"
  by (simp_all add: with_ipv6_udp_src_param_def with_ipv6_udp_dst_param_def put_def size_of_def UDP_PORT_BYTES_def)

lemma length_port_memory [simp]: "length (port_memory s) = 2"
  by (simp add: port_memory_def Let_def)

section \<open>Cleaning and handing over\<close>

lemma clear_param_inv:
  assumes inv: "helper_inv h" and i: "i < MAX_TEMPLATE_PARAMS"
  shows "\<exists>h1. free_block (param_value (template_params h ! i)) h = Some h1
    \<and> helper_inv (h1\<lparr>template_params := (template_params h1)[i := null_param]\<rparr>)
    \<and> same_config h (h1\<lparr>template_params := (template_params h1)[i := null_param]\<rparr>)
    \<and> contents (h1\<lparr>template_params := (template_params h1)[i := null_param]\<rparr>) = (contents h)(i := None)"
proof -
  define v where "v = param_value (template_params h ! i)"
  define h1 where "h1 = h\<lparr>heap := (case v of None \<Rightarrow> heap h | Some b \<Rightarrow> (heap h)(b := None))\<rparr>"
  define h' where "h' = h1\<lparr>template_params := (template_params h1)[i := null_param]\<rparr>"
  note len = helper_invD(1) [OF inv]
  have others: "param_value (template_params h ! j) \<noteq> v" if "j < MAX_TEMPLATE_PARAMS" "j \<noteq> i" "v \<noteq> None" for j
    using helper_invD(3) [OF inv that(1) i] that by (auto simp: v_def)
  have fr: "free_block v h = Some h1"
    using helper_invD(2) [OF inv i] by (auto simp: free_block_def h1_def v_def param_ok_def split: option.split)
  have tp: "template_params h' ! j = (if j = i then null_param else template_params h ! j)" if "j < MAX_TEMPLATE_PARAMS" for j
    using that len by (simp add: h'_def h1_def)
  have heap': "heap h' b = (if v = Some b then None else heap h b)" for b
    by (simp add: h'_def h1_def split: option.split)
  have "param_ok h' j (template_params h' ! j)" if j: "j < MAX_TEMPLATE_PARAMS" for j
  proof (cases "j = i")
    case True
    then show ?thesis using j by (simp add: tp param_ok_def null_param_def)
  next
    case False
    have "next_block h' = next_block h"
      by (simp add: h'_def h1_def)
    with False show ?thesis
      using helper_invD(2) [OF inv j] others [OF j False] j by (auto simp: tp param_ok_def heap')
  qed
  moreover have "\<exists>j < MAX_TEMPLATE_PARAMS. param_value (template_params h' ! j) = Some b" if "heap h' b \<noteq> None" for b
  proof -
    have "heap h b \<noteq> None" "v \<noteq> Some b"
      using that by (auto simp: heap' split: if_splits)
    then obtain j where "j < MAX_TEMPLATE_PARAMS" "param_value (template_params h ! j) = Some b" "j \<noteq> i"
      using helper_invD(4) [OF inv] by (auto simp: v_def)
    then show ?thesis
      by (intro exI [of _ j]) (simp add: tp)
  qed
  moreover have "j = k" if "j < MAX_TEMPLATE_PARAMS" "k < MAX_TEMPLATE_PARAMS"
    "param_value (template_params h' ! j) = Some b" "param_value (template_params h' ! k) = Some b" for j k b
    using that helper_invD(3) [OF inv that(1,2)] by (auto simp: tp null_param_def split: if_splits)
  ultimately have "helper_inv h'"
    using len helper_invD(5) [OF inv] unfolding helper_inv_def by (simp add: h'_def h1_def)
  moreover have "contents h' = (contents h)(i := None)"
  proof (rule ext)
    fix j
    show "contents h' j = ((contents h)(i := None)) j"
      using others [of j] by (auto simp: contents_def tp heap' null_param_def split: option.split)
  qed
  ultimately show ?thesis
    using fr by (intro exI [of _ h1]) (simp add: v_def same_config_def flip: h'_def, simp add: h'_def h1_def)
qed

lemma clean_loop_inv:
  "helper_inv h \<Longrightarrow> i + k = MAX_TEMPLATE_PARAMS \<Longrightarrow>
    \<exists>h'. clean_loop k i h = Some h' \<and> helper_inv h' \<and> same_config h h'
      \<and> contents h' = (\<lambda>j. if j < i then contents h j else None)"
proof (induction k arbitrary: i h)
  case 0
  then show ?case
    by (auto simp: same_config_def contents_def)
next
  case (Suc k)
  let ?clear = "\<lambda>h1. h1\<lparr>template_params := (template_params h1)[i := null_param]\<rparr>"
  obtain h1 where h1: "free_block (param_value (template_params h ! i)) h = Some h1" "helper_inv (?clear h1)"
    "same_config h (?clear h1)" "contents (?clear h1) = (contents h)(i := None)"
    using clear_param_inv [OF Suc.prems(1), of i] Suc.prems(2) by auto
  obtain h' where "clean_loop k (i + 1) (?clear h1) = Some h'" "helper_inv h'" "same_config (?clear h1) h'"
    "contents h' = (\<lambda>j. if j < i + 1 then contents (?clear h1) j else None)"
    using Suc.IH [OF h1(2), of "i + 1"] Suc.prems(2) by auto
  then show ?case
    using h1 by (auto simp: fun_eq_iff intro: same_config_trans)
qed

lemma clean_params_inv:
  assumes "helper_inv h" and "params_set (staging_config h)"
  shows "\<exists>h'. clean_params h = Some (SCHC_CONFIG_OK, h') \<and> helper_inv h' \<and> same_config h h'
    \<and> contents h' = Map.empty \<and> heap h' = Map.empty"
  using clean_loop_inv [OF assms(1), of 0 MAX_TEMPLATE_PARAMS] assms(2)
  by (auto simp: clean_params_def contents_empty_heap)

lemma finish_inv:
  assumes "helper_inv h" and "params_set (staging_config h)"
  shows "\<exists>h'. finish r s h = Some (r, s, h') \<and> helper_inv h' \<and> heap h' = Map.empty
    \<and> contents h' = Map.empty \<and> \<not> initialized h' \<and> staging_config h' = staging_config h"
proof -
  obtain h1 where h1: "clean_params h = Some (SCHC_CONFIG_OK, h1)" "helper_inv h1" "same_config h h1"
    "contents h1 = Map.empty" "heap h1 = Map.empty"
    using clean_params_inv [OF assms] by blast
  have "helper_inv (h1\<lparr>initialized := False\<rparr>)"
    using h1(2) by (simp add: helper_inv_def param_ok_def)
  moreover have "contents (h1\<lparr>initialized := False\<rparr>) = Map.empty"
    using h1(4) contents_cong [of "h1\<lparr>initialized := False\<rparr>" h1] by simp
  ultimately show ?thesis
    using h1 by (simp add: finish_def same_config_def)
qed

definition entries :: "'cb helper \<Rightarrow> nat \<Rightarrow> nat \<Rightarrow> (nat \<times> memory) list" where
  "entries h i k = List.map_filter (\<lambda>j. map_option (Pair j) (contents h j)) [i ..< i + k]"

lemma entries_Suc:
  "entries h i (Suc k) = (case contents h i of None \<Rightarrow> [] | Some v \<Rightarrow> [(i, v)]) @ entries h (i + 1) k"
  using upt_conv_Cons [of i "i + Suc k"] by (simp add: entries_def map_filter_simps split: option.split del: upt_Suc)

lemma set_params_eq:
  "helper_inv h \<Longrightarrow> i + k \<le> MAX_TEMPLATE_PARAMS \<Longrightarrow> set_params accept k i h done =
    Some (list_all (\<lambda>(j, v). accept j v) (entries h i k), done @ takeWhile (\<lambda>(j, v). accept j v) (entries h i k))"
proof (induction accept k i h "done" rule: set_params.induct)
  case (1 accept i h "done")
  then show ?case
    by (simp add: entries_def map_filter_simps)
next
  case (2 accept k i h "done")
  have i: "i < MAX_TEMPLATE_PARAMS"
    using 2(4) by simp
  note p = helper_invD(2) [OF 2(3) i]
  show ?case
  proof (cases "param_initialized (template_params h ! i)")
    case False
    then have "contents h i = None"
      using p by (simp add: contents_def param_ok_def)
    then show ?thesis
      using 2(2) False 2(3,4) i by (simp add: entries_Suc)
  next
    case True
    then obtain b m where b: "param_value (template_params h ! i) = Some b" "heap h b = Some m"
      "length m = size_of i" "param_size (template_params h ! i) = of_nat (size_of i)" "i < 6"
      using p by (auto simp: param_ok_def)
    have c: "contents h i = Some m"
      using b i by (simp add: contents_def)
    have "load m 0 (unat (param_size (template_params h ! i))) = Some m"
      using b by (simp add: load_def size_of_def)
    then show ?thesis
      using 2(1) [of b m m] True 2(3,4) i b c by (simp add: entries_Suc)
  qed
qed

lemma same_contents_callbacks [simp]: "contents (h\<lparr>callbacks := g\<rparr>) = contents h"
  by (rule contents_cong) simp_all

lemma same_inv_callbacks [simp]: "helper_inv (h\<lparr>callbacks := g\<rparr>) \<longleftrightarrow> helper_inv h"
  by (simp add: helper_inv_def param_ok_def)

section \<open>The life of a configuration\<close>

text \<open>The calls an application makes, in any order, with the SDK's callbacks and timer expiries in
  between; the addresses and allocations are as above, and the
  SDK reports at most as many template parameters as the helper has room for.\<close>

inductive helper_reachable :: "'cb helper \<Rightarrow> bool" where
  boot: "helper_reachable (helper_initial g)"
| start: "helper_reachable h \<Longrightarrow> start_config h = Some (r, h') \<Longrightarrow> helper_reachable h'"
| mtu: "helper_reachable h \<Longrightarrow> helper_reachable (with_mtu m h)"
| mode: "helper_reachable h \<Longrightarrow> helper_reachable (with_sdk_mode d h)"
| callbacks: "helper_reachable h \<Longrightarrow> helper_reachable (with_net_callbacks cbs h)"
| tunnel: "helper_reachable h \<Longrightarrow> with_tunnel a b c d h = Some h' \<Longrightarrow> helper_reachable h'"
| src: "helper_reachable h \<Longrightarrow> mallocs malloc_ok \<Longrightarrow> addr_ok inet_pton stack a \<Longrightarrow>
    with_ipv6_src_param malloc_ok inet_pton stack a h = Some h' \<Longrightarrow> helper_reachable h'"
| dst: "helper_reachable h \<Longrightarrow> mallocs malloc_ok \<Longrightarrow> addr_ok inet_pton stack a \<Longrightarrow>
    with_ipv6_dst_param malloc_ok inet_pton stack a h = Some h' \<Longrightarrow> helper_reachable h'"
| udp_src: "helper_reachable h \<Longrightarrow> mallocs malloc_ok \<Longrightarrow> with_ipv6_udp_src_param malloc_ok p h = Some h' \<Longrightarrow>
    helper_reachable h'"
| udp_dst: "helper_reachable h \<Longrightarrow> mallocs malloc_ok \<Longrightarrow> with_ipv6_udp_dst_param malloc_ok p h = Some h' \<Longrightarrow>
    helper_reachable h'"
| config: "helper_reachable h \<Longrightarrow> unat nb \<le> MAX_TEMPLATE_PARAMS \<Longrightarrow>
    config_schc timer mgt_ok nb accept net_ok h = Some (r, s, h') \<Longrightarrow> helper_reachable h'"
| request: "helper_reachable h \<Longrightarrow> helper_reachable (helper_cb_mgt_processing_required h)"
| start_timer: "helper_reachable h \<Longrightarrow> helper_cb_start_timer ok tid ms h = Some h' \<Longrightarrow> helper_reachable h'"
| stop_timer: "helper_reachable h \<Longrightarrow> helper_cb_stop_timer ok tid h = Some h' \<Longrightarrow> helper_reachable h'"
| expiry: "helper_reachable h \<Longrightarrow> i < NB_SDK_TIMERS \<Longrightarrow> helper_reachable (fst (helper_sdk_timer_event i h))"

lemma inv_config [simp]:
  "params_set c = params_set (staging_config h) \<Longrightarrow> helper_inv (h\<lparr>staging_config := c\<rparr>) \<longleftrightarrow> helper_inv h"
  by (simp add: helper_inv_def param_ok_def)

lemma start_config_inv:
  assumes "helper_inv h"
  shows "\<exists>h'. start_config h = Some (SCHC_CONFIG_OK, h') \<and> helper_inv h' \<and> initialized h'
    \<and> (initialized h \<longrightarrow> heap h' = Map.empty)"
proof -
  have fin: "helper_inv (g\<lparr>staging_config := c, initialized := True\<rparr>)" if "helper_inv g" "params_set c"
    for g :: "'a helper" and c
    using that by (simp add: helper_inv_def param_ok_def)
  show ?thesis
  proof (cases "initialized h")
    case True
    then obtain h1 where "clean_params h = Some (SCHC_CONFIG_OK, h1)" "helper_inv h1" "heap h1 = Map.empty"
      using clean_params_inv [OF assms] helper_invD(5) [OF assms] by blast
    then show ?thesis
      using True fin [of h1] by (simp add: start_config_def zero_config_def)
  next
    case False
    then show ?thesis
      using assms fin by (simp add: start_config_def zero_config_def)
  qed
qed

lemma put_set: "put malloc_ok i bytes h = Some h' \<Longrightarrow> params_set (staging_config h)"
  by (auto simp: put_def init_param_def split: Option.bind_split_asm if_splits)

lemma with_addr_set:
  "with_ipv6_src_param malloc_ok inet_pton stack a h = Some h' \<Longrightarrow> params_set (staging_config h)"
  "with_ipv6_dst_param malloc_ok inet_pton stack a h = Some h' \<Longrightarrow> params_set (staging_config h)"
  by (auto simp: with_ipv6_src_param_def with_ipv6_dst_param_def Let_def init_param_def
      split: Option.bind_split_asm if_splits)

lemma config_outcome:
  assumes "helper_inv h" and "initialized h" and "unat nb \<le> MAX_TEMPLATE_PARAMS"
  shows "\<exists>s h'. config_schc timer mgt_ok nb accept net_ok h =
      Some (if mgt_ok \<and> net_ok \<and> list_all (\<lambda>(j, v). accept j v) (entries h 0 (unat nb))
            then SCHC_CONFIG_OK else SCHC_CONFIG_KO, s, h')
    \<and> sdk_params s = (if mgt_ok then takeWhile (\<lambda>(j, v). accept j v) (entries h 0 (unat nb)) else [])
    \<and> sdk_mtu s = Some (config_mtu (staging_config h)) \<and> sdk_mode_set s = Some (config_mode (staging_config h))
    \<and> helper_inv h'
    \<and> (if mgt_ok \<and> list_all (\<lambda>(j, v). accept j v) (entries h 0 (unat nb)) \<and> \<not> net_ok
       then heap h' = heap h \<and> initialized h' else heap h' = Map.empty \<and> \<not> initialized h')"
proof -
  define g where "g = h\<lparr>callbacks := init_sdk_timers (timer 0) (timer 1) (timer 2) (callbacks h)\<rparr>"
  have g: "helper_inv g" "params_set (staging_config g)" "staging_config g = staging_config h" "heap g = heap h"
    using assms(1,2) helper_invD(5) [OF assms(1,2)] by (simp_all add: g_def)
  have e: "entries g = entries h"
    by (simp add: entries_def g_def fun_eq_iff)
  have sp: "set_params accept (unat nb) 0 g [] =
      Some (list_all (\<lambda>(j, v). accept j v) (entries h 0 (unat nb)), takeWhile (\<lambda>(j, v). accept j v) (entries h 0 (unat nb)))"
    using set_params_eq [OF g(1), of 0 "unat nb" accept "[]"] assms(3) e by simp
  have fin: "\<exists>h'. finish r s g = Some (r, s, h') \<and> helper_inv h' \<and> heap h' = Map.empty \<and> \<not> initialized h'" for r s
    using finish_inv [OF g(1,2)] by blast
  consider "\<not> mgt_ok" | "mgt_ok" "\<not> list_all (\<lambda>(j, v). accept j v) (entries h 0 (unat nb))"
    | "mgt_ok" "list_all (\<lambda>(j, v). accept j v) (entries h 0 (unat nb))" "\<not> net_ok"
    | "mgt_ok" "list_all (\<lambda>(j, v). accept j v) (entries h 0 (unat nb))" "net_ok"
    by blast
  then show ?thesis
  proof cases
    case 3
    then show ?thesis
      using assms(2) g sp by (simp add: config_schc_def no_setup_def Let_def flip: g_def) (simp add: g_def assms(2))
  next
    case 1
    then show ?thesis
      using assms(2) g(3) fin by (simp add: config_schc_def no_setup_def Let_def del: One_nat_def flip: g_def)
        (metis sdk_setup.select_convs(1,3,4))
  next
    case 2
    then show ?thesis
      using assms(2) g(3) fin sp by (simp add: config_schc_def no_setup_def Let_def del: One_nat_def flip: g_def)
        (metis sdk_setup.select_convs(1,3,4))
  next
    case 4
    then show ?thesis
      using assms(2) g(3) fin sp by (simp add: config_schc_def no_setup_def Let_def del: One_nat_def flip: g_def)
        (metis sdk_setup.select_convs(1,3,4))
  qed
qed

lemma config_not_started:
  "\<not> initialized h \<Longrightarrow> config_schc timer mgt_ok nb accept net_ok h = finish SCHC_CONFIG_KO no_setup h"
  by (simp add: config_schc_def)

lemma finish_set: "finish r s h = Some (r', s', h') \<Longrightarrow> params_set (staging_config h)"
  by (auto simp: finish_def clean_params_def split: Option.bind_split_asm if_splits)

lemma length_halves:
  "addr_ok inet_pton stack a \<Longrightarrow> length (take 8 (addr_bytes inet_pton stack a)) = 8"
  "addr_ok inet_pton stack a \<Longrightarrow> length (drop 8 (addr_bytes inet_pton stack a)) = 8"
  by (simp_all add: IPV6_ADDR_BYTES_def)

lemma with_ipv6_src_param_inv:
  assumes "helper_inv h" "params_set (staging_config h)" "mallocs malloc_ok" "addr_ok inet_pton stack a"
  shows "\<exists>h'. with_ipv6_src_param malloc_ok inet_pton stack a h = Some h' \<and> helper_inv h' \<and> same_config h h'
    \<and> contents h' = (contents h)(0 \<mapsto> take 8 (addr_bytes inet_pton stack a), 1 \<mapsto> drop 8 (addr_bytes inet_pton stack a))"
  unfolding with_ipv6_src_param_put [OF assms]
  by (rule two_puts [OF assms(1-3)]) (use length_halves [OF assms(4)] in \<open>simp_all add: size_of_def\<close>)

lemma with_ipv6_dst_param_inv:
  assumes "helper_inv h" "params_set (staging_config h)" "mallocs malloc_ok" "addr_ok inet_pton stack a"
  shows "\<exists>h'. with_ipv6_dst_param malloc_ok inet_pton stack a h = Some h' \<and> helper_inv h' \<and> same_config h h'
    \<and> contents h' = (contents h)(2 \<mapsto> take 8 (addr_bytes inet_pton stack a), 3 \<mapsto> drop 8 (addr_bytes inet_pton stack a))"
  unfolding with_ipv6_dst_param_put [OF assms]
  by (rule two_puts [OF assms(1-3)]) (use length_halves [OF assms(4)] in \<open>simp_all add: size_of_def\<close>)

lemma with_port_inv:
  assumes "helper_inv h" "params_set (staging_config h)" "mallocs malloc_ok"
  shows "\<exists>h'. with_ipv6_udp_src_param malloc_ok s h = Some h' \<and> helper_inv h' \<and> same_config h h'
      \<and> contents h' = (contents h)(4 \<mapsto> port_memory s)"
    and "\<exists>h'. with_ipv6_udp_dst_param malloc_ok s h = Some h' \<and> helper_inv h' \<and> same_config h h'
      \<and> contents h' = (contents h)(5 \<mapsto> port_memory s)"
  unfolding with_port_put
  by (rule put_inv; use assms in \<open>simp add: mallocs_def size_of_def\<close>)+

lemma helper_reachable_inv: "helper_reachable h \<Longrightarrow> helper_inv h"
proof (induction rule: helper_reachable.induct)
  case (boot g)
  show ?case by (rule inv_initial)
next
  case (start h r h')
  then show ?case
    using start_config_inv [of h] by auto
next
  case (tunnel h a b c d h')
  then show ?case
    by (auto simp: with_tunnel_def split: Option.bind_split_asm)
next
  case (src h malloc_ok inet_pton stack a h')
  then show ?case
    using with_ipv6_src_param_inv [OF src(5) with_addr_set(1) [OF src(4)] src(2,3)] by auto
next
  case (dst h malloc_ok inet_pton stack a h')
  then show ?case
    using with_ipv6_dst_param_inv [OF dst(5) with_addr_set(2) [OF dst(4)] dst(2,3)] by auto
next
  case (udp_src h malloc_ok p h')
  then have "params_set (staging_config h)"
    by (auto simp: with_port_put dest: put_set)
  then show ?case
    using with_port_inv(1) [of h malloc_ok p] udp_src by auto
next
  case (udp_dst h malloc_ok p h')
  then have "params_set (staging_config h)"
    by (auto simp: with_port_put dest: put_set)
  then show ?case
    using with_port_inv(2) [of h malloc_ok p] udp_dst by auto
next
  case (config h nb timer mgt_ok accept net_ok r s h')
  show ?case
  proof (cases "initialized h")
    case True
    then show ?thesis
      using config_outcome [OF config(4) True config(2), of timer mgt_ok accept net_ok] config(3) by auto
  next
    case False
    then show ?thesis
      using config(3,4) finish_set [of SCHC_CONFIG_KO no_setup h] finish_inv [OF config(4)]
      by (fastforce simp: config_not_started)
  qed
next
  case (start_timer h ok tid ms h')
  then show ?case
    by (auto simp: helper_callbacks_as_worker)
next
  case (stop_timer h ok tid h')
  then show ?case
    by (auto simp: helper_callbacks_as_worker)
qed (simp_all add: with_mtu_def with_sdk_mode_def with_net_callbacks_def helper_callbacks_as_worker(3)
    helper_sdk_timer_event_def split: prod.splits)

text \<open>C36: Whatever calls, callbacks and timer expiries came before, every heap block belongs to exactly one template parameter, and
  once a configuration is started, \<open>config_schc\<close> returns without freeing a block twice or reading
  one past its end, succeeds exactly when the SDK accepts everything, and frees every block, unless
  \<open>net_initialize\<close> fails: then the blocks stay allocated until the next \<open>start_config\<close>,
  which frees them.\<close>

theorem config_releases_memory:
  assumes "helper_reachable h" and "initialized h" and "unat nb \<le> MAX_TEMPLATE_PARAMS"
  shows "(\<forall>b m. heap h b = Some m \<longrightarrow> (\<exists>!i. i < MAX_TEMPLATE_PARAMS \<and> param_value (template_params h ! i) = Some b))
    \<and> (\<exists>r s h'. config_schc timer mgt_ok nb accept net_ok h = Some (r, s, h')
        \<and> (r = SCHC_CONFIG_OK \<longleftrightarrow> mgt_ok \<and> net_ok \<and> list_all (\<lambda>(j, v). accept j v) (entries h 0 (unat nb)))
        \<and> (if mgt_ok \<and> list_all (\<lambda>(j, v). accept j v) (entries h 0 (unat nb)) \<and> \<not> net_ok
           then heap h' = heap h else heap h' = Map.empty)
        \<and> (\<exists>h2. start_config h' = Some (SCHC_CONFIG_OK, h2) \<and> heap h2 = Map.empty))"
proof (intro conjI allI impI)
  note inv = helper_reachable_inv [OF assms(1)]
  fix b m assume "heap h b = Some m"
  then show "\<exists>!i. i < MAX_TEMPLATE_PARAMS \<and> param_value (template_params h ! i) = Some b"
    using helper_invD(3,4) [OF inv] by (metis option.distinct(1))
next
  note inv = helper_reachable_inv [OF assms(1)]
  have empty: "heap h2 = Map.empty" if "start_config h' = Some (r, h2)" "heap h' = Map.empty" "helper_inv h'" for h' h2 :: "'a helper" and r
    using that start_config_inv [OF that(3)] by (cases "initialized h'") (auto simp: start_config_def)
  obtain s h' where c: "config_schc timer mgt_ok nb accept net_ok h =
      Some (if mgt_ok \<and> net_ok \<and> list_all (\<lambda>(j, v). accept j v) (entries h 0 (unat nb))
            then SCHC_CONFIG_OK else SCHC_CONFIG_KO, s, h')" "helper_inv h'"
    "if mgt_ok \<and> list_all (\<lambda>(j, v). accept j v) (entries h 0 (unat nb)) \<and> \<not> net_ok
       then heap h' = heap h \<and> initialized h' else heap h' = Map.empty \<and> \<not> initialized h'"
    using config_outcome [OF inv assms(2,3), of timer mgt_ok accept net_ok] by blast
  obtain h2 where h2: "start_config h' = Some (SCHC_CONFIG_OK, h2)" "initialized h' \<longrightarrow> heap h2 = Map.empty"
    using start_config_inv [OF c(2)] by blast
  then have "heap h2 = Map.empty"
    using empty [OF h2(1) _ c(2)] c(3) by (auto split: if_splits)
  then show "\<exists>r s h'. config_schc timer mgt_ok nb accept net_ok h = Some (r, s, h')
        \<and> (r = SCHC_CONFIG_OK \<longleftrightarrow> mgt_ok \<and> net_ok \<and> list_all (\<lambda>(j, v). accept j v) (entries h 0 (unat nb)))
        \<and> (if mgt_ok \<and> list_all (\<lambda>(j, v). accept j v) (entries h 0 (unat nb)) \<and> \<not> net_ok
           then heap h' = heap h else heap h' = Map.empty)
        \<and> (\<exists>h2. start_config h' = Some (SCHC_CONFIG_OK, h2) \<and> heap h2 = Map.empty)"
    using c h2(1) by (simp split: if_splits)
qed

definition started_helper :: "nat helper" where
  "started_helper = snd (the (start_config (helper_initial example_glue)))"

lemma started_helper_ok:
  "start_config (helper_initial example_glue) = Some (SCHC_CONFIG_OK, started_helper)" "initialized started_helper"
  by (simp_all add: started_helper_def start_config_def helper_initial_def)

definition port_helper :: "nat helper" where
  "port_helper = the (with_ipv6_udp_src_param (\<lambda>_. True) ''5683'' started_helper)"

lemma port_helper_ok:
  "with_ipv6_udp_src_param (\<lambda>_. True) ''5683'' started_helper = Some port_helper"
  "initialized port_helper" "heap port_helper 0 = Some [0x16, 0x33]"
proof -
  have "with_ipv6_udp_src_param (\<lambda>_. True) ''5683'' started_helper \<noteq> None
    \<and> initialized port_helper \<and> heap port_helper 0 = Some [0x16, 0x33]"
    unfolding port_helper_def started_helper_def by code_simp
  then show "with_ipv6_udp_src_param (\<lambda>_. True) ''5683'' started_helper = Some port_helper"
    "initialized port_helper" "heap port_helper 0 = Some [0x16, 0x33]"
    by (auto simp: port_helper_def)
qed

lemma port_helper_reachable: "helper_reachable port_helper"
  by (rule helper_reachable.udp_src [OF helper_reachable.start [OF helper_reachable.boot started_helper_ok(1)] _ port_helper_ok(1)])
    (simp add: mallocs_def)

theorem config_releases_memory_witness:
  "(\<exists>!i. i < MAX_TEMPLATE_PARAMS \<and> param_value (template_params port_helper ! i) = Some 0)
    \<and> (\<exists>r s h'. config_schc (\<lambda>i. (True, Some i)) True 6 (\<lambda>_ _. True) False port_helper = Some (r, s, h')
        \<and> r \<noteq> SCHC_CONFIG_OK \<and> heap h' 0 = Some [0x16, 0x33])"
proof -
  have "unat (6 :: byte) \<le> MAX_TEMPLATE_PARAMS"
    by (simp add: MAX_TEMPLATE_PARAMS_def)
  note c = config_releases_memory [OF port_helper_reachable port_helper_ok(2) this,
      of "\<lambda>i. (True, Some i)" True "\<lambda>_ _. True" False]
  have all: "list_all (\<lambda>(j, v). True) (entries port_helper 0 (unat (6 :: byte)))"
    by (simp add: list_all_iff)
  have own: "\<exists>!i. i < MAX_TEMPLATE_PARAMS \<and> param_value (template_params port_helper ! i) = Some 0"
    using c [THEN conjunct1] port_helper_ok(3) by blast
  obtain r s h' where "config_schc (\<lambda>i. (True, Some i)) True 6 (\<lambda>_ _. True) False port_helper = Some (r, s, h')"
    "r \<noteq> SCHC_CONFIG_OK" "heap h' = heap port_helper"
    using c [THEN conjunct2] all by auto
  then show ?thesis
    using own port_helper_ok(3) by auto
qed

section \<open>What the SDK receives\<close>

lemma entries_all:
  assumes "\<forall>i < length vs. contents h i = Some (vs ! i)" and "\<forall>i \<ge> length vs. contents h i = None"
  shows "entries h 0 n = take n (enumerate 0 vs)"
proof (induction n)
  case 0
  show ?case by (simp add: entries_def map_filter_simps)
next
  case (Suc n)
  have "entries h 0 (Suc n) = entries h 0 n @ (case contents h n of None \<Rightarrow> [] | Some v \<Rightarrow> [(n, v)])"
    by (simp add: entries_def List.map_filter_def split: option.split)
  then show ?case
    using assms Suc by (cases "n < length vs") (simp_all add: take_Suc_conv_app_nth nth_enumerate_eq)
qed

text \<open>The four calls that set both addresses and both ports.\<close>

definition set_all_params ::
    "(nat \<Rightarrow> bool) \<Rightarrow> (string \<Rightarrow> memory option) \<Rightarrow> memory \<Rightarrow> string \<Rightarrow> string \<Rightarrow> string \<Rightarrow> string \<Rightarrow>
     'cb helper \<Rightarrow> 'cb helper ub" where
  "set_all_params malloc_ok inet_pton stack src src_port dst dst_port h =
     do {
       h \<leftarrow> with_ipv6_src_param malloc_ok inet_pton stack src h;
       h \<leftarrow> with_ipv6_udp_src_param malloc_ok src_port h;
       h \<leftarrow> with_ipv6_dst_param malloc_ok inet_pton stack dst h;
       with_ipv6_udp_dst_param malloc_ok dst_port h
     }"

lemma set_all_params_inv:
  assumes inv: "helper_inv h" and set: "params_set (staging_config h)" and m: "mallocs malloc_ok"
    and pton: "inet_pton src = Some (sp @ si)" "inet_pton dst = Some (dp @ di)"
    and len: "length sp = 8" "length si = 8" "length dp = 8" "length di = 8"
  shows "\<exists>h'. set_all_params malloc_ok inet_pton stack src src_port dst dst_port h = Some h' \<and> helper_inv h'
    \<and> same_config h h'
    \<and> entries h' 0 n = take n [(0, sp), (1, si), (2, dp), (3, di), (4, port_memory src_port), (5, port_memory dst_port)]"
proof -
  have ok: "addr_ok inet_pton stack src" "addr_ok inet_pton stack dst"
    using pton len by (simp_all add: addr_bytes_def IPV6_ADDR_BYTES_def)
  obtain h1 where h1: "with_ipv6_src_param malloc_ok inet_pton stack src h = Some h1" "helper_inv h1" "same_config h h1"
    "contents h1 = (contents h)(0 \<mapsto> sp, 1 \<mapsto> si)"
    using with_ipv6_src_param_inv [OF inv set m ok(1)] pton(1) len(1) by (auto simp: addr_bytes_def)
  obtain h2 where h2: "with_ipv6_udp_src_param malloc_ok src_port h1 = Some h2" "helper_inv h2" "same_config h1 h2"
    "contents h2 = (contents h1)(4 \<mapsto> port_memory src_port)"
    using with_port_inv(1) [OF h1(2) _ m] h1(3) set by (auto simp: same_config_def)
  obtain h3 where h3: "with_ipv6_dst_param malloc_ok inet_pton stack dst h2 = Some h3" "helper_inv h3" "same_config h2 h3"
    "contents h3 = (contents h2)(2 \<mapsto> dp, 3 \<mapsto> di)"
    using with_ipv6_dst_param_inv [OF h2(2) _ m ok(2)] h1(3) h2(3) set pton(2) len(3)
    by (auto simp: addr_bytes_def same_config_def)
  obtain h4 where h4: "with_ipv6_udp_dst_param malloc_ok dst_port h3 = Some h4" "helper_inv h4" "same_config h3 h4"
    "contents h4 = (contents h3)(5 \<mapsto> port_memory dst_port)"
    using with_port_inv(2) [OF h3(2) _ m] h1(3) h2(3) h3(3) set by (auto simp: same_config_def)
  let ?vs = "[sp, si, dp, di, port_memory src_port, port_memory dst_port]"
  have "contents h4 i = None" if "i \<ge> 6" for i
    using helper_invD(2) [OF h4(2), of i] that
    by (auto simp: contents_def param_ok_def split: option.split)
  moreover have "contents h4 i = Some (?vs ! i)" if "i < 6" for i
    using that by (auto simp: h4(4) h3(4) h2(4) h1(4) less_Suc_eq numeral_eq_Suc)
  ultimately have e: "entries h4 0 n = take n (enumerate 0 ?vs)"
    by (intro entries_all) simp_all
  have en: "enumerate 0 ?vs = [(0, sp), (1, si), (2, dp), (3, di), (4, port_memory src_port), (5, port_memory dst_port)]"
    by (simp add: eval_nat_numeral)
  have "set_all_params malloc_ok inet_pton stack src src_port dst dst_port h = Some h4"
    by (simp only: set_all_params_def h1(1) h2(1) h3(1) h4(1) Option.bind.bind_lunit)
  moreover have "same_config h h4"
    using h1(3) h2(3) h3(3) h4(3) by (blast intro: same_config_trans)
  ultimately show ?thesis
    using h4(2) e unfolding en by blast
qed

lemma accept_all: "list_all (\<lambda>(j, v). True) xs" "takeWhile (\<lambda>(j, v). True) xs = xs" for xs :: "(nat \<times> memory) list"
  by (simp_all add: list_all_iff takeWhile_eq_all_conv)

lemma config_all_accepted:
  assumes "helper_inv h" and "initialized h" and "unat nb \<le> MAX_TEMPLATE_PARAMS"
  shows "\<exists>s h'. config_schc timer True nb (\<lambda>_ _. True) True h = Some (SCHC_CONFIG_OK, s, h')
    \<and> sdk_params s = entries h 0 (unat nb) \<and> sdk_mtu s = Some (config_mtu (staging_config h))
    \<and> sdk_mode_set s = Some (config_mode (staging_config h)) \<and> helper_inv h' \<and> heap h' = Map.empty"
  using config_outcome [OF assms, of timer True "\<lambda>_ _. True" True] by (auto simp: accept_all)


definition example_pton :: "string \<Rightarrow> memory option" where
  "example_pton a = Some (replicate 8 1 @ replicate 8 (of_nat (length a)))"


section \<open>Operations before a configuration is started\<close>

text \<open>Before the first \<open>start_config\<close> the array of parameters is a NULL pointer, and nothing checks
  for it: \<open>config_schc\<close>, which tests that a configuration was started and means to return an
  error, cleans the parameters on its way out and dereferences NULL, and so do the four functions
  that set a parameter.\<close>

lemma use_before_start_faults:
  "config_schc timer mgt_ok nb accept net_ok (helper_initial g) = None
    \<and> with_ipv6_src_param malloc_ok inet_pton stack a (helper_initial g) = None
    \<and> with_ipv6_dst_param malloc_ok inet_pton stack a (helper_initial g) = None
    \<and> with_ipv6_udp_src_param malloc_ok s (helper_initial g) = None
    \<and> with_ipv6_udp_dst_param malloc_ok s (helper_initial g) = None"
  by (simp add: config_schc_def finish_def clean_params_def with_ipv6_src_param_def with_ipv6_dst_param_def
      with_ipv6_udp_src_param_def with_ipv6_udp_dst_param_def init_param_def helper_initial_def zero_config_def Let_def)

end
