(* ===== verification/Worker_Main.thy ===== *)
theory Worker_Main
  imports Schc_Al L2_Ahoi Sdk_Glue Frag_Api
begin

text \<open>
  The Linux worker, \<open>applications/schc_worker_linux/src/main.c\<close>: it sets the link and the SDK up,
  initialises the adaptation layer and runs the event loop until a signal asks it to end.

  The worker composes the adaptation layer, the L2 adapter for the ahoi modem, the table of watched
  descriptors and the callbacks of the SDK. There is one table: it is put into the state of a
  module when one of its functions is called and taken back afterwards. The stack above the
  adapter (the field \<open>upper\<close> there) is the worker's callback state together with the SDK's own state \<open>'s\<close>.

  Parameters: the SDK's functions, which may change everything the SDK can reach (the two modules,
  the table, the callback state and its own), what happens outside in each turn of the loop, and
  the parameters of the modules. The \<open>udp\<close> and \<open>udp6\<close> links belong to the SDK; their
  addresses are not modelled.
\<close>

section \<open>State\<close>

record ('ctx, 's) io =
  io_al :: "'ctx al"
  io_l2 :: "(glue \<times> 's) l2a"
  io_table :: "fd_callback slot list"

datatype main_call = Mgt_process | Al_process schc_al_process_status | Slept sleep

record ('ctx, 's) worker =
  io :: "('ctx, 's) io"
  ext :: ext_state
  main_sdk_mode :: sdk_mode
  terminate_flag :: bool
  log :: "main_call list"

text \<open>The build options.\<close>

record main_config =
  al_options :: al_config
  ahoi_stack :: bool
  L2_MAX_MTU :: u16
  L2_TX_DELAY :: u32
  main_ahoi_port :: string
  main_ahoi_id :: byte
  IPv6_ADDRESS :: string
  IPv6_PEER_ADDRESS :: string
  UDP_HOST_PORT :: string
  UDP_PEER_PORT :: string

text \<open>The SDK. The callback of the L2 adapter gets the state the adapter can see.\<close>

record ('ctx, 's) sdk_api =
  mgt_initialize :: "('ctx, 's) io \<Rightarrow> (bool \<times> ('ctx, 's) io) ub"
  net_initialize :: "('ctx, 's) io \<Rightarrow> (bool \<times> ('ctx, 's) io) ub"
  mgt_process :: "('ctx, 's) io \<Rightarrow> (bool \<times> ('ctx, 's) io) ub"
  mgt_timer_timeout :: "nat \<Rightarrow> ('ctx, 's) io \<Rightarrow> ('ctx, 's) io ub"
  l2_callbacks :: "(glue \<times> 's) sdk"
  sdk_compress :: sdk_codec
  sdk_net_sendto :: net_sendto

text \<open>What happens outside: at the initialisation, and in one turn of the loop. The timers that expire
  before the turn's checks and during the sleep, what the TUN device delivers, the result of
  \<open>poll\<close> with the ready slots, and whether SIGINT or SIGTERM arrives. The signal only sets a
  flag the loop reads at its head, so its exact place in the turn does not matter.\<close>

record 'ctx boot =
  timer_results :: "nat \<Rightarrow> bool \<times> timer_id option"
  context_init :: "init_params \<Rightarrow> err \<times> 'ctx"
  tun_open :: int
  tun_ioctl :: "string \<Rightarrow> string option"
  run_system :: "string \<Rightarrow> bool"
  sigaction_ok :: bool
  boot_pton :: "string \<Rightarrow> memory option"

record turn =
  expired_early :: "nat list"
  tun_reads :: "read_result list"
  poll_ret :: int
  poll_ready :: "nat \<Rightarrow> bool"
  expired_asleep :: "nat list"
  signalled :: bool

section \<open>Calls across the modules\<close>

definition on_al :: "('ctx al \<Rightarrow> ('r \<times> 'ctx al) ub) \<Rightarrow> ('ctx, 's) io \<Rightarrow> ('r \<times> ('ctx, 's) io) ub" where
  "on_al f m =
     do { (r, a) \<leftarrow> f ((io_al m)\<lparr>fds := io_table m\<rparr>); Some (r, m\<lparr>io_al := a, io_table := fds a\<rparr>) }"

definition on_l2 ::
    "((glue \<times> 's) l2a \<Rightarrow> (glue \<times> 's) l2a ub) \<Rightarrow> ('ctx, 's) io \<Rightarrow> ('ctx, 's) io ub" where
  "on_l2 f m =
     do { l \<leftarrow> f ((io_l2 m)\<lparr>l2_fds := io_table m\<rparr>); Some (m\<lparr>io_l2 := l, io_table := l2_fds l\<rparr>) }"

definition glue_of :: "('ctx, 's) io \<Rightarrow> glue" where
  "glue_of m = fst (upper (io_l2 m))"

definition on_glue :: "(glue \<Rightarrow> glue) \<Rightarrow> ('ctx, 's) io \<Rightarrow> ('ctx, 's) io" where
  "on_glue f m = m\<lparr>io_l2 := (io_l2 m)\<lparr>upper := (f (glue_of m), snd (upper (io_l2 m)))\<rparr>\<rparr>"

text \<open>The handlers \<open>platform_enter_low_power_ll\<close> calls; they leave the table alone.\<close>

definition handler :: "('ctx, 's) sdk_api \<Rightarrow> fd_callback \<Rightarrow> ('ctx, 's) io \<Rightarrow> ('ctx, 's) io ub" where
  "handler sdk cb m =
     (case cb of
        Tun_received \<Rightarrow> Some (m\<lparr>io_al := schc_al_tun_received_handler (io_al m)\<rparr>)
      | Downlink_available \<Rightarrow> on_l2 (downlink_available_callback (l2_callbacks sdk)) m)"

definition call_handler ::
    "('ctx, 's) sdk_api \<Rightarrow> fd_callback \<Rightarrow> fd_callback slot list \<times> ('ctx, 's) io ub \<Rightarrow>
     fd_callback slot list \<times> ('ctx, 's) io ub" where
  "call_handler sdk cb st = (fst st, do { m \<leftarrow> snd st; handler sdk cb m })"

text \<open>Timer signals: the handler marks the timer and calls the SDK.\<close>

fun expiries :: "('ctx, 's) sdk_api \<Rightarrow> nat list \<Rightarrow> ('ctx, 's) io \<Rightarrow> ('ctx, 's) io ub" where
  "expiries sdk [] m = Some m"
| "expiries sdk (i # is) m =
     (if i \<ge> NB_SDK_TIMERS then expiries sdk is m
      else let (g, call) = timer_expired i (glue_of m);
               m = on_glue (\<lambda>_. g) m
      in case call of
           None \<Rightarrow> expiries sdk is m
         | Some k \<Rightarrow> do { m \<leftarrow> mgt_timer_timeout sdk k m; expiries sdk is m })"

section \<open>The program\<close>

definition sigint_handler :: "('ctx, 's) worker \<Rightarrow> ('ctx, 's) worker" where
  "sigint_handler w = w\<lparr>terminate_flag := True\<rparr>"

text \<open>Up to the call of \<open>mgt_initialize\<close>.\<close>

definition main_setup :: "main_config \<Rightarrow> 'ctx boot \<Rightarrow> ('ctx, 's) worker \<Rightarrow> ('ctx, 's) worker" where
  "main_setup c b w =
     (let m = on_glue (init_sdk_timers (timer_results b 0) (timer_results b 1) (timer_results b 2)) (io w);
          m = m\<lparr>io_l2 := l2_set_mtu (L2_MAX_MTU c) (io_l2 m)\<rparr>;
          m = (if ahoi_stack c
               then m\<lparr>io_l2 := l2_set_iid (main_ahoi_id c) (l2_set_serial_port (main_ahoi_port c)
                      (l2_set_next_tx_delay (L2_TX_DELAY c) (io_l2 m)))\<rparr> else m);
          w = w\<lparr>io := m\<rparr>
      in if schc_peer_mode (al_options c)
         then w\<lparr>main_sdk_mode := SDK_APP_MODE,
                ext := net_set_remote_static_port (UDP_HOST_PORT c)
                  (net_set_remote_static_ip (boot_pton b) (IPv6_ADDRESS c)
                  (net_set_host_static_port (UDP_PEER_PORT c)
                  (net_set_host_static_ip (boot_pton b) (IPv6_PEER_ADDRESS c) (ext w))))\<rparr>
         else w\<lparr>main_sdk_mode := SDK_DEVICE_MODE,
                ext := net_set_remote_static_port (UDP_PEER_PORT c)
                  (net_set_remote_static_ip (boot_pton b) (IPv6_PEER_ADDRESS c)
                  (net_set_host_static_port (UDP_HOST_PORT c)
                  (net_set_host_static_ip (boot_pton b) (IPv6_ADDRESS c) (ext w))))\<rparr>)"

text \<open>From \<open>mgt_initialize\<close> to the signal handlers; false stands for the jump to \<open>error\<close>.\<close>

definition main_initialize ::
    "main_config \<Rightarrow> ('ctx, 's) sdk_api \<Rightarrow> 'ctx boot \<Rightarrow> ('ctx, 's) io \<Rightarrow> (bool \<times> ('ctx, 's) io) ub" where
  "main_initialize c sdk b m =
     do {
       (mgt_ok, m) \<leftarrow> mgt_initialize sdk m;
       if \<not> mgt_ok then Some (False, m)
       else do {
         (net_ok, m) \<leftarrow> net_initialize sdk m;
         if \<not> net_ok then Some (False, m)
         else do {
           (rc, m) \<leftarrow> on_al (schc_al_init (al_options c) (context_init b) (tun_open b) (tun_ioctl b) (run_system b)) m;
           if rc \<noteq> 0 then Some (False, m)
           else if \<not> sigaction_ok b then Some (False, m)
           else Some (True, m)
         }
       }
     }"

definition add_log :: "main_call \<Rightarrow> ('ctx, 's) worker \<Rightarrow> ('ctx, 's) worker" where
  "add_log x w = w\<lparr>log := log w @ [x]\<rparr>"

text \<open>One turn: the SDK's request, the adaptation layer's, then the sleep.\<close>

definition serve_mgt :: "('ctx, 's) sdk_api \<Rightarrow> ('ctx, 's) worker \<Rightarrow> ('ctx, 's) worker ub" where
  "serve_mgt sdk w =
     (if mgt_process_request (glue_of (io w)) then do {
        (mgt_ok, m) \<leftarrow> mgt_process sdk (on_glue (\<lambda>g. g\<lparr>mgt_process_request := False\<rparr>) (io w));
        Some (add_log Mgt_process (w\<lparr>io := m\<rparr>))
      } else Some w)"

definition serve_al ::
    "main_config \<Rightarrow> ('ctx, 's) sdk_api \<Rightarrow> 'ctx osc_conv \<Rightarrow> read_result list \<Rightarrow> ('ctx, 's) worker \<Rightarrow> ('ctx, 's) worker ub" where
  "serve_al c sdk coap2oscore reads w =
     (if schc_al_is_processing_required (io_al (io w)) then do {
        (st, m) \<leftarrow> on_al (schc_al_process (al_options c) (sdk_compress sdk) coap2oscore (sdk_net_sendto sdk) reads) (io w);
        Some (add_log (Al_process st) (w\<lparr>io := m\<rparr>))
      } else Some w)"

definition sleep_turn :: "('ctx, 's) sdk_api \<Rightarrow> turn \<Rightarrow> ('ctx, 's) worker \<Rightarrow> ('ctx, 's) worker ub" where
  "sleep_turn sdk t w =
     do {
       let (s, table, r) = platform_enter_low_power_ll (call_handler sdk) (poll_ret t) (poll_ready t)
         (io_table (io w), Some (io w));
       m \<leftarrow> r;
       m \<leftarrow> expiries sdk (expired_asleep t) (m\<lparr>io_table := table\<rparr>);
       let w = add_log (Slept s) (w\<lparr>io := m\<rparr>);
       Some (if signalled t then sigint_handler w else w)
     }"

definition main_turn ::
    "main_config \<Rightarrow> ('ctx, 's) sdk_api \<Rightarrow> 'ctx osc_conv \<Rightarrow> turn \<Rightarrow> ('ctx, 's) worker \<Rightarrow> ('ctx, 's) worker ub" where
  "main_turn c sdk coap2oscore t w =
     do {
       m \<leftarrow> expiries sdk (expired_early t) (io w);
       w \<leftarrow> serve_mgt sdk (w\<lparr>io := m\<rparr>);
       w \<leftarrow> serve_al c sdk coap2oscore (tun_reads t) w;
       sleep_turn sdk t w
     }"

text \<open>\<open>while (!terminate_flag)\<close>: the turns in order. False when they are used up and the loop still
  runs.\<close>

fun main_loop ::
    "main_config \<Rightarrow> ('ctx, 's) sdk_api \<Rightarrow> 'ctx osc_conv \<Rightarrow> turn list \<Rightarrow> ('ctx, 's) worker \<Rightarrow> (bool \<times> ('ctx, 's) worker) ub" where
  "main_loop c sdk conv [] w = Some (terminate_flag w, w)"
| "main_loop c sdk conv (t # ts) w =
     (if terminate_flag w then Some (True, w)
      else do { w \<leftarrow> main_turn c sdk conv t w; main_loop c sdk conv ts w })"

definition main_terminate :: "main_config \<Rightarrow> ('ctx, 's) io \<Rightarrow> ('ctx, 's) io" where
  "main_terminate c m =
     (let m = snd (the (on_al (Some \<circ> schc_al_terminate) m))
      in if ahoi_stack c then m\<lparr>io_l2 := l2_deinit (io_l2 m)\<rparr> else m)"

text \<open>The program: its exit code and final state, or None for the code while it still runs.\<close>

definition main ::
    "main_config \<Rightarrow> ('ctx, 's) sdk_api \<Rightarrow> 'ctx osc_conv \<Rightarrow> 'ctx boot \<Rightarrow> turn list \<Rightarrow> ('ctx, 's) worker \<Rightarrow>
     (int option \<times> ('ctx, 's) worker) ub" where
  "main c sdk coap2oscore b ts w =
     do {
       let w = main_setup c b w;
       (ok, m) \<leftarrow> main_initialize c sdk b (io w);
       let w = w\<lparr>io := m\<rparr>;
       if \<not> ok then Some (Some (-1), w\<lparr>io := main_terminate c m\<rparr>)
       else do {
         (ended, w) \<leftarrow> main_loop c sdk coap2oscore ts w;
         if ended then Some (Some 0, w\<lparr>io := main_terminate c (io w)\<rparr>) else Some (None, w)
       }
     }"

end
