(* ===== verification/Worker_Main_Props.thy ===== *)
theory Worker_Main_Props
  imports Worker_Main Schc_Al_Lifecycle
begin

text \<open>
  Properties of the worker's event loop: it ends in the turn of the first signal, every way out of
  the program releases what was opened, and what a readable descriptor asks for is done in the next
  turn.
\<close>

section \<open>Ending\<close>

fun slept :: "main_call \<Rightarrow> bool" where
  "slept (Slept s) = True"
| "slept _ = False"

definition sleeps :: "('ctx, 's) worker \<Rightarrow> nat" where
  "sleeps w = length (filter slept (log w))"

lemma serve_frame:
  "serve_mgt sdk w = Some w' \<Longrightarrow> sleeps w' = sleeps w \<and> terminate_flag w' = terminate_flag w"
  "serve_al c sdk conv reads w = Some w' \<Longrightarrow> sleeps w' = sleeps w \<and> terminate_flag w' = terminate_flag w"
  by (auto simp: serve_mgt_def serve_al_def add_log_def sleeps_def split: if_splits Option.bind_split_asm)

lemma sleep_frame:
  "sleep_turn sdk t w = Some w' \<Longrightarrow>
    sleeps w' = Suc (sleeps w) \<and> (terminate_flag w' \<longleftrightarrow> signalled t \<or> terminate_flag w)"
  by (auto simp: sleep_turn_def add_log_def sleeps_def sigint_handler_def Let_def
      split: prod.splits Option.bind_split_asm if_splits)

lemma main_turn_frame:
  assumes "main_turn c sdk conv t w = Some w'"
  shows "sleeps w' = Suc (sleeps w) \<and> (terminate_flag w' \<longleftrightarrow> signalled t \<or> terminate_flag w)"
proof -
  from assms obtain m w1 w2 where
    "serve_mgt sdk (w\<lparr>io := m\<rparr>) = Some w1" "serve_al c sdk conv (tun_reads t) w1 = Some w2" "sleep_turn sdk t w2 = Some w'"
    by (auto simp: main_turn_def split: Option.bind_split_asm)
  moreover have "sleeps (w\<lparr>io := m\<rparr>) = sleeps w"
    by (simp add: sleeps_def)
  ultimately show ?thesis
    by (auto dest!: serve_frame sleep_frame)
qed

lemma main_loop_ends:
  assumes "main_loop c sdk conv ts w = Some (ended, w')" and "\<not> terminate_flag w"
    and "k < length ts" and "signalled (ts ! k)" and "\<forall>j < k. \<not> signalled (ts ! j)"
  shows "ended \<and> sleeps w' = sleeps w + k + 1"
  using assms
proof (induction ts arbitrary: w k)
  case Nil
  then show ?case by simp
next
  case (Cons t ts)
  from Cons.prems(1,2) obtain w1 where turn: "main_turn c sdk conv t w = Some w1"
    and rest: "main_loop c sdk conv ts w1 = Some (ended, w')"
    by (auto split: Option.bind_split_asm)
  show ?case
  proof (cases k)
    case 0
    then have "terminate_flag w1"
      using Cons.prems(4) main_turn_frame [OF turn] by simp
    then show ?thesis
      using rest main_turn_frame [OF turn] 0 by (cases ts) auto
  next
    case (Suc k')
    then have "\<not> terminate_flag w1"
      using Cons.prems(2,5) main_turn_frame [OF turn] by auto
    moreover have "\<forall>j < k'. \<not> signalled (ts ! j)"
      using Cons.prems(5) Suc by auto
    ultimately show ?thesis
      using Cons.IH [OF rest, of k'] Suc Cons.prems(3,4) main_turn_frame [OF turn] by auto
  qed
qed

lemma main_loop_ended:
  assumes "main_loop c sdk conv ts w = Some (True, w')"
  shows "terminate_flag w'"
  using assms by (induction ts arbitrary: w) (auto split: if_splits Option.bind_split_asm)

lemma main_setup_frame [simp]:
  "terminate_flag (main_setup c b w) = terminate_flag w" "log (main_setup c b w) = log w"
  by (simp_all add: main_setup_def Let_def)

text \<open>C13: The worker ends when it is asked to: once SIGINT or SIGTERM arrives in some turn of the loop,
  the loop runs that turn to its end, sleeps exactly once in it, and the program exits with code 0;
  a worker whose initialisation failed has already exited with -1 without a single turn. It never
  keeps running.\<close>

theorem worker_ends_on_signal:
  assumes "main c sdk conv b ts w = Some (rc, w')" and "\<not> terminate_flag w" and "log w = []"
    and "k < length ts" and "signalled (ts ! k)" and "\<forall>j < k. \<not> signalled (ts ! j)"
  shows "(rc = Some 0 \<and> length (filter slept (log w')) = k + 1) \<or> (rc = Some (-1) \<and> log w' = [])"
proof -
  obtain ok m where init: "main_initialize c sdk b (io (main_setup c b w)) = Some (ok, m)"
    using assms(1) by (auto simp: main_def Let_def split: Option.bind_split_asm)
  show ?thesis
  proof (cases ok)
    case False
    then show ?thesis
      using assms(1,3) init by (auto simp: main_def Let_def)
  next
    case True
    let ?w = "(main_setup c b w)\<lparr>io := m\<rparr>"
    obtain ended w1 where loop: "main_loop c sdk conv ts ?w = Some (ended, w1)"
      using assms(1) init True by (auto simp: main_def Let_def split: Option.bind_split_asm)
    then have "ended \<and> sleeps w1 = sleeps ?w + k + 1"
      using main_loop_ends [OF loop _ assms(4-6)] assms(2) by simp
    then show ?thesis
      using assms(1,3) init True loop by (auto simp: main_def Let_def sleeps_def)
  qed
qed

lemma terminate_al:
  "snd (schc_al_terminate al) =
    (if 0 \<le> tun_fd al
     then al\<lparr>fds := snd (unwatch_fd_for_input (tun_fd al) (fds al)), closed := closed al @ [tun_fd al],
       tun_fd := -1, event := NO_EVENT, processing_required := False\<rparr>
     else al\<lparr>event := NO_EVENT, processing_required := False\<rparr>)"
  by (simp add: schc_al_terminate_def close_tun_def Let_def)

lemma main_terminate_fields:
  shows "tun_fd (io_al (main_terminate c m)) = (if 0 \<le> tun_fd (io_al m) then -1 else tun_fd (io_al m))"
    and "closed (io_al (main_terminate c m)) =
      closed (io_al m) @ (if 0 \<le> tun_fd (io_al m) then [tun_fd (io_al m)] else [])"
    and "\<not> processing_required (io_al (main_terminate c m))" "event (io_al (main_terminate c m)) = NO_EVENT"
    and "io_table (main_terminate c m) =
      (if 0 \<le> tun_fd (io_al m) then snd (unwatch_fd_for_input (tun_fd (io_al m)) (io_table m)) else io_table m)"
    and "disconnected (io_l2 (main_terminate c m)) = disconnected (io_l2 m)
      @ (if ahoi_stack c \<and> 0 \<le> ahoifd (io_l2 m) then [ahoifd (io_l2 m)] else [])"
  by (simp_all add: main_terminate_def on_al_def l2_deinit_def Let_def split_beta terminate_al)


section \<open>Serving\<close>

text \<open>What a handler asks for.\<close>

fun requested :: "fd_callback \<Rightarrow> ('ctx, 's) io \<Rightarrow> bool" where
  "requested Tun_received m = processing_required (io_al m)"
| "requested Downlink_available m = mgt_process_request (glue_of m)"

text \<open>The SDK keeps its word: when the L2 adapter asks for processing, it asks the worker, and no function
  of it withdraws a request.\<close>

definition sdk_notifies :: "('ctx, 's) sdk_api \<Rightarrow> bool" where
  "sdk_notifies sdk \<longleftrightarrow>
     (\<forall>l l'. l2_callbacks sdk Processing_required l = Some l' \<longrightarrow> mgt_process_request (fst (upper l')))
     \<and> (\<forall>m r m'. mgt_process sdk m = Some (r, m') \<longrightarrow> requested Tun_received m \<longrightarrow> requested Tun_received m')
     \<and> (\<forall>k m m' cb. mgt_timer_timeout sdk k m = Some m' \<longrightarrow> requested cb m \<longrightarrow> requested cb m')"

lemma downlink_handler:
  assumes "handler sdk Downlink_available m = Some m'"
  shows "io_al m' = io_al m" and "\<exists>l. l2_callbacks sdk Processing_required l = Some (io_l2 m')"
proof -
  obtain l where l: "L2_Ahoi.callback (l2_callbacks sdk) Processing_required l = Some (io_l2 m')" "io_al m' = io_al m"
    using assms
    by (auto simp: handler_def on_l2_def downlink_available_callback_def raise_event_def split: Option.bind_split_asm)
  show "io_al m' = io_al m" by (rule l(2))
  show "\<exists>l. l2_callbacks sdk Processing_required l = Some (io_l2 m')"
    using l(1) by (auto simp: L2_Ahoi.callback_def split: if_splits)
qed

lemma tun_handler: "handler sdk Tun_received m = Some (m\<lparr>io_al := schc_al_tun_received_handler (io_al m)\<rparr>)"
  by (simp add: handler_def)

lemma handler_requests:
  assumes "sdk_notifies sdk" and "handler sdk cb m = Some m'"
  shows "requested cb m'" and "requested cb' m \<Longrightarrow> requested cb' m'"
proof -
  have n: "mgt_process_request (fst (upper l'))" if "l2_callbacks sdk Processing_required l = Some l'" for l l'
    using assms(1) that unfolding sdk_notifies_def by blast
  have "requested cb m' \<and> (requested cb' m \<longrightarrow> requested cb' m')"
  proof (cases cb)
    case Tun_received
    then have "m' = m\<lparr>io_al := schc_al_tun_received_handler (io_al m)\<rparr>"
      using assms(2) by (simp add: tun_handler)
    then show ?thesis
      using Tun_received by (cases cb') (simp_all add: schc_al_tun_received_handler_def glue_of_def)
  next
    case Downlink_available
    then have "handler sdk Downlink_available m = Some m'"
      using assms(2) by simp
    from downlink_handler [OF this] have "io_al m' = io_al m" "mgt_process_request (glue_of m')"
      by (auto simp: glue_of_def dest: n)
    then show ?thesis
      using Downlink_available by (cases cb') simp_all
  qed
  then show "requested cb m'" and "requested cb' m \<Longrightarrow> requested cb' m'"
    by blast+
qed

lemma handlers_request:
  assumes "sdk_notifies sdk"
  shows "snd (fold (call_handler sdk) cbs (tb, r)) = Some m' \<Longrightarrow>
    (\<forall>cb \<in> set cbs. requested cb m') \<and> (\<exists>m. r = Some m \<and> (\<forall>cb. requested cb m \<longrightarrow> requested cb m'))"
proof (induction cbs arbitrary: r)
  case (Cons cb cbs)
  have "snd (fold (call_handler sdk) cbs (tb, do { m \<leftarrow> r; handler sdk cb m })) = Some m'"
    using Cons.prems by (simp add: call_handler_def [of _ _ "(tb, r)"])
  from Cons.IH [OF this] obtain m1 where m1: "do { m \<leftarrow> r; handler sdk cb m } = Some m1"
    "\<forall>cb \<in> set cbs. requested cb m'" "\<forall>cb. requested cb m1 \<longrightarrow> requested cb m'"
    by blast
  from m1(1) obtain m where "r = Some m" "handler sdk cb m = Some m1"
    by (auto split: Option.bind_split_asm)
  then show ?case
    using m1(2,3) handler_requests [OF assms] by fastforce
qed auto

lemma fst_call_handler: "fst (call_handler sdk cb st) = fst st"
  by (simp add: call_handler_def)

lemma on_glue_requests:
  "(\<And>g. mgt_process_request (f g) = mgt_process_request g) \<Longrightarrow> requested cb (on_glue f m) \<longleftrightarrow> requested cb m"
  by (cases cb) (simp_all add: on_glue_def glue_of_def)

lemma timer_expired_request: "mgt_process_request (fst (timer_expired i g)) = mgt_process_request g"
  by (simp add: timer_expired_def split: prod.split)

lemma expiries_request:
  assumes "sdk_notifies sdk"
  shows "expiries sdk is m = Some m' \<Longrightarrow> requested cb m \<Longrightarrow> requested cb m'"
proof (induction "is" arbitrary: m)
  case Nil
  then show ?case by simp
next
  case (Cons i "is")
  show ?case
  proof (cases "i \<ge> NB_SDK_TIMERS")
    case True
    then show ?thesis
      using Cons by simp
  next
    case False
    let ?m = "on_glue (\<lambda>_. fst (timer_expired i (glue_of m))) m"
    have m: "requested cb ?m"
      using Cons.prems(2) by (cases cb) (simp_all add: on_glue_def glue_of_def timer_expired_request)
    show ?thesis
    proof (cases "snd (timer_expired i (glue_of m))")
      case None
      then show ?thesis
        using Cons.IH [of ?m] Cons.prems(1) False m by (simp add: split_beta Let_def)
    next
      case (Some k)
      then obtain m1 where m1: "mgt_timer_timeout sdk k ?m = Some m1" "expiries sdk is m1 = Some m'"
        using Cons.prems(1) False by (auto simp: split_beta Let_def split: Option.bind_split_asm)
      have "requested cb m1"
        using assms m1(1) m unfolding sdk_notifies_def by blast
      then show ?thesis
        using Cons.IH m1(2) by blast
    qed
  qed
qed

lemma serve_mgt_serves:
  assumes "sdk_notifies sdk" and "serve_mgt sdk w = Some w'"
  shows "log w' = log w @ (if requested Downlink_available (io w) then [Mgt_process] else [])"
    and "requested Tun_received (io w) \<Longrightarrow> requested Tun_received (io w')"
proof -
  show "log w' = log w @ (if requested Downlink_available (io w) then [Mgt_process] else [])"
    using assms(2) by (auto simp: serve_mgt_def add_log_def split: if_splits Option.bind_split_asm)
  assume r: "requested Tun_received (io w)"
  have keep: "requested Tun_received m'" if "mgt_process sdk m = Some (x, m')" "requested Tun_received m" for m x m'
    using assms(1) that unfolding sdk_notifies_def by blast
  have "requested Tun_received (on_glue (\<lambda>g. g\<lparr>mgt_process_request := False\<rparr>) (io w))"
    using r by (simp add: on_glue_def)
  then show "requested Tun_received (io w')"
    using assms(2) r
    by (auto simp: serve_mgt_def add_log_def simp del: requested.simps dest: keep split: if_splits Option.bind_split_asm)
qed

lemma serve_al_serves:
  "serve_al c sdk conv reads w = Some w' \<Longrightarrow>
    \<exists>st. log w' = log w @ (if requested Tun_received (io w) then [Al_process st] else [])"
  by (auto simp: serve_al_def add_log_def schc_al_is_processing_required_def split: if_splits Option.bind_split_asm)

lemma sleep_turn_log: "sleep_turn sdk t w = Some w' \<Longrightarrow> \<exists>s. log w' = log w @ [Slept s]"
  by (auto simp: sleep_turn_def add_log_def sigint_handler_def Let_def
      split: prod.splits Option.bind_split_asm if_splits)

text \<open>Two handler calls in a row, the sleep and what follows it.\<close>

lemma sleep_turn_requests:
  assumes "sdk_notifies sdk" and "watch_inv (io_table (io w))"
    and "i < length (used_slots (io_table (io w)))" and "slot_cb (io_table (io w) ! i) = Some cb"
    and "0 < poll_ret t" and "poll_ready t i" and "sleep_turn sdk t w = Some w'"
  shows "requested cb (io w')"
proof -
  let ?tb = "io_table (io w)"
  have used: "used_slots ?tb \<noteq> []"
    using assms(3) by auto
  then have "slot_fd (?tb ! 0) \<noteq> -1"
    by (cases ?tb) (auto simp: used_slots_def split: if_splits)
  then have low: "platform_enter_low_power_ll (call_handler sdk) (poll_ret t) (poll_ready t) (?tb, Some (io w)) =
      (Poll_returned, fold (call_handler sdk) (ready_callbacks (poll_ready t) ?tb) (?tb, Some (io w)))"
    using assms(2,5)
    by (simp add: platform_enter_low_power_ll_def Let_def ready_callbacks_def poll_array_used
        dispatch_ready_fold [where call = "call_handler sdk" and fds = ?tb, OF fst_call_handler])
  have cb: "cb \<in> set (ready_callbacks (poll_ready t) ?tb)"
    using assms(3,4,6) by (force simp: ready_callbacks_def)
  obtain m m' where m: "snd (fold (call_handler sdk) (ready_callbacks (poll_ready t) ?tb) (?tb, Some (io w))) = Some m"
    and m': "expiries sdk (expired_asleep t) (m\<lparr>io_table := fst (fold (call_handler sdk)
        (ready_callbacks (poll_ready t) ?tb) (?tb, Some (io w)))\<rparr>) = Some m'" and w': "io w' = m'"
    using assms(7) low
    by (auto simp: sleep_turn_def add_log_def sigint_handler_def Let_def split_beta split: Option.bind_split_asm if_splits)
  have "requested cb m"
    using handlers_request [OF assms(1) m] cb by blast
  then have "requested cb (m\<lparr>io_table := tb\<rparr>)" for tb
    by (cases cb) (simp_all add: glue_of_def)
  then show ?thesis
    using expiries_request [OF assms(1) m'] w' by blast
qed

text \<open>C12: What a readable descriptor asks for is done in the next turn: when \<open>poll\<close> reports a watched
  descriptor ready, then in the turn after the sleep the worker calls \<open>mgt_process\<close> if it was the
  modem's, and \<open>schc_al_process\<close> if it was the TUN device's, whatever timers expire in between and
  whatever the SDK does in its own functions.\<close>

theorem readable_descriptor_served:
  assumes "sdk_notifies sdk" and "watch_inv (io_table (io w))"
    and "i < length (used_slots (io_table (io w)))" and "slot_cb (io_table (io w) ! i) = Some cb"
    and "0 < poll_ret t" and "poll_ready t i" and "sleep_turn sdk t w = Some w1"
    and "main_turn c sdk conv t' w1 = Some w2"
  shows "\<exists>served. log w2 = log w1 @ served
    \<and> (case cb of Downlink_available \<Rightarrow> Mgt_process \<in> set served
        | Tun_received \<Rightarrow> \<exists>st. Al_process st \<in> set served)"
proof -
  have r: "requested cb (io w1)"
    by (rule sleep_turn_requests [OF assms(1-7)])
  obtain m w3 w4 where early: "expiries sdk (expired_early t') (io w1) = Some m"
    and mgt: "serve_mgt sdk (w1\<lparr>io := m\<rparr>) = Some w3"
    and al: "serve_al c sdk conv (tun_reads t') w3 = Some w4" and sleep: "sleep_turn sdk t' w4 = Some w2"
    using assms(8) by (auto simp: main_turn_def split: Option.bind_split_asm)
  have rm: "requested cb m"
    by (rule expiries_request [OF assms(1) early r])
  note l3 = serve_mgt_serves [OF assms(1) mgt]
  obtain st s where l4: "log w4 = log w3 @ (if requested Tun_received (io w3) then [Al_process st] else [])"
    and l2: "log w2 = log w4 @ [Slept s]"
    using serve_al_serves [OF al] sleep_turn_log [OF sleep] by blast
  show ?thesis
  proof (cases cb)
    case Tun_received
    then have "requested Tun_received (io w3)"
      using l3(2) rm by simp
    then show ?thesis
      using Tun_received l2 l4 l3(1) by auto
  next
    case Downlink_available
    then have "log w3 = log w1 @ [Mgt_process]"
      using l3(1) rm by simp
    then show ?thesis
      using Downlink_available l2 l4 by auto
  qed
qed

section \<open>A run of the worker\<close>

text \<open>An SDK that initialises and serves the L2 adapter, and a run of two turns: in the first the modem and
  the TUN device become readable, in the second both are served and SIGINT arrives.\<close>

definition example_link_cb :: "(glue \<times> unit) sdk" where
  "example_link_cb x l = Some (if x = Processing_required
     then l\<lparr>upper := (cb_mgt_processing_required (fst (upper l)), snd (upper l))\<rparr> else l)"

definition example_api :: "(unit, unit) sdk_api" where
  "example_api = \<lparr>
     mgt_initialize = (\<lambda>m. do {
       m \<leftarrow> on_l2 (\<lambda>l. map_option snd (l2a_initialize example_link_cb (\<lambda>i old. (0, 4)) 512 [0, 0, 0] 3 l)) m;
       Some (True, m) }),
     net_initialize = (\<lambda>m. Some (True, m)),
     mgt_process = (\<lambda>m. do {
       m \<leftarrow> on_l2 (\<lambda>l. map_option snd
         (l2a_process example_link_cb [\<lparr>packets = [], read_ok = True, read_errno = EAGAIN\<rparr>] l)) m;
       Some (True, m) }),
     mgt_timer_timeout = (\<lambda>k m. Some m), l2_callbacks = example_link_cb,
     sdk_compress = (\<lambda>cap out x. (COMP_RULES_NOT_FOUND_ERR, out, 0)), sdk_net_sendto = example_sendto\<rparr>"

definition example_main_cfg :: main_config where
  "example_main_cfg = \<lparr>al_options = example_cfg, ahoi_stack = True, L2_MAX_MTU = 128, L2_TX_DELAY = 300,
     main_ahoi_port = ''/dev/ttyUSB0'', main_ahoi_id = 10, IPv6_ADDRESS = ''a::1'', IPv6_PEER_ADDRESS = ''a::2'',
     UDP_HOST_PORT = ''5683'', UDP_PEER_PORT = ''5684''\<rparr>"

definition example_boot :: "unit boot" where
  "example_boot = \<lparr>timer_results = (\<lambda>i. (True, Some i)), context_init = (\<lambda>p. (Ok, ())), tun_open = 5,
     tun_ioctl = Some, run_system = (\<lambda>cmd. True), sigaction_ok = True, boot_pton = (\<lambda>a. None)\<rparr>"

definition example_turns :: "turn list" where
  "example_turns =
     [\<lparr>expired_early = [], tun_reads = [], poll_ret = 2, poll_ready = (\<lambda>i. True), expired_asleep = [1], signalled = False\<rparr>,
      \<lparr>expired_early = [], tun_reads = [Read example_packet], poll_ret = 0, poll_ready = (\<lambda>i. False),
       expired_asleep = [], signalled = True\<rparr>]"

definition example_timers :: glue where
  "example_timers = \<lparr>mgt_process_request = False,
     sdk_timers = replicate 3 \<lparr>timerid = 0, duration = timespec_zero, callback = Sdk_timer_event 0,
       cb_context = None, started = False\<rparr>, os = no_timers, cleaner_table = cleaner_init\<rparr>"

definition example_worker :: "(unit, unit) worker" where
  "example_worker = \<lparr>io = \<lparr>io_al = example_al, io_l2 = l2a_initial 128 initial_fds (example_timers, ()),
       io_table = initial_fds\<rparr>,
     ext = ext_init, main_sdk_mode = SDK_DEVICE_MODE, terminate_flag = False, log = []\<rparr>"

definition example_main :: "(int option \<times> (unit, unit) worker) ub" where
  "example_main = main example_main_cfg example_api example_conv example_boot example_turns example_worker"

lemma example_main_eq:
  "case example_main of None \<Rightarrow> False | Some (rc, w) \<Rightarrow> rc = Some 0
    \<and> log w = [Mgt_process, Al_process SEND_DOWN_OK, Slept Poll_returned,
        Mgt_process, Al_process SEND_DOWN_OK, Slept Poll_idle]"
  by code_simp

theorem worker_ends_on_signal_witness:
  "\<exists>w'. main example_main_cfg example_api example_conv example_boot example_turns example_worker = Some (Some 0, w')
    \<and> length (filter slept (log w')) = 2"
proof -
  obtain w' where w': "main example_main_cfg example_api example_conv example_boot example_turns example_worker = Some (Some 0, w')"
    using example_main_eq by (auto simp: example_main_def split: option.splits)
  have "length (filter slept (log w')) = 1 + 1"
    using worker_ends_on_signal [OF w', of 1]
    by (simp add: example_worker_def example_turns_def)
  then show ?thesis
    using w' by simp
qed

definition example_started :: "(unit, unit) worker" where
  "example_started =
     (case main_initialize example_main_cfg example_api example_boot (io (main_setup example_main_cfg example_boot example_worker)) of
        Some (ok, m) \<Rightarrow> (main_setup example_main_cfg example_boot example_worker)\<lparr>io := m\<rparr>
      | None \<Rightarrow> example_worker)"

lemma example_initialized:
  "case main_initialize example_main_cfg example_api example_boot (io (main_setup example_main_cfg example_boot example_worker)) of
     None \<Rightarrow> False | Some (ok, m) \<Rightarrow> ok"
  by code_simp

lemma example_looped:
  "case main_loop example_main_cfg example_api example_conv example_turns example_started of
     None \<Rightarrow> False
   | Some (ended, w1) \<Rightarrow> ended \<and> watch_inv (io_table (io w1)) \<and> tun_fd (io_al (io w1)) = 5
       \<and> closed (io_al (io w1)) = [] \<and> ahoifd (io_l2 (io w1)) = 4 \<and> disconnected (io_l2 (io w1)) = []"
  by code_simp


lemma example_api_notifies: "sdk_notifies example_api"
proof -
  have "io_al m' = io_al m" if "mgt_process example_api m = Some (r, m')" for m r m'
    using that by (auto simp: example_api_def on_l2_def split: Option.bind_split_asm)
  then have "requested Tun_received m \<longrightarrow> requested Tun_received m'" if "mgt_process example_api m = Some (r, m')" for m r m'
    using that by simp
  then show ?thesis
    unfolding sdk_notifies_def
    by (auto simp: example_api_def example_link_cb_def cb_mgt_processing_required_def)
qed

definition example_slept :: "(unit, unit) worker" where
  "example_slept = (case sleep_turn example_api (example_turns ! 0) example_started of
     Some w \<Rightarrow> w | None \<Rightarrow> example_worker)"

lemma example_slept_eq:
  "case sleep_turn example_api (example_turns ! 0) example_started of
     None \<Rightarrow> False
   | Some w1 \<Rightarrow> (case main_turn example_main_cfg example_api example_conv (example_turns ! 1) w1 of
       None \<Rightarrow> False | Some w2 \<Rightarrow> True)"
  "watch_inv (io_table (io example_started))" "length (used_slots (io_table (io example_started))) = 2"
  "slot_cb (io_table (io example_started) ! 1) = Some Tun_received"
  by code_simp+

theorem readable_descriptor_served_witness:
  "\<exists>w1 w2 served st. sleep_turn example_api (example_turns ! 0) example_started = Some w1
    \<and> main_turn example_main_cfg example_api example_conv (example_turns ! 1) w1 = Some w2
    \<and> log w2 = log w1 @ served \<and> Al_process st \<in> set served"
proof -
  obtain w1 w2 where w: "sleep_turn example_api (example_turns ! 0) example_started = Some w1"
    "main_turn example_main_cfg example_api example_conv (example_turns ! 1) w1 = Some w2"
    using example_slept_eq(1) by (auto split: option.splits)
  have "1 < length (used_slots (io_table (io example_started)))"
    by (simp add: example_slept_eq(3))
  from readable_descriptor_served [OF example_api_notifies example_slept_eq(2) this example_slept_eq(4) _ _ w]
  have "\<exists>served. log w2 = log w1 @ served \<and> (\<exists>st. Al_process st \<in> set served)"
    by (simp add: example_turns_def)
  then show ?thesis
    using w by blast
qed

end
