(* ===== verification/Worker_Types.thy ===== *)
theory Worker_Types
  imports Worker_Main_Props
begin

text \<open>
  Type soundness of the worker: the state of its modules keeps its shape under every operation, and
  from a state of that shape no operation of the worker is undefined. The shape is what the C types and
  the modules' own bookkeeping promise: buffers of their declared sizes, a table of watched
  descriptors without gaps or duplicates, a TUN descriptor that is watched while it is open, an L2
  adapter whose callbacks are set before anything can call them.
\<close>

section \<open>The shape of the state\<close>

definition al_typed :: "'ctx al \<Rightarrow> bool" where
  "al_typed al \<longleftrightarrow> length (net_buffer al) = IPv6_MAX_PACKET_SIZE \<and> length (tun_name al) < IFNAMSIZ \<and> -1 \<le> tun_fd al
     \<and> watch_inv (fds al) \<and> (0 \<le> tun_fd al \<longrightarrow> watched (fds al) (tun_fd al) = Some (Some Tun_received))
     \<and> (\<forall>q \<in> set (sent al). length q \<le> IPv6_MAX_PACKET_SIZE)"

text \<open>The callbacks of the L2 adapter are set when its handler is registered or an event is pending.\<close>

definition l2_typed :: "'s l2a \<Rightarrow> bool" where
  "l2_typed l \<longleftrightarrow> watch_inv (l2_fds l) \<and> (\<forall>fd. watched (l2_fds l) fd = Some (Some Downlink_available) \<longrightarrow> cb_set l)
     \<and> (l2_event l \<noteq> L2A_NO_EVENT \<longrightarrow> cb_set l)"

definition io_typed :: "('ctx, 's) io \<Rightarrow> bool" where
  "io_typed m \<longleftrightarrow> al_typed ((io_al m)\<lparr>fds := io_table m\<rparr>) \<and> l2_typed ((io_l2 m)\<lparr>l2_fds := io_table m\<rparr>)
     \<and> length (sdk_timers (glue_of m)) = NB_SDK_TIMERS"

section \<open>The adaptation layer\<close>

lemma watch_typed:
  assumes "watch_inv t" and "watch_fd_for_input fd cb t = (r, t')"
  shows "watch_inv t'" and "watched t' = (if r then (watched t)(fd \<mapsto> cb) else watched t)"
    and "r \<Longrightarrow> fd \<notin> dom (watched t) \<and> 0 \<le> fd"
  using fds.watch_ok [OF assms(1), of fd cb] fds.watch_lookup [OF assms(1), of fd cb]
    fds.watch_result [OF assms(1), of fd cb] assms(2) by auto

lemma strncpy_length: "length (strncpy (IFNAMSIZ - Suc 0) s) < IFNAMSIZ"
  by (simp add: strncpy_def IFNAMSIZ_def min_def)

lemma create_tun_name:
  "create_tun fd ioctl r a IFNAMSIZ = (x, a', cl) \<Longrightarrow> length a < IFNAMSIZ \<Longrightarrow> length a' < IFNAMSIZ"
  by (auto simp: create_tun_def Let_def strncpy_length split: if_splits option.splits)

lemma run_cmd_frame:
  "run_cmd sys c al = (rc, al') \<Longrightarrow> net_buffer al' = net_buffer al \<and> sent al' = sent al \<and> tun_name al' = tun_name al"
  by (auto simp: run_cmd_def Let_def split: if_splits)

lemma init_frame:
  assumes "schc_al_init cfg ctx_init fd ioctl sys al = Some (rc, al')" and "length (tun_name al) < IFNAMSIZ"
  shows "net_buffer al' = net_buffer al \<and> sent al' = sent al \<and> length (tun_name al') < IFNAMSIZ
    \<and> (0 \<le> tun_fd al \<longrightarrow> tun_fd al' = tun_fd al \<and> fds al' = fds al)"
  using assms
  by (auto simp: schc_al_init_def Let_def close_tun_def split: Option.bind_split_asm if_split_asm prod.split_asm
      dest!: run_cmd_frame create_tun_name)

lemma al_typed_init:
  assumes "al_typed al" and "schc_al_init cfg ctx_init fd ioctl sys al = Some (rc, al')"
  shows "al_typed al'"
    and "watched (fds al') = watched (fds al) \<or> watched (fds al') = (watched (fds al))(fd \<mapsto> Some Tun_received)"
proof -
  note al = assms(1) [unfolded al_typed_def]
  have frame: "net_buffer al' = net_buffer al" "sent al' = sent al" "length (tun_name al') < IFNAMSIZ"
    "0 \<le> tun_fd al \<Longrightarrow> tun_fd al' = tun_fd al \<and> fds al' = fds al"
    using init_frame [OF assms(2)] al by auto
  have "al_typed al' \<and> (watched (fds al') = watched (fds al) \<or> watched (fds al') = (watched (fds al))(fd \<mapsto> Some Tun_received))"
  proof (cases "0 \<le> tun_fd al")
    case False
    then have closed: "tun_fd al = -1"
      using al by simp
    note eff = init_effect [OF assms(2) closed]
    have inv: "watch_inv (fds al)"
      using al by simp
    show ?thesis
    proof (cases "rc = 0")
      case True
      then have w: "tun_fd al' = fd" "watch_fd_for_input fd (Some Tun_received) (fds al) = (True, fds al')"
        using eff by simp_all
      then show ?thesis
        using watch_typed [OF inv w(2)] frame al by (simp add: al_typed_def)
    next
      case F: False
      then have "tun_fd al' = -1" and t: "fds al' = fds al \<or> watch_fd_for_input fd (Some Tun_received) (fds al) = (False, fds al')"
        using eff by simp_all
      moreover have "watch_inv (fds al')" "watched (fds al') = watched (fds al)"
        using t watch_typed [OF inv, of fd "Some Tun_received" False "fds al'"] inv by auto
      ultimately show ?thesis
        using frame al by (simp add: al_typed_def)
    qed
  qed (use frame al in \<open>simp add: al_typed_def\<close>)
  then show "al_typed al'"
    and "watched (fds al') = watched (fds al) \<or> watched (fds al') = (watched (fds al))(fd \<mapsto> Some Tun_received)"
    by blast+
qed

lemma al_typed_terminate:
  assumes "al_typed al"
  shows "al_typed (snd (schc_al_terminate al))"
    and "watched (fds (snd (schc_al_terminate al))) = watched (fds al)
      \<or> watched (fds (snd (schc_al_terminate al))) = (watched (fds al))(tun_fd al := None)"
  using assms fds.unwatch_ok [of "fds al" "tun_fd al"] fds.unwatch_lookup [of "fds al" "tun_fd al"]
  by (auto simp: al_typed_def terminate_al)

text \<open>What the descriptor handlers and the stack's callbacks do.\<close>

lemma al_typed_callbacks:
  assumes "al_typed al"
  shows "al_typed (schc_al_tun_received_handler al)" and "al_typed (net_transmission_result st er al)"
    and "net_data_received cfg sdk stack conv ok buf sz status al = Some (buf', al') \<Longrightarrow> al_typed al'"
proof -
  show "al_typed (schc_al_tun_received_handler al)" "al_typed (net_transmission_result st er al)"
    using assms by (simp_all add: al_typed_def schc_al_tun_received_handler_def net_transmission_result_def)
  assume "net_data_received cfg sdk stack conv ok buf sz status al = Some (buf', al')"
  then have "net_buffer al' = net_buffer al \<and> tun_name al' = tun_name al \<and> tun_fd al' = tun_fd al \<and> fds al' = fds al
      \<and> sent al' = sent al"
    by (auto simp: net_data_received_def schc_al_forward_up_def write_tun_def Let_def
        split: net_status.split_asm Option.bind_split_asm if_split_asm prod.split_asm coap_oscore_res.split_asm)
  then show "al_typed al'"
    using assms by (simp add: al_typed_def)
qed

lemma al_typed_process:
  assumes "conv_contract conv" "conv_returns B conv" "codec_bounded sdk" "128 \<le> B" "B < 65536"
    and "al_typed al" and "read_tun reads = Some r" "segment_fits r"
  shows "\<exists>st al'. schc_al_process cfg sdk conv ns reads al = Some (st, al') \<and> al_typed al' \<and> fds al' = fds al"
proof -
  have "length (net_buffer al) = 256"
    using assms(6) by (simp add: al_typed_def IPv6_MAX_PACKET_SIZE_def)
  then obtain st al' where p: "schc_al_process cfg sdk conv ns reads al = Some (st, al')"
    "length (net_buffer al') = 256" "sent_one (sent al) (sent al')"
    using process_total [OF assms(1-5) _ assms(7,8)] by blast
  then show ?thesis
    using process_frame [OF p(1)] assms(6) by (auto simp: al_typed_def IPv6_MAX_PACKET_SIZE_def sent_one_def)
qed

section \<open>The parts of a turn\<close>

text \<open>
  The SDK: from a state of the right shape each of its functions returns, and leaves one; asked to
  note that processing is required it leaves the table, the adapter's callbacks and the timers alone.
\<close>

definition sdk_sound :: "('ctx, 's) sdk_api \<Rightarrow> bool" where
  "sdk_sound sdk \<longleftrightarrow> codec_bounded (sdk_compress sdk)
     \<and> (\<forall>m. io_typed m \<longrightarrow>
          (\<exists>r m'. mgt_initialize sdk m = Some (r, m') \<and> io_typed m')
        \<and> (\<exists>r m'. net_initialize sdk m = Some (r, m') \<and> io_typed m')
        \<and> (\<exists>r m'. mgt_process sdk m = Some (r, m') \<and> io_typed m')
        \<and> (\<forall>k. \<exists>m'. mgt_timer_timeout sdk k m = Some m' \<and> io_typed m'))
     \<and> (\<forall>l. \<exists>l'. l2_callbacks sdk Processing_required l = Some l' \<and> l2_fds l' = l2_fds l \<and> cb_set l' = cb_set l
          \<and> length (sdk_timers (fst (upper l'))) = length (sdk_timers (fst (upper l))))"

lemma io_typed_al:
  assumes "io_typed m" and "al_typed a"
    and "\<And>fd. watched (fds a) fd = Some (Some Downlink_available) \<Longrightarrow> watched (io_table m) fd = Some (Some Downlink_available)"
  shows "io_typed (m\<lparr>io_al := a, io_table := fds a\<rparr>)"
  using assms by (auto simp: io_typed_def l2_typed_def al_typed_def glue_of_def)

lemma io_typed_glue:
  assumes "io_typed m" and "length (sdk_timers (f (glue_of m))) = length (sdk_timers (glue_of m))"
  shows "io_typed (on_glue f m)"
  using assms by (simp add: io_typed_def on_glue_def glue_of_def l2_typed_def)

lemma typed_al: "io_typed m \<Longrightarrow> al_typed ((io_al m)\<lparr>fds := io_table m\<rparr>)"
  by (simp add: io_typed_def)

lemma init_typed:
  assumes "io_typed m" and "16 \<le> length (oscore_master_secret cfg)" "16 \<le> length (oscore_master_salt cfg)"
  shows "\<exists>rc m'. on_al (schc_al_init cfg ctx_init fd ioctl sys) m = Some (rc, m') \<and> io_typed m'"
proof -
  let ?al = "(io_al m)\<lparr>fds := io_table m\<rparr>"
  have "schc_al_init cfg ctx_init fd ioctl sys ?al \<noteq> None"
    using assms(2,3)
    by (simp add: schc_al_init_def oscore_security_context_init_def load_def Let_def split: prod.split if_split)
  then obtain rc a where a: "schc_al_init cfg ctx_init fd ioctl sys ?al = Some (rc, a)"
    by auto
  then have "io_typed (m\<lparr>io_al := a, io_table := fds a\<rparr>)"
    using al_typed_init [OF typed_al [OF assms(1)] a] assms(1) by (intro io_typed_al) (auto split: if_splits)
  with a show ?thesis
    by (simp add: on_al_def)
qed

lemma process_typed:
  assumes "conv_contract conv" "conv_returns B conv" "codec_bounded sdk" "128 \<le> B" "B < 65536"
    and "io_typed m" and "read_tun reads = Some r" "segment_fits r"
  shows "\<exists>st m'. on_al (schc_al_process cfg sdk conv ns reads) m = Some (st, m') \<and> io_typed m'"
proof -
  obtain st a where a: "schc_al_process cfg sdk conv ns reads ((io_al m)\<lparr>fds := io_table m\<rparr>) = Some (st, a)"
    "al_typed a" "fds a = io_table m"
    using al_typed_process [OF assms(1-5) typed_al [OF assms(6)] assms(7,8), of cfg ns] by auto
  then have "io_typed (m\<lparr>io_al := a, io_table := fds a\<rparr>)"
    using assms(6) by (intro io_typed_al) auto
  with a show ?thesis
    by (simp add: on_al_def)
qed

lemma handler_typed:
  assumes "sdk_sound sdk" and "io_typed m" and "watched (io_table m) fd = Some (Some cb)"
  shows "\<exists>m'. handler sdk cb m = Some m' \<and> io_typed m' \<and> io_table m' = io_table m"
proof (cases cb)
  case Tun_received
  have "al_typed (schc_al_tun_received_handler ((io_al m)\<lparr>fds := io_table m\<rparr>))"
    using al_typed_callbacks(1) [OF typed_al [OF assms(2)]] .
  then have "io_typed (m\<lparr>io_al := schc_al_tun_received_handler (io_al m)\<rparr>)"
    using assms(2) by (simp add: io_typed_def glue_of_def schc_al_tun_received_handler_def al_typed_def)
  with Tun_received show ?thesis
    by (simp add: handler_def)
next
  case Downlink_available
  let ?l = "(io_l2 m)\<lparr>l2_fds := io_table m\<rparr>"
  have cb: "cb_set (io_l2 m)"
    using assms(2,3) Downlink_available by (auto simp: io_typed_def l2_typed_def)
  let ?l1 = "?l\<lparr>l2_event := raise_flag (l2_event ?l) DOWNLINK_AVAILABLE_EVENT, calls := calls ?l @ [Processing_required]\<rparr>"
  obtain l' where l': "l2_callbacks sdk Processing_required ?l1 = Some l'" "l2_fds l' = l2_fds ?l1" "cb_set l' = cb_set ?l1"
    "length (sdk_timers (fst (upper l'))) = length (sdk_timers (fst (upper ?l1)))"
    using assms(1) unfolding sdk_sound_def by blast
  have "handler sdk cb m = Some (m\<lparr>io_l2 := l', io_table := l2_fds l'\<rparr>)"
    using l'(1) cb Downlink_available
    by (simp add: handler_def on_l2_def downlink_available_callback_def raise_event_def L2_Ahoi.callback_def)
  moreover have "io_typed (m\<lparr>io_l2 := l', io_table := l2_fds l'\<rparr>)"
    using assms(2) l'(2-4) cb by (simp add: io_typed_def l2_typed_def glue_of_def)
  ultimately show ?thesis
    using l'(2) by simp
qed

lemma handlers_typed:
  assumes "sdk_sound sdk"
  shows "io_typed m \<Longrightarrow> \<forall>cb \<in> set cbs. \<exists>fd. watched (io_table m) fd = Some (Some cb) \<Longrightarrow>
    \<exists>m'. snd (fold (call_handler sdk) cbs (tb, Some m)) = Some m' \<and> io_typed m' \<and> io_table m' = io_table m"
proof (induction cbs arbitrary: m)
  case (Cons cb cbs)
  obtain fd where "watched (io_table m) fd = Some (Some cb)"
    using Cons.prems(2) by auto
  then obtain m1 where m1: "handler sdk cb m = Some m1" "io_typed m1" "io_table m1 = io_table m"
    using handler_typed [OF assms Cons.prems(1)] by blast
  then show ?case
    using Cons.IH [of m1] Cons.prems(2) by (simp add: call_handler_def)
qed simp

lemma expiries_typed:
  assumes "sdk_sound sdk"
  shows "io_typed m \<Longrightarrow> \<exists>m'. expiries sdk is m = Some m' \<and> io_typed m'"
proof (induction "is" arbitrary: m)
  case (Cons i "is")
  let ?g = "fst (timer_expired i (glue_of m))"
  have g: "length (sdk_timers ?g) = length (sdk_timers (glue_of m))"
    by (simp add: timer_expired_def split: prod.split)
  have m: "io_typed (on_glue (\<lambda>_. ?g) m)"
    by (rule io_typed_glue) (use Cons.prems g in simp_all)
  show ?case
  proof (cases "snd (timer_expired i (glue_of m))")
    case None
    then show ?thesis
      using Cons.IH Cons.prems m by (simp add: split_beta Let_def)
  next
    case (Some k)
    obtain m1 where "mgt_timer_timeout sdk k (on_glue (\<lambda>_. ?g) m) = Some m1" "io_typed m1"
      using assms m unfolding sdk_sound_def by blast
    then show ?thesis
      using Cons.IH Cons.prems Some by (simp add: split_beta Let_def)
  qed
qed simp

section \<open>The program\<close>

lemma watched_slot:
  assumes "watch_inv t" and "cb \<in> set (ready_callbacks ready t)"
  shows "\<exists>fd. watched t fd = Some (Some cb)"
proof -
  obtain i where i: "i < length (used_slots t)" "slot_cb (t ! i) = Some cb"
    using assms(2) by (auto simp: ready_callbacks_def split: if_splits option.splits)
  have us: "used_slots t ! i = t ! i"
    using i(1) unfolding used_slots_def by (rule takeWhile_nth)
  have "(slot_fd (t ! i), slot_cb (t ! i)) \<in> set (map (\<lambda>s. (slot_fd s, slot_cb s)) (used_slots t))"
    using i(1) us nth_mem [OF i(1)] by auto
  moreover have "distinct (map fst (map (\<lambda>s. (slot_fd s, slot_cb s)) (used_slots t)))"
    using assms(1) by (simp add: watch_inv_def comp_def)
  ultimately have "watched t (slot_fd (t ! i)) = Some (slot_cb (t ! i))"
    unfolding watched_def by (rule map_of_is_SomeI [rotated])
  with i(2) show ?thesis
    by auto
qed

lemma sleep_typed:
  assumes "sdk_sound sdk" and "io_typed (io w)"
  shows "\<exists>w'. sleep_turn sdk t w = Some w' \<and> io_typed (io w')"
proof -
  let ?tb = "io_table (io w)"
  have inv: "watch_inv ?tb"
    using assms(2) by (simp add: io_typed_def l2_typed_def)
  obtain s tb m where low: "platform_enter_low_power_ll (call_handler sdk) (poll_ret t) (poll_ready t) (?tb, Some (io w)) =
      (s, tb, Some m)" "io_typed (m\<lparr>io_table := tb\<rparr>)"
  proof (cases "slot_fd (?tb ! 0) = -1 \<or> poll_ret t \<le> 0")
    case True
    then have "\<exists>s. platform_enter_low_power_ll (call_handler sdk) (poll_ret t) (poll_ready t) (?tb, Some (io w)) =
        (s, ?tb, Some (io w))"
      by (auto simp: platform_enter_low_power_ll_def Let_def)
    moreover have "(io w)\<lparr>io_table := ?tb\<rparr> = io w"
      by simp
    ultimately show thesis
      using that assms(2) by metis
  next
    case False
    then have "platform_enter_low_power_ll (call_handler sdk) (poll_ret t) (poll_ready t) (?tb, Some (io w)) =
        (Poll_returned, fold (call_handler sdk) (ready_callbacks (poll_ready t) ?tb) (?tb, Some (io w)))"
      using inv
      by (simp add: platform_enter_low_power_ll_def Let_def ready_callbacks_def poll_array_used
          dispatch_ready_fold [where call = "call_handler sdk" and fds = ?tb, OF fst_call_handler])
    moreover obtain m where m: "snd (fold (call_handler sdk) (ready_callbacks (poll_ready t) ?tb) (?tb, Some (io w))) = Some m"
      "io_typed m" "io_table m = ?tb"
      using handlers_typed [OF assms, of "ready_callbacks (poll_ready t) ?tb" ?tb] watched_slot [OF inv] by blast
    moreover have "fst (fold (call_handler sdk) cbs (tb, r)) = tb" for cbs tb r
      by (induction cbs arbitrary: r) (simp_all add: call_handler_def)
    ultimately show thesis
      using that [of Poll_returned ?tb m] by (metis prod.collapse io.surjective io.update_convs(3))
  qed
  obtain m' where "expiries sdk (expired_asleep t) (m\<lparr>io_table := tb\<rparr>) = Some m'" "io_typed m'"
    using expiries_typed [OF assms(1) low(2)] by blast
  then show ?thesis
    using low(1) by (simp add: sleep_turn_def add_log_def sigint_handler_def Let_def)
qed

text \<open>What the TUN device may deliver in a turn.\<close>

definition turn_fits :: "turn \<Rightarrow> bool" where
  "turn_fits t \<longleftrightarrow> (\<exists>r. read_tun (tun_reads t) = Some r \<and> segment_fits r)"

lemma serve_mgt_typed:
  assumes "sdk_sound sdk" and "io_typed (io w)"
  shows "\<exists>w'. serve_mgt sdk w = Some w' \<and> io_typed (io w')"
proof -
  have "io_typed (on_glue (\<lambda>g. g\<lparr>mgt_process_request := False\<rparr>) (io w))"
    using assms(2) by (rule io_typed_glue) simp
  then obtain x m where "mgt_process sdk (on_glue (\<lambda>g. g\<lparr>mgt_process_request := False\<rparr>) (io w)) = Some (x, m)" "io_typed m"
    using assms(1) unfolding sdk_sound_def by blast
  then show ?thesis
    using assms(2) by (cases "mgt_process_request (glue_of (io w))") (auto simp: serve_mgt_def add_log_def)
qed

lemma serve_al_typed:
  assumes "conv_contract conv" "conv_returns B conv" "codec_bounded (sdk_compress sdk)" "128 \<le> B" "B < 65536"
    and "io_typed (io w)" and "read_tun reads = Some r" "segment_fits r"
  shows "\<exists>w'. serve_al c sdk conv reads w = Some w' \<and> io_typed (io w')"
proof -
  obtain st m where "on_al (schc_al_process (al_options c) (sdk_compress sdk) conv (sdk_net_sendto sdk) reads) (io w) = Some (st, m)"
    "io_typed m"
    using process_typed [OF assms] by blast
  then show ?thesis
    using assms(6) by (cases "schc_al_is_processing_required (io_al (io w))") (auto simp: serve_al_def add_log_def)
qed

lemma turn_typed:
  assumes "sdk_sound sdk" "conv_contract conv" "conv_returns B conv" "128 \<le> B" "B < 65536"
    and "turn_fits t" and "io_typed (io w)"
  shows "\<exists>w'. main_turn c sdk conv t w = Some w' \<and> io_typed (io w')"
proof -
  obtain r where r: "read_tun (tun_reads t) = Some r" "segment_fits r"
    using assms(6) by (auto simp: turn_fits_def)
  have codec: "codec_bounded (sdk_compress sdk)"
    using assms(1) by (simp add: sdk_sound_def)
  obtain m where m: "expiries sdk (expired_early t) (io w) = Some m" "io_typed m"
    using expiries_typed [OF assms(1,7)] by blast
  then obtain w2 where w2: "serve_mgt sdk (w\<lparr>io := m\<rparr>) = Some w2" "io_typed (io w2)"
    using serve_mgt_typed [OF assms(1), of "w\<lparr>io := m\<rparr>"] by auto
  then obtain w3 where w3: "serve_al c sdk conv (tun_reads t) w2 = Some w3" "io_typed (io w3)"
    using serve_al_typed [OF assms(2,3) codec assms(4,5) w2(2) r] by blast
  then show ?thesis
    using m(1) w2(1) sleep_typed [OF assms(1) w3(2), of t] by (simp add: main_turn_def)
qed

lemma loop_typed:
  assumes "sdk_sound sdk" "conv_contract conv" "conv_returns B conv" "128 \<le> B" "B < 65536"
  shows "\<forall>t \<in> set ts. turn_fits t \<Longrightarrow> io_typed (io w) \<Longrightarrow>
    \<exists>e w'. main_loop c sdk conv ts w = Some (e, w') \<and> io_typed (io w')"
proof (induction ts arbitrary: w)
  case (Cons t ts)
  then obtain w1 where "main_turn c sdk conv t w = Some w1" "io_typed (io w1)"
    using turn_typed [OF assms, of t w c] by auto
  then show ?case
    using Cons by (cases "terminate_flag w") auto
qed simp

lemma setup_typed: "io_typed (io w) \<Longrightarrow> io_typed (io (main_setup c b w))"
  by (simp add: main_setup_def Let_def io_typed_def on_glue_def glue_of_def l2_typed_def init_sdk_timers_def
      init_sdk_timer_def l2_set_mtu_def l2_set_iid_def l2_set_serial_port_def l2_set_next_tx_delay_def
      split: prod.split)

lemma terminate_typed:
  assumes "io_typed m"
  shows "io_typed (main_terminate c m)"
proof -
  let ?a = "snd (schc_al_terminate ((io_al m)\<lparr>fds := io_table m\<rparr>))"
  have "io_typed (m\<lparr>io_al := ?a, io_table := fds ?a\<rparr>)"
    using al_typed_terminate [OF typed_al [OF assms]] assms by (intro io_typed_al) (auto split: if_splits)
  moreover have "snd (the (on_al (Some \<circ> schc_al_terminate) m)) = m\<lparr>io_al := ?a, io_table := fds ?a\<rparr>"
    by (simp add: on_al_def split_beta)
  ultimately show ?thesis
    by (simp add: main_terminate_def Let_def io_typed_def l2_typed_def l2_deinit_def glue_of_def)
qed

lemma initialize_typed:
  assumes "sdk_sound sdk" and "16 \<le> length (oscore_master_secret (al_options c))"
    and "16 \<le> length (oscore_master_salt (al_options c))" and "io_typed m0"
  shows "\<exists>ok m. main_initialize c sdk b m0 = Some (ok, m) \<and> io_typed m"
proof -
  obtain x m1 where m1: "mgt_initialize sdk m0 = Some (x, m1)" "io_typed m1"
    using assms(1,4) unfolding sdk_sound_def by blast
  obtain y m2 where m2: "net_initialize sdk m1 = Some (y, m2)" "io_typed m2"
    using assms(1) m1(2) unfolding sdk_sound_def by blast
  obtain rc m3 where m3: "on_al (schc_al_init (al_options c) (context_init b) (tun_open b) (tun_ioctl b) (run_system b)) m2 = Some (rc, m3)"
    "io_typed m3"
    using init_typed [OF m2(2) assms(2,3)] by blast
  show ?thesis
    using m1 m2 m3 by (cases x; cases y; cases "rc = 0"; cases "sigaction_ok b") (auto simp: main_initialize_def)
qed


section \<open>A run\<close>

lemma example_link_total: "example_link_cb x l = Some (l\<lparr>upper :=
    (if x = Processing_required then (cb_mgt_processing_required (fst (upper l)), snd (upper l)) else upper l)\<rparr>)"
  by (simp add: example_link_cb_def)

lemma no_event_flag: "\<not> has_flag L2A_NO_EVENT f"
  by (simp add: L2A_NO_EVENT_def has_flag_def)

lemma example_api_sound: "sdk_sound example_api"
proof -
  have init: "\<exists>r m'. mgt_initialize example_api m = Some (r, m') \<and> io_typed m'" if m: "io_typed m" for m :: "(unit, unit) io"
  proof -
    obtain r t where w: "watch_fd_for_input 4 (Some Downlink_available) (io_table m) = (r, t)"
      by (cases "watch_fd_for_input 4 (Some Downlink_available) (io_table m)")
    have inv: "watch_inv (io_table m)"
      using m by (simp add: io_typed_def l2_typed_def)
    show ?thesis
      using m w watch_typed [OF inv w]
      by (auto simp: example_api_def on_l2_def l2a_initialize_def raise_event_def L2_Ahoi.callback_def
          example_link_total io_typed_def al_typed_def l2_typed_def glue_of_def cb_mgt_processing_required_def Let_def
          split: if_splits)
  qed
  have process: "\<exists>r m'. mgt_process example_api m = Some (r, m') \<and> io_typed m'" if m: "io_typed m" for m :: "(unit, unit) io"
  proof (cases "cb_set (io_l2 m)")
    case True
    then show ?thesis
      using m
      by (auto simp: example_api_def on_l2_def l2a_process_def read_downlink_def L2_Ahoi.callback_def example_link_total
          io_typed_def al_typed_def l2_typed_def glue_of_def)
  next
    case False
    then have "l2_event (io_l2 m) = L2A_NO_EVENT"
      using m by (auto simp: io_typed_def l2_typed_def)
    then show ?thesis
      using m False
      by (auto simp: example_api_def on_l2_def l2a_process_def no_event_flag io_typed_def al_typed_def l2_typed_def glue_of_def)
  qed
  have "codec_bounded (sdk_compress example_api)"
    by (simp add: example_api_def codec_bounded_def)
  moreover have "\<exists>r m'. net_initialize example_api m = Some (r, m') \<and> io_typed m'"
    "\<exists>m'. mgt_timer_timeout example_api k m = Some m' \<and> io_typed m'" if "io_typed m" for m :: "(unit, unit) io" and k
    using that by (auto simp: example_api_def)
  moreover have "\<exists>l'. l2_callbacks example_api Processing_required l = Some l' \<and> l2_fds l' = l2_fds l \<and> cb_set l' = cb_set l
      \<and> length (sdk_timers (fst (upper l'))) = length (sdk_timers (fst (upper l)))" for l
    by (simp add: example_api_def example_link_total cb_mgt_processing_required_def)
  ultimately show ?thesis
    using init process unfolding sdk_sound_def by blast
qed

lemma example_worker_typed: "io_typed (io example_worker)"
  by (simp add: example_worker_def io_typed_def al_typed_def l2_typed_def l2a_initial_def example_al_def
      example_timers_def glue_of_def NB_SDK_TIMERS_def IPv6_MAX_PACKET_SIZE_def IFNAMSIZ_def)

lemma example_bound: "128 \<le> (256 :: nat)" "256 < (65536 :: nat)"
  by simp_all

lemma example_keys:
  "16 \<le> length (oscore_master_secret (al_options example_main_cfg))" "16 \<le> length (oscore_master_salt (al_options example_main_cfg))"
  by (simp_all add: example_main_cfg_def example_cfg_def)


end
