(* ===== verification/Worker_Delivery.thy ===== *)
theory Worker_Delivery
  imports Worker_Types
begin

text \<open>
  From a readable TUN device to a packet in the hands of the stack: the event loop, the descriptor
  table and the adaptation layer together. What the SDK does in between is left open, except that it
  reaches the adaptation layer only through the two callbacks that layer registered.
\<close>

section \<open>What the SDK does to the adaptation layer\<close>

inductive al_call :: "'ctx al \<Rightarrow> 'ctx al \<Rightarrow> bool" where
  result: "al_call al (net_transmission_result status error al)"
| received: "net_data_received cfg codec stack conv ok buffer n status al = Some (buffer', al') \<Longrightarrow> al_call al al'"

definition sdk_calls_al :: "('ctx, 's) sdk_api \<Rightarrow> bool" where
  "sdk_calls_al sdk \<longleftrightarrow>
     (\<forall>m r m'. mgt_process sdk m = Some (r, m') \<longrightarrow> al_call\<^sup>*\<^sup>* (io_al m) (io_al m'))
     \<and> (\<forall>k m m'. mgt_timer_timeout sdk k m = Some m' \<longrightarrow> al_call\<^sup>*\<^sup>* (io_al m) (io_al m'))"

text \<open>What stays of the module's state until it is asked to process: nothing is sent, no transmission begins,
  no request is withdrawn.\<close>

definition kept :: "'ctx al \<Rightarrow> 'ctx al \<Rightarrow> bool" where
  "kept a b \<longleftrightarrow> sent b = sent a \<and> tun_fd b = tun_fd a
     \<and> oscore_inner_schc_enabled (proxy b) = oscore_inner_schc_enabled (proxy a)
     \<and> (has_flag (event b) ONGOING_TRANSMISSION \<longrightarrow> has_flag (event a) ONGOING_TRANSMISSION)
     \<and> (has_flag (event a) IP_PACKET_AVAILABLE \<longrightarrow> has_flag (event b) IP_PACKET_AVAILABLE)
     \<and> (processing_required a \<longrightarrow> processing_required b)"

definition asked_for :: "'ctx al \<Rightarrow> bool" where
  "asked_for a \<longleftrightarrow> processing_required a \<and> has_flag (event a) IP_PACKET_AVAILABLE"

lemma kept_refl [simp]: "kept a a"
  by (simp add: kept_def)

lemma kept_trans: "kept a b \<Longrightarrow> kept b c \<Longrightarrow> kept a c"
  by (auto simp: kept_def)

lemma kept_asked: "kept a b \<Longrightarrow> asked_for a \<Longrightarrow> asked_for b"
  by (auto simp: kept_def asked_for_def)

lemma handler_asks: "kept a (schc_al_tun_received_handler a)" "asked_for (schc_al_tun_received_handler a)"
  by (simp_all add: kept_def asked_for_def schc_al_tun_received_handler_def)

lemma oscore_up_kept: "oscore_to_coap codec stack conv px b i n j cap = Some (r, px', b', m) \<Longrightarrow>
    oscore_inner_schc_enabled px' = oscore_inner_schc_enabled px"
  by (auto simp: oscore_to_coap_def Let_def split: Option.bind_split_asm if_split_asm)

lemma write_tun_kept: "write_tun ok b n a = Some (r, b', a') \<Longrightarrow> kept a a'"
  by (auto simp: write_tun_def kept_def split: Option.bind_split_asm if_split_asm)

lemma kept_proxy: "oscore_inner_schc_enabled px = oscore_inner_schc_enabled (proxy a) \<Longrightarrow> kept a (a\<lparr>proxy := px\<rparr>)"
  by (simp add: kept_def)

lemma forward_up_kept:
  assumes "schc_al_forward_up cfg codec stack conv ok b n a = Some (r, b', a')"
  shows "kept a a'"
proof (cases "tun_fd a < 0 \<or> n = 0 \<or> is_ipv6_udp_packet (Some b) (unat n) \<noteq> Some True")
  case True
  then show ?thesis
    using assms by (auto simp: schc_al_forward_up_def split: if_split_asm Option.bind_split_asm)
next
  case False
  then obtain k where k: "ipv6_udp_payload_len b = Some k"
    using assms by (auto simp: schc_al_forward_up_def split: Option.bind_split_asm)
  show ?thesis
  proof (cases "is_coap_packet (drop (sizeof_ip6_hdr + sizeof_udphdr) b) (unat n) = Some True \<and> oscore_proxy_enabled cfg")
    case True
    then obtain st px b1 m where c: "oscore_to_coap codec stack conv (proxy a) b (sizeof_ip6_hdr + sizeof_udphdr)
        (ucast (ucast k :: u32)) (sizeof_ip6_hdr + sizeof_udphdr) (ucast k) = Some (st, px, b1, m)"
      using assms False k by (auto simp: schc_al_forward_up_def Let_def split: Option.bind_split_asm)
    have px: "kept a (a\<lparr>proxy := px\<rparr>)"
      by (rule kept_proxy) (rule oscore_up_kept [OF c])
    have "kept (a\<lparr>proxy := px\<rparr>) a'"
      using assms False k True c
      by (cases st) (auto simp: schc_al_forward_up_def Let_def split: Option.bind_split_asm dest: write_tun_kept)
    with px show ?thesis
      by (rule kept_trans)
  next
    case other: False
    then show ?thesis
      using assms False k
      by (auto simp: schc_al_forward_up_def Let_def split: Option.bind_split_asm if_split_asm dest: write_tun_kept)
  qed
qed

lemma al_call_kept: "al_call a b \<Longrightarrow> kept a b"
  by (induction rule: al_call.induct)
    (use forward_up_kept in \<open>fastforce simp: net_data_received_def net_transmission_result_def kept_def
      split: net_status.split_asm Option.bind_split_asm\<close>)+

lemma al_calls_kept: "al_call\<^sup>*\<^sup>* a b \<Longrightarrow> kept a b"
  by (induction rule: rtranclp_induct) (auto intro: kept_trans al_call_kept)

section \<open>The loop until the module is served\<close>

lemma handler_kept:
  assumes "handler sdk cb m = Some m'"
  shows "kept (io_al m) (io_al m')" and "cb = Tun_received \<Longrightarrow> asked_for (io_al m')"
proof -
  have "kept (io_al m) (io_al m') \<and> (cb = Tun_received \<longrightarrow> asked_for (io_al m'))"
  proof (cases cb)
    case Tun_received
    then have "m' = m\<lparr>io_al := schc_al_tun_received_handler (io_al m)\<rparr>"
      using assms by (simp add: tun_handler)
    then show ?thesis
      by (simp add: handler_asks)
  next
    case Downlink_available
    then show ?thesis
      using assms downlink_handler(1) [of sdk m m'] by simp
  qed
  then show "kept (io_al m) (io_al m')" and "cb = Tun_received \<Longrightarrow> asked_for (io_al m')"
    by simp_all
qed

lemma handlers_kept:
  "snd (fold (call_handler sdk) cbs (tb, Some m)) = Some m' \<Longrightarrow>
    kept (io_al m) (io_al m') \<and> (Tun_received \<in> set cbs \<longrightarrow> asked_for (io_al m'))"
proof (induction cbs arbitrary: m)
  case (Cons cb cbs)
  show ?case
  proof (cases "handler sdk cb m")
    case None
    then have "snd (fold (call_handler sdk) cbs (tb, None)) = Some m'"
      using Cons.prems by (simp add: call_handler_def [of _ _ "(tb, Some m)"])
    moreover have "snd (fold (call_handler sdk) cbs (tb, None)) = None" for cbs
      by (induction cbs) (simp_all add: call_handler_def)
    ultimately show ?thesis
      by simp
  next
    case (Some m1)
    then have "kept (io_al m1) (io_al m')" "Tun_received \<in> set cbs \<longrightarrow> asked_for (io_al m')"
      using Cons.IH [of m1] Cons.prems by (simp_all add: call_handler_def [of _ _ "(tb, Some m)"])
    with handler_kept [OF Some] show ?thesis
      using kept_trans kept_asked by fastforce
  qed
qed simp

lemma expiries_kept:
  assumes "sdk_calls_al sdk"
  shows "expiries sdk is m = Some m' \<Longrightarrow> kept (io_al m) (io_al m')"
proof (induction "is" arbitrary: m)
  case (Cons i "is")
  let ?m = "on_glue (\<lambda>_. fst (timer_expired i (glue_of m))) m"
  have g: "io_al ?m = io_al m"
    by (simp add: on_glue_def)
  show ?case
  proof (cases "i \<ge> NB_SDK_TIMERS \<or> snd (timer_expired i (glue_of m)) = None")
    case True
    then show ?thesis
      using Cons.IH [of m] Cons.IH [of ?m] Cons.prems g by (auto simp: split_beta Let_def split: if_split_asm)
  next
    case False
    then obtain k m1 where m1: "mgt_timer_timeout sdk k ?m = Some m1" "expiries sdk is m1 = Some m'"
      using Cons.prems by (auto simp: split_beta Let_def split: Option.bind_split_asm)
    then have "al_call\<^sup>*\<^sup>* (io_al ?m) (io_al m1)"
      using assms unfolding sdk_calls_al_def by blast
    then have "kept (io_al m) (io_al m1)"
      unfolding g by (rule al_calls_kept)
    with Cons.IH [OF m1(2)] show ?thesis
      by (rule kept_trans [rotated])
  qed
qed simp

lemma serve_mgt_kept:
  assumes "sdk_calls_al sdk" and "serve_mgt sdk w = Some w'"
  shows "kept (io_al (io w)) (io_al (io w'))"
proof -
  have keep: "kept (io_al m) (io_al m')" if "mgt_process sdk m = Some (x, m')" for m x m'
    using assms(1) that unfolding sdk_calls_al_def by (blast intro: al_calls_kept)
  show ?thesis
    using assms(2)
    by (auto simp: serve_mgt_def add_log_def on_glue_def split: if_split_asm Option.bind_split_asm dest!: keep)
qed

lemma sleep_kept:
  assumes "sdk_calls_al sdk" and "watch_inv (io_table (io w))" and "sleep_turn sdk t w = Some w'"
  shows "kept (io_al (io w)) (io_al (io w'))"
    and "\<lbrakk>i < length (used_slots (io_table (io w))); slot_cb (io_table (io w) ! i) = Some Tun_received;
      0 < poll_ret t; poll_ready t i\<rbrakk> \<Longrightarrow> asked_for (io_al (io w'))"
proof -
  let ?tb = "io_table (io w)"
  let ?cbs = "if slot_fd (?tb ! 0) = -1 \<or> poll_ret t \<le> 0 then [] else ready_callbacks (poll_ready t) ?tb"
  have low: "snd (snd (platform_enter_low_power_ll (call_handler sdk) (poll_ret t) (poll_ready t) (?tb, Some (io w)))) =
      snd (fold (call_handler sdk) ?cbs (?tb, Some (io w)))"
    using assms(2)
    by (simp add: platform_enter_low_power_ll_def Let_def ready_callbacks_def poll_array_used
        dispatch_ready_fold [where call = "call_handler sdk" and fds = ?tb, OF fst_call_handler])
  obtain m tb m' where m: "snd (snd (platform_enter_low_power_ll (call_handler sdk) (poll_ret t) (poll_ready t) (?tb, Some (io w)))) = Some m"
    "expiries sdk (expired_asleep t) (m\<lparr>io_table := tb\<rparr>) = Some m'" "io w' = m'"
    using assms(3) by (auto simp: sleep_turn_def add_log_def sigint_handler_def Let_def split_beta split: Option.bind_split_asm if_split_asm)
  have h: "kept (io_al (io w)) (io_al m)" "Tun_received \<in> set ?cbs \<longrightarrow> asked_for (io_al m)"
    using handlers_kept [OF m(1) [unfolded low]] by blast+
  have e: "kept (io_al m) (io_al (io w'))"
    using expiries_kept [OF assms(1) m(2)] m(3) by simp
  show "kept (io_al (io w)) (io_al (io w'))"
    by (rule kept_trans [OF h(1) e])
  assume i: "i < length (used_slots ?tb)" "slot_cb (?tb ! i) = Some Tun_received" "0 < poll_ret t" "poll_ready t i"
  have "slot_fd (?tb ! 0) \<noteq> -1"
    using i(1) by (cases ?tb) (auto simp: used_slots_def split: if_splits)
  then have "Tun_received \<in> set ?cbs"
    using i by (force simp: ready_callbacks_def)
  then show "asked_for (io_al (io w'))"
    using h(2) e kept_asked by blast
qed

text \<open>A turn serves the adaptation layer when it asked for it, in a state in which nothing but the stack
  acted on it, and what it sends then is all that it sends in the turn.\<close>

lemma turn_serves_al:
  assumes "sdk_sound sdk" "sdk_calls_al sdk" "conv_contract conv" "conv_returns B conv" "128 \<le> B" "B < 65536"
    and "io_typed (io w)" "asked_for (io_al (io w))" "turn_fits t" "main_turn c sdk conv t w = Some w'"
  obtains a where "kept (io_al (io w)) a" "asked_for a" "length (net_buffer a) = 256"
    "\<And>st a'. schc_al_process (al_options c) (sdk_compress sdk) conv (sdk_net_sendto sdk) (tun_reads t) a = Some (st, a') \<Longrightarrow>
      sent (io_al (io w')) = sent a'"
proof -
  obtain m w3 w4 where early: "expiries sdk (expired_early t) (io w) = Some m"
    and mgt: "serve_mgt sdk (w\<lparr>io := m\<rparr>) = Some w3"
    and al: "serve_al c sdk conv (tun_reads t) w3 = Some w4" and sleep: "sleep_turn sdk t w4 = Some w'"
    using assms(10) by (auto simp: main_turn_def split: Option.bind_split_asm)
  have m: "io_typed m"
    using expiries_typed [OF assms(1,7), of "expired_early t"] early by auto
  have w3: "io_typed (io w3)"
    using serve_mgt_typed [OF assms(1), of "w\<lparr>io := m\<rparr>"] m mgt by auto
  define a where "a = (io_al (io w3))\<lparr>fds := io_table (io w3)\<rparr>"
  have k: "kept (io_al (io w)) (io_al (io w3))"
    using expiries_kept [OF assms(2) early] serve_mgt_kept [OF assms(2) mgt] kept_trans by auto
  then have asked: "asked_for (io_al (io w3))"
    using assms(8) kept_asked by blast
  have "kept (io_al (io w)) a" "asked_for a" "length (net_buffer a) = 256"
    using k asked w3 by (auto simp: a_def kept_def asked_for_def io_typed_def al_typed_def IPv6_MAX_PACKET_SIZE_def)
  moreover have "sent (io_al (io w')) = sent a'"
    if "schc_al_process (al_options c) (sdk_compress sdk) conv (sdk_net_sendto sdk) (tun_reads t) a = Some (st, a')" for st a'
  proof -
    have "io_al (io w4) = a'"
      using al that asked
      by (simp add: serve_al_def on_al_def add_log_def schc_al_is_processing_required_def a_def asked_for_def) auto
    moreover have "io_typed (io w4)"
      using serve_al_typed [OF assms(3,4) _ assms(5,6) w3, of "sdk" "tun_reads t", where c = c] al assms(1,9)
      by (fastforce simp: sdk_sound_def turn_fits_def)
    then have "sent (io_al (io w')) = sent (io_al (io w4))"
      using sleep_kept(1) [OF assms(2) _ sleep] by (simp add: io_typed_def l2_typed_def kept_def)
    ultimately show ?thesis
      by simp
  qed
  ultimately show thesis
    by (rule that)
qed

section \<open>The next turn sends the packet\<close>


lemma example_started_facts:
  "tun_fd (io_al (io example_started)) = 5" "\<not> has_flag (event (io_al (io example_started))) ONGOING_TRANSMISSION" "sent (io_al (io example_started)) = []"
  by code_simp+

lemma example_started_typed: "io_typed (io example_started)"
proof -
  obtain ok m where "main_initialize example_main_cfg example_api example_boot (io (main_setup example_main_cfg example_boot example_worker)) = Some (ok, m)"
    "io_typed m"
    using initialize_typed [OF example_api_sound example_keys setup_typed [OF example_worker_typed]] by blast
  then show ?thesis
    by (simp add: example_started_def)
qed

lemma example_api_calls: "sdk_calls_al example_api"
proof -
  have "io_al m' = io_al m" if "mgt_process example_api m = Some (r, m')" for m r m'
    using that by (auto simp: example_api_def on_l2_def split: Option.bind_split_asm)
  then show ?thesis
    unfolding sdk_calls_al_def by (auto simp: example_api_def)
qed


end
