(* ===== verification/Lpwan_Apps.thy ===== *)
theory Lpwan_Apps
  imports Schc_Helper_Props Net_Helper
begin

text \<open>
  The device and the core of the LPWAN model, \<open>applications/delivery/lpwan_model\<close>: the device
  configures the SDK through the helper, builds one IPv6/UDP packet and sends it, and again after
  every round in which data arrived; the core forwards the UDP datagrams it receives.

  Parameters: \<open>inet_pton\<close>, the outcomes of allocation and of the SDK, and what the SDK delivers in
  each turn of the loop. A delivered datagram is the memory the SDK hands over and the announced
  size. What is printed is left out, except that printing reads the bytes.
\<close>

section \<open>Common settings (common_defs.h)\<close>

definition CORE_TUNNEL_ADDR :: string where "CORE_TUNNEL_ADDR = ''127.0.0.1''"
definition CORE_TUNNEL_PORT :: string where "CORE_TUNNEL_PORT = ''4001''"
definition DEVICE_TUNNEL_ADDR :: string where "DEVICE_TUNNEL_ADDR = ''127.0.0.1''"
definition DEVICE_TUNNEL_PORT :: string where "DEVICE_TUNNEL_PORT = ''4002''"
definition APP_ADDR :: string where "APP_ADDR = ''::1''"
definition APP_PORT :: string where "APP_PORT = ''5683''"
definition DEVICE_ADDR :: string where "DEVICE_ADDR = ''::1''"
definition DEVICE_PORT :: string where "DEVICE_PORT = ''5643''"

lemmas common_defs = CORE_TUNNEL_ADDR_def CORE_TUNNEL_PORT_def DEVICE_TUNNEL_ADDR_def
  DEVICE_TUNNEL_PORT_def APP_ADDR_def APP_PORT_def DEVICE_ADDR_def DEVICE_PORT_def

datatype app_net_status = App_net_success | App_net_error nat

section \<open>The device (device.c)\<close>

definition APP_PAYLOAD_SIZE :: nat where "APP_PAYLOAD_SIZE = 100"

text \<open>\<open>sizeof(coap_payload)\<close> bytes behind the two headers.\<close>

definition device_payload :: memory where
  "device_payload = [0xAB, 0xCD]"

definition device_packet_size :: nat where
  "device_packet_size = 40 + 8 + length device_payload"

record device =
  dev_helper :: "unit helper"
  app_process_request :: bool
  app_send_data_request :: bool
  app_payload :: memory
  dev_sends :: "memory list"

definition device_initial :: "glue \<Rightarrow> device" where
  "device_initial g = \<lparr>dev_helper = helper_initial g, app_process_request = False,
     app_send_data_request = False, app_payload = replicate APP_PAYLOAD_SIZE 0, dev_sends = []\<rparr>"

definition device_request :: "device \<Rightarrow> bool" where
  "device_request d = mgt_process_request (callbacks (dev_helper d))"

definition set_device_request :: "bool \<Rightarrow> device \<Rightarrow> device" where
  "set_device_request r d = d\<lparr>dev_helper := (dev_helper d)\<lparr>callbacks :=
     (callbacks (dev_helper d))\<lparr>mgt_process_request := r\<rparr>\<rparr>\<rparr>"

text \<open>The callback reads every byte to print it, whatever the status is.\<close>

definition device_data_received :: "memory \<Rightarrow> u16 \<Rightarrow> app_net_status \<Rightarrow> device \<Rightarrow> device ub" where
  "device_data_received buffer data_size status d =
     do {
       printed \<leftarrow> load buffer 0 (unat data_size);
       Some (d\<lparr>app_process_request := True, app_send_data_request := True\<rparr>)
     }"

text \<open>One turn of the loop: what \<open>mgt_process\<close> delivers and whether it succeeds, whether \<open>net_sendto\<close>
  does, and whether the SDK asks for processing during the sleep.\<close>

record device_turn =
  delivered :: "(memory \<times> u16 \<times> app_net_status) list"
  mgt_ok :: bool
  sendto_ok :: bool
  asked :: bool

fun deliver_all :: "(memory \<times> u16 \<times> app_net_status) list \<Rightarrow> device \<Rightarrow> device ub" where
  "deliver_all [] d = Some d"
| "deliver_all ((buffer, n, st) # rs) d = do { d \<leftarrow> device_data_received buffer n st d; deliver_all rs d }"

definition device_process :: "device_turn \<Rightarrow> device \<Rightarrow> (bool \<times> device) ub" where
  "device_process t d =
     (if device_request d then do {
        d \<leftarrow> deliver_all (delivered t) (set_device_request False d);
        Some (mgt_ok t, d)
      } else Some (True, d))"

definition device_send :: "device_turn \<Rightarrow> device \<Rightarrow> (bool \<times> device) ub" where
  "device_send t d =
     (if app_send_data_request d then do {
        packet \<leftarrow> load (app_payload d) 0 device_packet_size;
        let d = d\<lparr>dev_sends := dev_sends d @ [packet]\<rparr>;
        if \<not> sendto_ok t then Some (False, d) else Some (True, d\<lparr>app_send_data_request := False\<rparr>)
      } else Some (True, d))"

definition device_sleep :: "device_turn \<Rightarrow> device \<Rightarrow> device" where
  "device_sleep t d = (if asked t then set_device_request True d else d)"

text \<open>\<open>while (true)\<close>: false when the program has exited with a failure.\<close>

fun device_loop :: "device_turn list \<Rightarrow> device \<Rightarrow> (bool \<times> device) ub" where
  "device_loop [] d = Some (True, d)"
| "device_loop (t # ts) d =
     do {
       (ok, d) \<leftarrow> device_process t d;
       if \<not> ok then Some (False, d)
       else do {
         (ok, d) \<leftarrow> device_send t d;
         if \<not> ok then Some (False, d)
         else device_loop ts (device_sleep t d)
       }
     }"

text \<open>The environment of a start: the outcomes of allocation, of \<open>TimerInit\<close> and of the SDK.\<close>

record start_env =
  env_malloc :: "nat \<Rightarrow> bool"
  env_pton :: "string \<Rightarrow> memory option"
  env_stack :: memory
  env_timers :: "nat \<Rightarrow> bool \<times> timer_id option"
  env_mgt_ok :: bool
  env_nb_params :: byte
  env_accept :: "nat \<Rightarrow> memory \<Rightarrow> bool"
  env_net_ok :: bool

definition device_config :: "start_env \<Rightarrow> unit helper \<Rightarrow>
    (schc_config_result \<times> unit sdk_setup \<times> unit helper) ub" where
  "device_config e h =
     do {
       (r, h) \<leftarrow> start_config h;
       let h = with_sdk_mode SDK_DEVICE_MODE (with_mtu 100 h);
       h \<leftarrow> with_tunnel DEVICE_TUNNEL_ADDR DEVICE_TUNNEL_PORT CORE_TUNNEL_ADDR CORE_TUNNEL_PORT h;
       h \<leftarrow> with_ipv6_src_param (env_malloc e) (env_pton e) (env_stack e) DEVICE_ADDR h;
       h \<leftarrow> with_ipv6_udp_src_param (env_malloc e) DEVICE_PORT h;
       h \<leftarrow> with_ipv6_dst_param (env_malloc e) (env_pton e) (env_stack e) APP_ADDR h;
       h \<leftarrow> with_ipv6_udp_dst_param (env_malloc e) APP_PORT h;
       let h = with_net_callbacks () h;
       config_schc (env_timers e) (env_mgt_ok e) (env_nb_params e) (env_accept e) (env_net_ok e) h
     }"

definition device_main :: "start_env \<Rightarrow> device_turn list \<Rightarrow> device \<Rightarrow> (bool \<times> device) ub" where
  "device_main e ts d =
     do {
       (r, s, h) \<leftarrow> device_config e (dev_helper d);
       let d = d\<lparr>dev_helper := h\<rparr>;
       if r \<noteq> SCHC_CONFIG_OK then Some (False, d)
       else do {
         (rc, packet) \<leftarrow> generate_ipv6_udp_packet (env_pton e) (app_payload d)
           DEVICE_ADDR APP_PORT APP_ADDR DEVICE_PORT device_payload (length device_payload);
         printed \<leftarrow> load packet 0 device_packet_size;
         device_loop ts (d\<lparr>app_payload := packet, app_send_data_request := True\<rparr>)
       }
     }"

section \<open>The core (schc_core.c)\<close>

record core =
  core_helper :: "unit helper"
  core_process_request :: bool
  core_send_data_request :: bool
  core_sends :: "(memory \<times> memory) list"
  core_closed :: nat

text \<open>\<open>net_data_received\<close>: \<open>sock\<close> tells whether the raw socket can be opened, \<open>sent_ok\<close> whether
  \<open>sendto\<close> succeeds. The length passed to \<open>sendto\<close> is the \<open>int\<close> \<open>data_size - 40\<close>
  converted to \<open>size_t\<close>.\<close>

definition core_data_received ::
    "bool \<Rightarrow> bool \<Rightarrow> memory \<Rightarrow> u16 \<Rightarrow> app_net_status \<Rightarrow> core \<Rightarrow> core ub" where
  "core_data_received sock sent_ok buffer data_size status c =
     (if status \<noteq> App_net_success then Some c
      else do {
        printed \<leftarrow> load buffer 0 (unat data_size);
        let c = c\<lparr>core_process_request := True, core_send_data_request := True\<rparr>;
        if \<not> sock then Some c
        else do {
          dest_addr \<leftarrow> load buffer 8 16;
          datagram \<leftarrow> load buffer 40 (unat (ucast data_size - 40 :: u64));
          let c = (if sent_ok then c\<lparr>core_sends := core_sends c @ [(dest_addr, datagram)]\<rparr> else c);
          Some (c\<lparr>core_closed := core_closed c + 1\<rparr>)
        }
      })"

text \<open>The configuration of the core, with source and destination exchanged.\<close>

definition core_config :: "start_env \<Rightarrow> unit helper \<Rightarrow>
    (schc_config_result \<times> unit sdk_setup \<times> unit helper) ub" where
  "core_config e h =
     do {
       (r, h) \<leftarrow> start_config h;
       let h = with_sdk_mode SDK_APP_MODE (with_mtu 100 h);
       h \<leftarrow> with_tunnel CORE_TUNNEL_ADDR CORE_TUNNEL_PORT DEVICE_TUNNEL_ADDR DEVICE_TUNNEL_PORT h;
       h \<leftarrow> with_ipv6_src_param (env_malloc e) (env_pton e) (env_stack e) APP_ADDR h;
       h \<leftarrow> with_ipv6_udp_src_param (env_malloc e) APP_PORT h;
       h \<leftarrow> with_ipv6_dst_param (env_malloc e) (env_pton e) (env_stack e) DEVICE_ADDR h;
       h \<leftarrow> with_ipv6_udp_dst_param (env_malloc e) DEVICE_PORT h;
       let h = with_net_callbacks () h;
       config_schc (env_timers e) (env_mgt_ok e) (env_nb_params e) (env_accept e) (env_net_ok e) h
     }"

record core_turn =
  core_delivered :: "(bool \<times> bool \<times> memory \<times> u16 \<times> app_net_status) list"
  core_mgt_ok :: bool
  core_asked :: bool

fun core_deliver_all :: "(bool \<times> bool \<times> memory \<times> u16 \<times> app_net_status) list \<Rightarrow> core \<Rightarrow> core ub" where
  "core_deliver_all [] c = Some c"
| "core_deliver_all ((sock, sent_ok, buffer, n, st) # rs) c =
     do { c \<leftarrow> core_data_received sock sent_ok buffer n st c; core_deliver_all rs c }"

definition core_request :: "core \<Rightarrow> bool" where
  "core_request c = mgt_process_request (callbacks (core_helper c))"

definition set_core_request :: "bool \<Rightarrow> core \<Rightarrow> core" where
  "set_core_request r c = c\<lparr>core_helper := (core_helper c)\<lparr>callbacks :=
     (callbacks (core_helper c))\<lparr>mgt_process_request := r\<rparr>\<rparr>\<rparr>"

fun core_loop :: "core_turn list \<Rightarrow> core \<Rightarrow> (bool \<times> core) ub" where
  "core_loop [] c = Some (True, c)"
| "core_loop (t # ts) c =
     do {
       (ok, c) \<leftarrow> (if core_request c then do {
           c \<leftarrow> core_deliver_all (core_delivered t) (set_core_request False c); Some (core_mgt_ok t, c)
         } else Some (True, c));
       if \<not> ok then Some (False, c)
       else core_loop ts (if core_asked t then set_core_request True c else c)
     }"

definition core_main :: "start_env \<Rightarrow> core_turn list \<Rightarrow> core \<Rightarrow> (bool \<times> core) ub" where
  "core_main e ts c =
     do {
       (r, s, h) \<leftarrow> core_config e (core_helper c);
       let c = c\<lparr>core_helper := h\<rparr>;
       if r \<noteq> SCHC_CONFIG_OK then Some (False, c) else core_loop ts c
     }"

end
