(* ===== verification/Lpwan_Apps_Props.thy ===== *)
theory Lpwan_Apps_Props
  imports Lpwan_Apps
begin

text \<open>
  Properties of the LPWAN applications: the packets the device sends over a whole run, and what the
  core makes of the datagrams it is given.
\<close>

section \<open>The device\<close>

text \<open>A turn in which nothing fails: the announced sizes fit the delivered memory, and the SDK succeeds.\<close>

definition smooth :: "device_turn \<Rightarrow> bool" where
  "smooth t \<longleftrightarrow> (\<forall>(buffer, n, st) \<in> set (delivered t). unat n \<le> length buffer) \<and> mgt_ok t \<and> sendto_ok t"

lemma device_fields [simp]:
  "app_payload (set_device_request r d) = app_payload d" "dev_sends (set_device_request r d) = dev_sends d"
  "app_send_data_request (set_device_request r d) = app_send_data_request d"
  "device_request (set_device_request r d) = r" "heap (dev_helper (set_device_request r d)) = heap (dev_helper d)"
  by (simp_all add: set_device_request_def device_request_def)

lemma deliver_all_eq:
  "\<forall>(buffer, n, st) \<in> set rs. unat n \<le> length buffer \<Longrightarrow> deliver_all rs d =
    Some (if rs = [] then d else d\<lparr>app_process_request := True, app_send_data_request := True\<rparr>)"
  by (induction rs arbitrary: d) (auto simp: device_data_received_def load_def)

text \<open>The packet is sent in a turn when it was still to be sent or data arrives.\<close>

definition sends_in :: "device_turn \<Rightarrow> device \<Rightarrow> bool" where
  "sends_in t d \<longleftrightarrow> app_send_data_request d \<or> (device_request d \<and> delivered t \<noteq> [])"

lemma device_turn_eq:
  assumes "smooth t" and "device_packet_size \<le> length (app_payload d)"
  shows "\<exists>d'. device_process t d = Some (True, d') \<and> (\<exists>d''. device_send t d' = Some (True, d'')
    \<and> dev_sends d'' = dev_sends d @ (if sends_in t d then [take device_packet_size (app_payload d)] else [])
    \<and> app_payload d'' = app_payload d \<and> \<not> app_send_data_request d'' \<and> \<not> device_request d''
    \<and> heap (dev_helper d'') = heap (dev_helper d))"
proof -
  define d' where "d' = (if device_request d then (let d0 = set_device_request False d in
    if delivered t = [] then d0 else d0\<lparr>app_process_request := True, app_send_data_request := True\<rparr>) else d)"
  have "device_process t d = Some (True, d')"
    using assms(1) by (simp add: device_process_def deliver_all_eq smooth_def d'_def Let_def)
  moreover have "load (app_payload d') 0 device_packet_size = Some (take device_packet_size (app_payload d))"
    using assms(2) by (simp add: d'_def Let_def load_def)
  then have "\<exists>d''. device_send t d' = Some (True, d'')
    \<and> dev_sends d'' = dev_sends d @ (if sends_in t d then [take device_packet_size (app_payload d)] else [])
    \<and> app_payload d'' = app_payload d \<and> \<not> app_send_data_request d'' \<and> \<not> device_request d''
    \<and> heap (dev_helper d'') = heap (dev_helper d)"
    using assms(1)
    by (auto simp: device_send_def smooth_def sends_in_def d'_def Let_def device_request_def set_device_request_def)
  ultimately show ?thesis
    by blast
qed

text \<open>Rounds after the first turn in which data is delivered because the SDK had asked for processing.\<close>

fun answered :: "bool \<Rightarrow> device_turn list \<Rightarrow> nat" where
  "answered req [] = 0"
| "answered req (t # ts) = (if req \<and> delivered t \<noteq> [] then 1 else 0) + answered (asked t) ts"

lemma device_loop_sends:
  "\<forall>t \<in> set ts. smooth t \<Longrightarrow> device_packet_size \<le> length (app_payload d) \<Longrightarrow>
    \<exists>d'. device_loop ts d = Some (True, d') \<and> app_payload d' = app_payload d
      \<and> heap (dev_helper d') = heap (dev_helper d)
      \<and> dev_sends d' = dev_sends d @ replicate
        (case ts of [] \<Rightarrow> 0 | t # rest \<Rightarrow> (if sends_in t d then 1 else 0) + answered (asked t) rest)
        (take device_packet_size (app_payload d))"
proof (induction ts arbitrary: d)
  case Nil
  then show ?case by simp
next
  case (Cons t ts)
  obtain d1 d2 where d: "device_process t d = Some (True, d1)" "device_send t d1 = Some (True, d2)"
    "dev_sends d2 = dev_sends d @ (if sends_in t d then [take device_packet_size (app_payload d)] else [])"
    "app_payload d2 = app_payload d" "\<not> app_send_data_request d2" "\<not> device_request d2"
    "heap (dev_helper d2) = heap (dev_helper d)"
    using device_turn_eq [of t d] Cons.prems by auto
  define d3 where "d3 = device_sleep t d2"
  have d3: "dev_sends d3 = dev_sends d2" "app_payload d3 = app_payload d" "\<not> app_send_data_request d3"
    "device_request d3 = asked t" "heap (dev_helper d3) = heap (dev_helper d)"
    using d(4-7) by (simp_all add: d3_def device_sleep_def)
  obtain d' where d': "device_loop ts d3 = Some (True, d')" "app_payload d' = app_payload d3"
    "heap (dev_helper d') = heap (dev_helper d3)"
    "dev_sends d' = dev_sends d3 @ replicate
      (case ts of [] \<Rightarrow> 0 | t # rest \<Rightarrow> (if sends_in t d3 then 1 else 0) + answered (asked t) rest)
      (take device_packet_size (app_payload d3))"
    using Cons.IH [of d3] Cons.prems d3(2) by auto
  have "(case ts of [] \<Rightarrow> 0 | t' # rest \<Rightarrow> (if sends_in t' d3 then 1 else 0) + answered (asked t') rest) =
      answered (asked t) ts"
    using d3(3,4) by (simp add: sends_in_def split: list.split)
  moreover have "device_loop (t # ts) d = device_loop ts d3"
    using d(1,2) by (simp add: d3_def)
  ultimately show ?case
    using d' d(3) d3 by (simp add: replicate_add [of 1, simplified])
qed

text \<open>An environment in which the start succeeds.\<close>

definition env_ok :: "start_env \<Rightarrow> memory \<Rightarrow> memory \<Rightarrow> bool" where
  "env_ok e sp si \<longleftrightarrow> mallocs (env_malloc e) \<and> env_pton e ''::1'' = Some (sp @ si) \<and> length sp = 8 \<and> length si = 8
     \<and> env_mgt_ok e \<and> env_net_ok e \<and> env_accept e = (\<lambda>_ _. True) \<and> unat (env_nb_params e) \<le> MAX_TEMPLATE_PARAMS"

lemma start_unfold:
  assumes "helper_inv h"
  obtains h1 where "start_config h = Some (SCHC_CONFIG_OK, h1)" "helper_inv h1" "initialized h1"
  using start_config_inv [OF assms] that by blast

lemma config_chain:
  assumes inv: "helper_inv h" and e: "env_ok e sp si"
    and tunnel: "length ha < 16" "length hp < 6" "length da < 16" "length dp < 6"
  shows "\<exists>s h'. do {
      (r, h) \<leftarrow> start_config h;
      let h = with_sdk_mode md (with_mtu mtu h);
      h \<leftarrow> with_tunnel ha hp da dp h;
      h \<leftarrow> set_all_params (env_malloc e) (env_pton e) (env_stack e) ''::1'' sport ''::1'' dport h;
      let h = with_net_callbacks () h;
      config_schc (env_timers e) (env_mgt_ok e) (env_nb_params e) (env_accept e) (env_net_ok e) h } =
        Some (SCHC_CONFIG_OK, s, h')
    \<and> heap h' = Map.empty \<and> sdk_mtu s = Some mtu \<and> sdk_mode_set s = Some md
    \<and> sdk_params s = take (unat (env_nb_params e)) [(0, sp), (1, si), (2, sp), (3, si),
        (4, port_memory sport), (5, port_memory dport)]"
proof -
  obtain h1 where h1: "start_config h = Some (SCHC_CONFIG_OK, h1)" "helper_inv h1" "initialized h1"
    by (rule start_unfold [OF inv])
  note set1 = helper_invD(5) [OF h1(2,3)]
  define h2 where "h2 = with_sdk_mode md (with_mtu mtu h1)"
  define h3 where "h3 = h2\<lparr>staging_config := (staging_config h2)\<lparr>host_addr := \<lparr>addr = ha, port = hp\<rparr>,
    dst_addr := \<lparr>addr = da, port = dp\<rparr>\<rparr>\<rparr>"
  have h3: "with_tunnel ha hp da dp h2 = Some h3"
    using tunnel by (simp add: with_tunnel_def strcpy_def h3_def IPV4_STR_MAX_LEN_def UDP_PORT_STR_MAX_LEN_def)
  have i3: "helper_inv h3" "initialized h3" "params_set (staging_config h3)"
    "config_mtu (staging_config h3) = mtu" "config_mode (staging_config h3) = md"
    using h1(2,3) set1 by (simp_all add: h3_def h2_def with_mtu_def with_sdk_mode_def)
  obtain h4 where h4: "set_all_params (env_malloc e) (env_pton e) (env_stack e) ''::1'' sport ''::1'' dport h3 = Some h4"
    "helper_inv h4" "same_config h3 h4" "entries h4 0 (unat (env_nb_params e)) =
      take (unat (env_nb_params e)) [(0, sp), (1, si), (2, sp), (3, si), (4, port_memory sport), (5, port_memory dport)]"
    using set_all_params_inv [OF i3(1,3), of "env_malloc e" "env_pton e" "''::1''" sp si "''::1''" sp si] e
    unfolding env_ok_def by blast
  define h5 where "h5 = with_net_callbacks () h4"
  have h5: "helper_inv h5" "initialized h5" "config_mtu (staging_config h5) = mtu" "config_mode (staging_config h5) = md"
    using h4(2,3) i3 by (simp_all add: h5_def with_net_callbacks_def same_config_def)
  have "contents h5 = contents h4"
    by (rule contents_cong) (simp_all add: h5_def with_net_callbacks_def)
  then have "entries h5 = entries h4"
    by (simp add: entries_def fun_eq_iff)
  moreover obtain s h' where "config_schc (env_timers e) (env_mgt_ok e) (env_nb_params e) (env_accept e) (env_net_ok e) h5 =
      Some (SCHC_CONFIG_OK, s, h')" "sdk_params s = entries h5 0 (unat (env_nb_params e))"
    "sdk_mtu s = Some mtu" "sdk_mode_set s = Some md" "heap h' = Map.empty"
    using config_all_accepted [OF h5(1,2), of "env_nb_params e" "env_timers e"] e h5(3,4)
    by (auto simp: env_ok_def)
  ultimately show ?thesis
    using h4(4) by (simp add: h1(1) h3 h4(1) flip: h2_def h5_def)
qed

lemma tunnel_lengths:
  "length DEVICE_TUNNEL_ADDR < 16" "length DEVICE_TUNNEL_PORT < 6" "length CORE_TUNNEL_ADDR < 16" "length CORE_TUNNEL_PORT < 6"
  by (simp_all add: common_defs)

lemma device_config_ok:
  assumes "helper_inv h" and "env_ok e sp si"
  shows "\<exists>s h'. device_config e h = Some (SCHC_CONFIG_OK, s, h') \<and> heap h' = Map.empty
    \<and> sdk_mtu s = Some 100 \<and> sdk_mode_set s = Some SDK_DEVICE_MODE
    \<and> sdk_params s = take (unat (env_nb_params e)) [(0, sp), (1, si), (2, sp), (3, si),
        (4, port_memory DEVICE_PORT), (5, port_memory APP_PORT)]"
  using config_chain [OF assms tunnel_lengths, of SDK_DEVICE_MODE 100 DEVICE_PORT APP_PORT]
  by (simp add: device_config_def set_all_params_def DEVICE_ADDR_def APP_ADDR_def Let_def cong: option.case_cong)

lemma core_config_ok:
  assumes "helper_inv h" and "env_ok e sp si"
  shows "\<exists>s h'. core_config e h = Some (SCHC_CONFIG_OK, s, h') \<and> heap h' = Map.empty
    \<and> sdk_mtu s = Some 100 \<and> sdk_mode_set s = Some SDK_APP_MODE
    \<and> sdk_params s = take (unat (env_nb_params e)) [(0, sp), (1, si), (2, sp), (3, si),
        (4, port_memory APP_PORT), (5, port_memory DEVICE_PORT)]"
  using config_chain [OF assms tunnel_lengths(3,4,1,2), of SDK_APP_MODE 100 APP_PORT DEVICE_PORT]
  by (simp add: core_config_def set_all_params_def DEVICE_ADDR_def APP_ADDR_def Let_def)

text \<open>A run of the device in which nothing fails configures the SDK, frees what it allocated, and sends
  the same 50-byte IPv6/UDP packet once in the first turn and once in every later turn in which
  data arrives; the packet goes from port 5683 to port 5643 although the SDK was given 5643 as the
  device's port and 5683 as the application's.\<close>

lemma device_runs:
  assumes "helper_reachable (dev_helper d)" and "env_ok e sp si" and "length (app_payload d) = APP_PAYLOAD_SIZE"
    and "\<forall>t \<in> set ts. smooth t"
  shows "\<exists>d' packet. device_main e ts d = Some (True, d') \<and> heap (dev_helper d') = Map.empty
    \<and> dev_sends d' = dev_sends d
        @ replicate (case ts of [] \<Rightarrow> 0 | t # rest \<Rightarrow> 1 + answered (asked t) rest) packet
    \<and> length packet = 50 \<and> is_ipv6_udp_packet (Some packet) 50 = Some True
    \<and> take 16 (drop 8 packet) = sp @ si \<and> take 16 (drop 24 packet) = sp @ si
    \<and> be16_at packet 40 = 5683 \<and> be16_at packet 42 = 5643 \<and> drop 48 packet = [0xAB, 0xCD]
    \<and> (\<exists>s h. device_config e (dev_helper d) = Some (SCHC_CONFIG_OK, s, h)
         \<and> sdk_params s = take (unat (env_nb_params e)) [(0, sp), (1, si), (2, sp), (3, si),
             (4, port_memory ''5643''), (5, port_memory ''5683'')])"
proof -
  obtain s h where c: "device_config e (dev_helper d) = Some (SCHC_CONFIG_OK, s, h)" "heap h = Map.empty"
    "sdk_params s = take (unat (env_nb_params e)) [(0, sp), (1, si), (2, sp), (3, si),
        (4, port_memory DEVICE_PORT), (5, port_memory APP_PORT)]"
    using device_config_ok [OF helper_reachable_inv [OF assms(1)] assms(2)] by blast
  have pton: "env_pton e DEVICE_ADDR = Some (sp @ si)" "env_pton e APP_ADDR = Some (sp @ si)" "length (sp @ si) = 16"
    using assms(2) by (simp_all add: env_ok_def DEVICE_ADDR_def APP_ADDR_def)
  obtain q where q: "generate_ipv6_udp_packet (env_pton e) (app_payload d) DEVICE_ADDR APP_PORT APP_ADDR DEVICE_PORT
      device_payload 2 = Some (0, q)" "length q = 100"
    "is_ipv6_udp_packet (Some q) 50 = Some True" "take 16 (drop 8 q) = sp @ si" "take 16 (drop 24 q) = sp @ si"
    "be16_at q 40 = nat (atoi APP_PORT mod 65536)" "be16_at q 42 = nat (atoi DEVICE_PORT mod 65536)"
    "take 2 (drop 48 q) = [0xAB, 0xCD]"
    using generated_packet_facts [of 2 "app_payload d" device_payload "env_pton e" DEVICE_ADDR "sp @ si" APP_ADDR "sp @ si"
        APP_PORT DEVICE_PORT] assms(3) pton
    by (auto simp: device_payload_def APP_PAYLOAD_SIZE_def)
  define packet where "packet = take 50 q"
  have dl: "length device_payload = 2"
    by (simp add: device_payload_def)
  have size: "device_packet_size = 50"
    by (simp add: device_packet_size_def device_payload_def)
  have ports: "atoi APP_PORT = 5683" "atoi DEVICE_PORT = 5643"
    by (simp_all add: APP_PORT_def DEVICE_PORT_def, code_simp+)
  have lp: "length packet = 50"
    using q(2) by (simp add: packet_def)
  have p: "packet ! i = q ! i" if "i < 50" for i
    using that by (simp add: packet_def)
  have "be16_at packet 40 = 5683" "be16_at packet 42 = 5643"
    using q(6,7) p by (simp_all add: be16_at_def ports)
  moreover have "drop 48 packet = [0xAB, 0xCD]" "take 16 (drop 8 packet) = sp @ si" "take 16 (drop 24 packet) = sp @ si"
    using q(2,4,5,8) by (simp_all add: packet_def drop_take min_def)
  moreover have "is_ipv6_udp_packet (Some packet) 50 = Some True"
    using q(2,3) p lp by (simp add: is_ipv6_udp_packet_eq)
  moreover obtain d' where d': "device_loop ts (d\<lparr>dev_helper := h, app_payload := q, app_send_data_request := True\<rparr>) = Some (True, d')"
    "heap (dev_helper d') = heap h"
    "dev_sends d' = dev_sends d @ replicate (case ts of [] \<Rightarrow> 0 | t # rest \<Rightarrow> 1 + answered (asked t) rest) packet"
    using device_loop_sends [OF assms(4), of "d\<lparr>dev_helper := h, app_payload := q, app_send_data_request := True\<rparr>"] q(2)
    by (auto simp: size packet_def sends_in_def split: list.splits)
  moreover have "load q 0 device_packet_size = Some packet"
    using q(2) by (simp add: load_def size packet_def)
  then have "device_main e ts d = Some (True, d')"
    using c(1) q(1) d'(1) by (simp add: device_main_def dl)
  moreover have "sdk_params s = take (unat (env_nb_params e)) [(0, sp), (1, si), (2, sp), (3, si),
      (4, port_memory ''5643''), (5, port_memory ''5683'')]"
    using c(3) by (simp only: DEVICE_PORT_def APP_PORT_def)
  ultimately show ?thesis
    using c(1,2) lp by (intro exI [of _ d'] exI [of _ packet]) (simp only: simp_thms, blast)
qed

definition example_env :: start_env where
  "example_env = \<lparr>env_malloc = (\<lambda>n. True), env_pton = loopback_pton, env_stack = [],
     env_timers = (\<lambda>i. (True, Some i)), env_mgt_ok = True, env_nb_params = 6,
     env_accept = (\<lambda>_ _. True), env_net_ok = True\<rparr>"

definition example_device_turns :: "device_turn list" where
  "example_device_turns =
     [\<lparr>delivered = [], mgt_ok = True, sendto_ok = True, asked = True\<rparr>,
      \<lparr>delivered = [([1, 2, 3], 3, App_net_success)], mgt_ok = True, sendto_ok = True, asked = True\<rparr>,
      \<lparr>delivered = [], mgt_ok = True, sendto_ok = True, asked = False\<rparr>]"

lemma example_start:
  "helper_reachable (dev_helper (device_initial example_glue))"
  "env_ok example_env (replicate 8 0) (replicate 7 0 @ [1])"
  "length (app_payload (device_initial example_glue)) = APP_PAYLOAD_SIZE" "dev_sends (device_initial example_glue) = []"
  "\<forall>t \<in> set example_device_turns. smooth t"
  "(case example_device_turns of [] \<Rightarrow> 0 | t # rest \<Rightarrow> 1 + answered (asked t) rest) = 2"
  using replicate_add [of 8 7 "0 :: byte"]
  by (simp_all add: device_initial_def helper_reachable.boot env_ok_def example_env_def mallocs_def loopback_pton_def
      MAX_TEMPLATE_PARAMS_def example_device_turns_def smooth_def)

lemma device_runs_witness:
  "\<exists>d' packet. device_main example_env example_device_turns (device_initial example_glue) = Some (True, d')
    \<and> dev_sends d' = [packet, packet] \<and> be16_at packet 40 = 5683 \<and> be16_at packet 42 = 5643"
  using device_runs [OF example_start(1-3,5)] example_start(4,6) by (auto simp: numeral_2_eq_2)

section \<open>The core\<close>

lemma size_wraps: "unat (ucast n - 40 :: u64) = (if 40 \<le> unat n then unat n - 40 else 2 ^ 64 + unat n - 40)" for n :: u16
proof -
  have u: "unat (ucast n :: u64) = unat n"
    using u16_less [of n] by (simp add: unsigned_ucast_eq take_bit_nat_eq_self)
  show ?thesis
  proof (cases "40 \<le> unat n")
    case True
    then have "(40 :: u64) \<le> ucast n"
      by (simp add: word_le_nat_alt u)
    then show ?thesis
      using True by (simp add: unat_sub u)
  next
    case False
    then show ?thesis
      by (simp add: unat_sub_if' u)
  qed
qed

text \<open>The core forwards what follows the IPv6 header of a delivered packet, to the first of the two
  addresses in it, and closes its socket on every path; but it never compares the announced size
  with the size of the header: for a packet of fewer than 40 bytes the length it passes on wraps
  around to almost \<open>2 ^ 64\<close> and the packet is read far past its end.\<close>

lemma core_forwards:
  assumes "length buffer = unat n"
  shows "core_data_received True sent_ok buffer n App_net_success c =
    (if 40 \<le> unat n
     then Some (c\<lparr>core_process_request := True, core_send_data_request := True,
       core_sends := core_sends c @ (if sent_ok then [(take 16 (drop 8 buffer), drop 40 buffer)] else []),
       core_closed := core_closed c + 1\<rparr>)
     else None)"
  using assms u16_less [of n]
  by (auto simp: core_data_received_def load_def size_wraps)

definition example_core :: core where
  "example_core = \<lparr>core_helper = helper_initial example_glue, core_process_request = False,
     core_send_data_request = False, core_sends = [], core_closed = 0\<rparr>"

lemma core_forwards_witness:
  "core_data_received True True [1, 2, 3] 3 App_net_success example_core = None
    \<and> core_data_received True True (replicate 41 7) 41 App_net_success example_core =
      Some (example_core\<lparr>core_process_request := True, core_send_data_request := True,
        core_sends := [(replicate 16 7, [7])], core_closed := 1\<rparr>)"
  using core_forwards [of "[1, 2, 3]" 3 True example_core] core_forwards [of "replicate 41 7" 41 True example_core]
  by (simp add: example_core_def)

end
