(* ===== verification/Lpwan_Server.thy ===== *)
theory Lpwan_Server
  imports Lpwan_Apps_Props
begin

text \<open>
  The application server of the LPWAN model, \<open>applications/delivery/lpwan_model/app/app.c\<close>, the
  function \<open>receive\<close> of \<open>schc_core.c\<close>, and what becomes of the device's packet on its way from the
  device over the core to the server.

  Parameters: the outcomes of the socket calls, what arrives, and the CoAP library: the PDU it
  allocates and \<open>coap_pdu_parse\<close>, which reads a datagram into the one PDU the server has.
\<close>

section \<open>Sockets\<close>

text \<open>\<open>htons\<close> applied to \<open>atoi\<close>: the port a socket is bound to, as its two bytes in memory.\<close>

definition bound_port :: "string \<Rightarrow> memory" where
  "bound_port s = (let p = htons (of_int (atoi s)) in [lo16 p, hi16 p])"

text \<open>\<open>recvfrom\<close> into the first \<open>n\<close> bytes of a buffer: a longer datagram is cut.\<close>

definition recvfrom :: "nat \<Rightarrow> memory \<Rightarrow> memory \<Rightarrow> (nat \<times> memory) ub" where
  "recvfrom n buffer datagram =
     do { buffer \<leftarrow> store buffer 0 (take n datagram); Some (min n (length datagram), buffer) }"

section \<open>The server (app.c)\<close>

definition RECEIVE_BUFFER_SIZE :: nat where "RECEIVE_BUFFER_SIZE = 1500"
definition COAP_PDU_MAX_SIZE :: nat where "COAP_PDU_MAX_SIZE = 1024"

record 'pdu server =
  srv_buffer :: memory
  srv_open :: nat
  srv_port :: "memory option"
  srv_pdu :: "'pdu option"
  srv_shown :: "'pdu list"
  srv_rejected :: nat

definition server_initial :: "'pdu server" where
  "server_initial = \<lparr>srv_buffer = replicate RECEIVE_BUFFER_SIZE 0, srv_open = 0, srv_port = None,
     srv_pdu = None, srv_shown = [], srv_rejected = 0\<rparr>"

text \<open>Up to the loop; false when the program has exited with a failure.\<close>

definition server_start :: "bool \<Rightarrow> bool \<Rightarrow> (nat \<Rightarrow> 'pdu option) \<Rightarrow> 'pdu server \<Rightarrow> bool \<times> 'pdu server" where
  "server_start sock_ok bind_ok coap_pdu_init s =
     (let port = bound_port APP_PORT in
      if \<not> sock_ok then (False, s)
      else
        let s = s\<lparr>srv_open := srv_open s + 1\<rparr> in
        if \<not> bind_ok then (False, s\<lparr>srv_open := srv_open s - 1\<rparr>)
        else
          let s = s\<lparr>srv_port := Some port, srv_pdu := coap_pdu_init COAP_PDU_MAX_SIZE\<rparr> in
          if srv_pdu s = None then (False, s\<lparr>srv_open := srv_open s - 1\<rparr>) else (True, s))"

text \<open>The loop that prints the datagram, with its 16-bit index.\<close>

fun dump_loop :: "memory \<Rightarrow> nat \<Rightarrow> nat \<Rightarrow> u16 \<Rightarrow> memory ub" where
  "dump_loop buffer len 0 i = None"
| "dump_loop buffer len (Suc fuel) i =
     (if unat i < len
      then do {
        b \<leftarrow> peek buffer (unat i);
        rest \<leftarrow> dump_loop buffer len fuel (i + 1);
        Some (b # rest)
      }
      else Some [])"

text \<open>One turn of the loop: \<open>None\<close> for a failed \<open>recvfrom\<close>, otherwise the datagram.\<close>

definition server_turn ::
    "(memory \<Rightarrow> 'pdu \<Rightarrow> bool \<times> 'pdu) \<Rightarrow> memory option \<Rightarrow> 'pdu server \<Rightarrow> 'pdu server ub" where
  "server_turn coap_pdu_parse arrival s =
     (case arrival of
        None \<Rightarrow> Some s
      | Some datagram \<Rightarrow>
          do {
            (recv_len, buffer) \<leftarrow> recvfrom RECEIVE_BUFFER_SIZE (srv_buffer s) datagram;
            printed \<leftarrow> dump_loop buffer recv_len (recv_len + 1) 0;
            data \<leftarrow> load buffer 0 recv_len;
            pdu \<leftarrow> srv_pdu s;
            let (ok, pdu) = coap_pdu_parse data pdu;
            let s = s\<lparr>srv_buffer := buffer, srv_pdu := Some pdu\<rparr>;
            if ok then Some (s\<lparr>srv_shown := srv_shown s @ [pdu]\<rparr>)
            else Some (s\<lparr>srv_rejected := srv_rejected s + 1\<rparr>)
          })"

fun server_loop ::
    "(memory \<Rightarrow> 'pdu \<Rightarrow> bool \<times> 'pdu) \<Rightarrow> memory option list \<Rightarrow> 'pdu server \<Rightarrow> 'pdu server ub" where
  "server_loop coap_pdu_parse [] s = Some s"
| "server_loop coap_pdu_parse (a # as) s =
     do { s \<leftarrow> server_turn coap_pdu_parse a s; server_loop coap_pdu_parse as s }"

definition server_main :: "bool \<Rightarrow> bool \<Rightarrow> (nat \<Rightarrow> 'pdu option) \<Rightarrow> (memory \<Rightarrow> 'pdu \<Rightarrow> bool \<times> 'pdu) \<Rightarrow>
    memory option list \<Rightarrow> 'pdu server \<Rightarrow> (bool \<times> 'pdu server) ub" where
  "server_main sock_ok bind_ok coap_pdu_init coap_pdu_parse as s =
     (let (ok, s) = server_start sock_ok bind_ok coap_pdu_init s in
      if \<not> ok then Some (False, s)
      else do { s \<leftarrow> server_loop coap_pdu_parse as s; Some (True, s) })"

section \<open>The function receive of schc_core.c\<close>

text \<open>The number of sockets it leaves open and the datagram it reports, if any.\<close>

definition core_receive :: "bool \<Rightarrow> bool \<Rightarrow> bool \<Rightarrow> memory option \<Rightarrow> memory \<Rightarrow> (nat \<times> memory option) ub" where
  "core_receive sock_ok timeout_ok bind_ok arrival buffer =
     (if \<not> sock_ok then Some (0, None)
      else
        let opened = 0 + 1 in
        if \<not> timeout_ok then Some (opened - 1, None)
        else if \<not> bind_ok then Some (opened - 1, None)
        else
          (case arrival of
             None \<Rightarrow> Some (opened - 1, None)
           | Some datagram \<Rightarrow>
               do {
                 (recv_len, buffer) \<leftarrow> recvfrom 1024 buffer datagram;
                 data \<leftarrow> load buffer 0 recv_len;
                 Some (opened - 1, Some data)
               }))"

section \<open>Every datagram is parsed\<close>

text \<open>What is shown for a list of arrived datagrams: each is read, cut to 1500 bytes, into the same PDU.\<close>

fun shown_for :: "(memory \<Rightarrow> 'pdu \<Rightarrow> bool \<times> 'pdu) \<Rightarrow> memory list \<Rightarrow> 'pdu \<Rightarrow> 'pdu list" where
  "shown_for parse [] p = []"
| "shown_for parse (d # ds) p =
     (case parse (take RECEIVE_BUFFER_SIZE d) p of (ok, p') \<Rightarrow> (if ok then [p'] else []) @ shown_for parse ds p')"

lemma recvfrom_eq:
  assumes "length buffer = n"
  shows "recvfrom n buffer d = Some (min n (length d), poke buffer 0 (take n d))"
  using assms by (simp add: recvfrom_def store_def)

lemma take_received: "length buffer = n \<Longrightarrow> take (min n (length d)) (poke buffer 0 (take n d)) = take n d"
  by (simp add: poke_def min_def)

lemma dump_all:
  assumes "len \<le> length buffer" and "len < 65536" and "i \<le> len"
  shows "dump_loop buffer len (Suc (len - i)) (of_nat i) = Some (take (len - i) (drop i buffer))"
  using assms(3)
proof (induction "len - i" arbitrary: i)
  case 0
  have "unat (of_nat i :: u16) = i"
    using 0 assms(2) by (intro unat_of_nat_small) simp
  with 0 show ?case
    by simp
next
  case (Suc k)
  have u: "unat (of_nat i :: u16) = i"
    using Suc assms(2) by (intro unat_of_nat_small) simp
  have i: "i < len" "k = len - Suc i"
    using Suc(2) by simp_all
  then have rest: "dump_loop buffer len (Suc k) (of_nat i + 1) = Some (take k (drop (Suc i) buffer))"
    using Suc(1) [of "Suc i"] by (simp add: add.commute del: dump_loop.simps)
  have "take (Suc k) (drop i buffer) = buffer ! i # take k (drop (Suc i) buffer)"
    using i(1) assms(1) by (simp flip: Cons_nth_drop_Suc)
  then show ?case
    unfolding Suc(2) [symmetric] using i(1) u rest assms(1)
    by (subst dump_loop.simps) (simp add: peek_def del: dump_loop.simps)
qed

lemma server_turn_eq:
  assumes "srv_pdu s = Some p" and "length (srv_buffer s) = RECEIVE_BUFFER_SIZE"
  shows "server_turn parse (Some d) s =
    (let (ok, p') = parse (take RECEIVE_BUFFER_SIZE d) p;
         s = s\<lparr>srv_buffer := poke (srv_buffer s) 0 (take RECEIVE_BUFFER_SIZE d), srv_pdu := Some p'\<rparr>
     in Some (if ok then s\<lparr>srv_shown := srv_shown s @ [p']\<rparr> else s\<lparr>srv_rejected := srv_rejected s + 1\<rparr>))"
proof -
  let ?n = "min RECEIVE_BUFFER_SIZE (length d)"
  let ?b = "poke (srv_buffer s) 0 (take RECEIVE_BUFFER_SIZE d)"
  have len: "?n \<le> length ?b" "?n < 65536"
    using assms(2) by (simp_all add: RECEIVE_BUFFER_SIZE_def)
  have "dump_loop ?b ?n (Suc ?n) 0 = Some (take ?n ?b)"
    using dump_all [OF len, of 0] by simp
  moreover have "load ?b 0 ?n = Some (take RECEIVE_BUFFER_SIZE d)"
    using len(1) take_received [OF assms(2), of d] by (simp only: load_def) simp
  ultimately show ?thesis
    using assms(1) by (simp add: server_turn_def recvfrom_eq [OF assms(2)] Let_def split: prod.splits)
qed

lemma server_loop_serves:
  assumes "srv_pdu s = Some p" and "length (srv_buffer s) = RECEIVE_BUFFER_SIZE"
  shows "\<exists>s'. server_loop parse as s = Some s' \<and> srv_open s' = srv_open s \<and> srv_port s' = srv_port s
    \<and> srv_shown s' = srv_shown s @ shown_for parse (List.map_filter (\<lambda>a. a) as) p
    \<and> srv_rejected s' + length (srv_shown s') = srv_rejected s + length (srv_shown s) + length (List.map_filter (\<lambda>a. a) as)"
  using assms
proof (induction as arbitrary: s p)
  case (Cons a as)
  show ?case
  proof (cases a)
    case None
    then show ?thesis
      using Cons by (simp add: server_turn_def map_filter_simps)
  next
    case (Some d)
    obtain ok p' where parsed: "parse (take RECEIVE_BUFFER_SIZE d) p = (ok, p')"
      by (cases "parse (take RECEIVE_BUFFER_SIZE d) p")
    define s1 where "s1 = (let s = s\<lparr>srv_buffer := poke (srv_buffer s) 0 (take RECEIVE_BUFFER_SIZE d), srv_pdu := Some p'\<rparr>
      in if ok then s\<lparr>srv_shown := srv_shown s @ [p']\<rparr> else s\<lparr>srv_rejected := srv_rejected s + 1\<rparr>)"
    have turn: "server_turn parse a s = Some s1"
      using server_turn_eq [OF Cons.prems, of parse d] by (simp add: Some parsed s1_def Let_def)
    have "srv_pdu s1 = Some p'" "length (srv_buffer s1) = RECEIVE_BUFFER_SIZE"
      using Cons.prems(2) by (simp_all add: s1_def Let_def)
    then show ?thesis
      using Cons.IH [of s1 p'] by (auto simp: turn [unfolded Some] Some parsed map_filter_simps s1_def Let_def)
  qed
qed (simp add: map_filter_simps)

lemma server_serves:
  assumes "coap_pdu_init COAP_PDU_MAX_SIZE = Some p"
  shows "\<exists>s. server_main True True coap_pdu_init parse as server_initial = Some (True, s)
    \<and> srv_open s = 1 \<and> srv_port s = Some (bound_port APP_PORT)
    \<and> srv_shown s = shown_for parse (List.map_filter (\<lambda>a. a) as) p
    \<and> srv_rejected s + length (srv_shown s) = length (List.map_filter (\<lambda>a. a) as)"
  using server_loop_serves [of "server_initial\<lparr>srv_open := 1, srv_port := Some (bound_port APP_PORT), srv_pdu := Some p\<rparr>" p
      parse as] assms
  by (auto simp: server_main_def server_start_def server_initial_def Let_def)

text \<open>A start that fails leaves no socket open; neither does \<open>receive\<close>, which reports at most 1024 bytes.\<close>

lemma server_start_fails:
  "fst (server_start sock_ok bind_ok coap_pdu_init s) \<longleftrightarrow> sock_ok \<and> bind_ok \<and> coap_pdu_init COAP_PDU_MAX_SIZE \<noteq> None"
  "srv_open (snd (server_start sock_ok bind_ok coap_pdu_init s)) =
    srv_open s + (if sock_ok \<and> bind_ok \<and> coap_pdu_init COAP_PDU_MAX_SIZE \<noteq> None then 1 else 0)"
  by (simp_all add: server_start_def Let_def)

lemma core_receive_closes:
  assumes "length buffer = 1024"
  shows "core_receive sock_ok timeout_ok bind_ok arrival buffer =
    Some (0, if sock_ok \<and> timeout_ok \<and> bind_ok then map_option (take 1024) arrival else None)"
proof (cases arrival)
  case (Some d)
  have "min 1024 (length d) \<le> length (poke buffer 0 (take 1024 d))"
    using assms by simp
  then have "load (poke buffer 0 (take 1024 d)) 0 (min 1024 (length d)) = Some (take 1024 d)"
    using take_received [OF assms, of d] by (simp only: load_def) simp
  then show ?thesis
    by (simp add: core_receive_def Some recvfrom_eq [OF assms])
qed (simp add: core_receive_def)

section \<open>From the device to the server\<close>

text \<open>What a socket bound to a port receives of a UDP datagram.\<close>

definition udp_receive :: "memory \<Rightarrow> memory \<Rightarrow> memory option" where
  "udp_receive p datagram = (if take 2 (drop 2 datagram) = p then Some (drop 8 datagram) else None)"


definition example_server :: "memory server" where
  "example_server = server_initial"


text \<open>A run over two datagrams and a failed \<open>recvfrom\<close>, with a library that
  accepts whatever begins with version 1.\<close>

lemma server_example:
  "map_option (\<lambda>(ok, s). (ok, srv_shown s, srv_rejected s, srv_open s))
      (server_main True True (\<lambda>n. Some []) (\<lambda>d p. (drop_bit 6 (hd d) = 1, d)) [Some [0x40, 1], None, Some [0, 2, 3]] example_server) =
    Some (True, [[0x40, 1]], 1, 1)"
  using server_serves [of "\<lambda>n. Some []" "[]" "\<lambda>d p. (drop_bit 6 (hd d) = (1 :: byte), d)" "[Some [0x40, 1], None, Some [0, 2, 3]]"]
  by (auto simp: example_server_def RECEIVE_BUFFER_SIZE_def map_filter_simps)

end
