(* ===== verification/Logging.thy ===== *)
theory Logging
  imports Main
begin

text \<open>
  The logger's level, \<open>tools/logginglib\<close>: a message is printed when its level is at most the
  level that is set, as numbers of the C enumeration. The order of the enumeration makes the
  levels a linear order.
\<close>

datatype log_level =
  LOG_LEVEL_NONE | LOG_LEVEL_ERROR | LOG_LEVEL_WARN | LOG_LEVEL_INFO | LOG_LEVEL_DEBUG | LOG_LEVEL_ALL

fun level_value :: "log_level \<Rightarrow> nat" where
  "level_value LOG_LEVEL_NONE = 0"
| "level_value LOG_LEVEL_ERROR = 1"
| "level_value LOG_LEVEL_WARN = 2"
| "level_value LOG_LEVEL_INFO = 3"
| "level_value LOG_LEVEL_DEBUG = 4"
| "level_value LOG_LEVEL_ALL = 0xff"

lemma level_value_inject: "level_value l = level_value m \<longleftrightarrow> l = m"
  by (cases l; cases m) simp_all

instantiation log_level :: linorder
begin

definition less_eq_log_level :: "log_level \<Rightarrow> log_level \<Rightarrow> bool" where
  "less_eq_log_level l m \<longleftrightarrow> level_value l \<le> level_value m"

definition less_log_level :: "log_level \<Rightarrow> log_level \<Rightarrow> bool" where
  "less_log_level l m \<longleftrightarrow> level_value l < level_value m"

instance
  by standard (auto simp: less_eq_log_level_def less_log_level_def level_value_inject)

end

record logger =
  log_level :: log_level

definition logger_initial :: logger where
  "logger_initial = \<lparr>log_level = LOG_LEVEL_NONE\<rparr>"

definition get_log_level :: "logger \<Rightarrow> log_level" where
  "get_log_level s = log_level s"

definition set_log_level :: "log_level \<Rightarrow> logger \<Rightarrow> logger" where
  "set_log_level level s = s\<lparr>log_level := level\<rparr>"

text \<open>\<open>_LOG_RAW_MACRO\<close>: whether a message of level \<open>LEVEL\<close> is printed.\<close>

definition log_raw :: "log_level \<Rightarrow> logger \<Rightarrow> bool" where
  "log_raw LEVEL s \<longleftrightarrow> LEVEL \<le> get_log_level s"

text \<open>Raising the level never hides a message, and the two ends print everything and nothing but
  messages of level NONE, which no macro uses.\<close>

lemma log_raw_mono: "get_log_level s \<le> get_log_level s' \<Longrightarrow> log_raw l s \<Longrightarrow> log_raw l s'"
  unfolding log_raw_def by (rule order_trans)

lemma log_raw_all: "log_raw l (set_log_level LOG_LEVEL_ALL s)"
  by (cases l) (simp_all add: log_raw_def get_log_level_def set_log_level_def less_eq_log_level_def)

lemma log_raw_none: "log_raw l (set_log_level LOG_LEVEL_NONE s) \<longleftrightarrow> l = LOG_LEVEL_NONE"
  by (cases l) (simp_all add: log_raw_def get_log_level_def set_log_level_def less_eq_log_level_def)

end
