(* ===== verification/Spec2Isabelle.thy ===== *)
theory Spec2Isabelle
  imports Net_Helper Platform_Timers Base64 Nvm End_To_End Oscore_Pattern Ascon_Props
    Ext_Rules Outer_Peers Template_Rules
    L2_Link Frag_Api Schc_Helper_Props Worker_Delivery Lpwan_Server Logging
begin

text \<open>
  A verification library for the SCHC worker: a Linux process that carries IPv6/UDP/CoAP traffic over
  a constrained link with SCHC header compression (RFC 8724), optionally protecting it with OSCORE,
  and the helpers and rule tables it is built with.

  \<^bold>\<open>The program.\<close> Packets of the host enter through a TUN device. The adaptation layer (\<open>schc_al.c\<close>)
  checks them, converts CoAP to OSCORE in place (\<open>uoscore_integration.c\<close>, with an inner compression
  from \<open>fullsdkextapi.c\<close>) and hands them to the SCHC SDK, which compresses, fragments and gives the
  frames to the L2 adapter of the acoustic modem (\<open>fullsdkl2a.c\<close>). Received frames go the other way.
  One event loop (\<open>main.c\<close>) over one table of watched descriptors and three timers (\<open>platform.c\<close>)
  drives both ends. The rules the SDK compresses with are tables written in C (\<open>innerrules.c\<close>,
  \<open>outerrules.c\<close>, \<open>lpwan_scenario_coap_template.c\<close>), its fragmentation profiles another
  (\<open>fullsdkfragapi.c\<close>). The LPWAN applications configure the SDK through \<open>schc_helper.c\<close>.

  \<^bold>\<open>Theories and sources.\<close>
  \<^item> Prelude: words, memory regions with checked access, byte order, event flags. C_Lib: the part
    of the C library that is written out (\<open>atoi\<close>, decimal output, white space).
  \<^item> Net_Checksum, Net_Udp (\<open>libs/net/src/udp.c\<close>), Net_Helper (\<open>libs/commons/src/net_helper.c\<close>): packet
    checks, lengths and checksums; both checksum loops are instances of one locale, csum_acc.
  \<^item> Platform_Fds, Platform_Timers (\<open>platforms/linux/src/platform.c\<close>): the descriptor table, its
    interface fd_registry, the poll dispatch; timers, clocks, random bytes. Base64 (\<open>base64.c\<close>).
  \<^item> Oscore_Proxy (\<open>fullsdkextapi.c\<close>, \<open>uoscore_integration.c\<close>): static addresses, inner compression,
    the conversions. Oscore_Pattern: the other inner compression of \<open>uoscore_integration.c\<close>, with pattern
    tables. Nvm: the file of OSCORE sequence numbers of \<open>uoscore_integration.c\<close>.
  \<^item> Schc_Al, Schc_Al_Props, Schc_Al_Lifecycle (\<open>applications/schc_worker_linux/src/schc_al.c\<close> and
    \<open>libs/net/src/tun.c\<close>): the record al is the module's static variables with a trace of its effects.
    End_To_End composes two of these modules with a link between them.
  \<^item> Ascon, Ascon_Props (\<open>libs/ascon_integration/src\<close>): HMAC, HKDF, hash and AEAD over the Ascon library;
    what holds of every 32-byte MAC is proved in the locale mac_fn.
  \<^item> Rules: the data of the rule engine and the meaning of a rule; the locale rule_table holds what
    follows for a well-formed table. Inner_Rules, Outer_Rules, Template_Rules and their properties: the
    tables, each an interpretation of it. Outer_Peers: the outer tables of the two ends of a link.
    Ext_Rules: which of the tables \<open>fullsdkextapi.c\<close> gives the SDK.
  \<^item> L2_Ahoi, L2_Ahoi_Props (\<open>l2/ahoi_posix_host/src/fullsdkl2a.c\<close>): the record l2a is its static
    variables; the stack above is a function the callbacks run. L2_Link: two adapters with the water
    between them.
  \<^item> Sdk_Glue: the timers and callbacks the applications register with the SDK. Schc_Helper,
    Schc_Helper_Props (\<open>libs/schc_commons\<close>): configurations, with the heap of their parameters.
    Frag_Api (\<open>libs/schc_frag_apis\<close>): the three variants of the profiles. Logging
    (\<open>tools/logginglib\<close>): the levels, as a linear order. Lpwan_Apps, Lpwan_Apps_Props
    (\<open>applications/delivery/lpwan_model\<close>): the device and the core; Lpwan_Server: the server, and the
    path of a packet through all three.
  \<^item> Worker_Main, Worker_Main_Props (\<open>applications/schc_worker_linux/src/main.c\<close>): the program, composed
    of the adaptation layer, the L2 adapter, the table and the timers; Worker_Types: the shape of its state;
    Worker_Delivery: a packet from the TUN device through the loop.
    This theory adds how the two ends of a link are set up.

  \<^bold>\<open>How the code is modelled.\<close> A C integer is a word of its width, so it wraps as it does there; a
  buffer is a list of bytes. An operation returns an option: None is undefined behaviour (an access
  outside a buffer, a NULL or freed pointer), so that a proof of Some is a proof of memory safety; the
  operation's own errors are values inside. Static variables are a record that is passed along. What
  lies outside the repository is a parameter: system calls and their failures, the SDK, the OSCORE
  and Ascon libraries, the modem library. What a theorem needs of them is a named hypothesis
  (conv_contract and conv_returns for what the OSCORE library may touch and that it returns, osc_channel for
  its two ends, codec_pair and codec_bounded for the compression of the SDK, sends_uncompressed and
  refuses_unknown for its rule engine, schc_link, carries for the modem, sdk_sound, sdk_calls_al,
  sendto_contract, quiet, sdk_notifies), and every theorem with
  hypotheses is followed by a theorem that applies it to concrete values.

  \<^bold>\<open>What is shown.\<close>
  \<^item> End to end: a CoAP packet written at one end of a link comes out at the other, once, unchanged but for
    flow label, hop limit and checksum, and so does every stream of them in order; the one way a
    packet is lost is that inner compression makes the protected message shorter than the original.
    With the inner rules the program passes to the SDK, which are none, that does not happen: inner
    compression lengthens every message by one byte.
  \<^item> Net: a rewritten checksum verifies at the receiver, and touches nothing else; the two
    implementations agree; a generated packet is well formed.
  \<^item> Adaptation layer: one packet at a time in the hands of the stack under every interleaving; what is
    sent and what is written up, byte for byte; what initialisation and termination leave open; the
    packets for which processing stays inside the buffer, and two for which it does not.
  \<^item> Platform: the table refines a finite map of eight descriptors; a timer is marked started exactly
    while it is armed; base64 round trips, within stated limits; the store of sequence numbers is one
    32-bit cell that all keys share.
  \<^item> Cryptography: HMAC and HKDF compute what RFC 2104 and RFC 5869 define for up to 254 blocks, and
    what happens beyond; the AEAD wrappers are inverse to each other.
  \<^item> Rules: compression followed by decompression restores the packet; which rules overlap; between two
    ends, whose tables differ, the packet is rebuilt with the roles of device and application exchanged.
  \<^item> Link: one round of processing reports every event once, with the payload; events raised during it
    are lost; the adapter cannot be initialised again on the same descriptor. Between two adapters every
    frame that is sent arrives once, in order, byte for byte.
  \<^item> Helper and profiles: every parameter block is freed once; what the SDK receives; the profiles of
    two peers fit together and keep the limits of RFC 8724; what the device sends over a run, what the
    core makes of it and why the server does not receive it.
  \<^item> Worker: no turn of it is undefined and its state keeps its shape; it ends in the turn of the first
    signal, every exit releases what is held, and a readable descriptor is served in the next turn:
    a CoAP packet waiting at the TUN device is then with the stack, protected, exactly once.

  \<^bold>\<open>Loops.\<close> Loops over data recurse on the data or have a measure. A loop that retries an interrupted
  system call takes the list of the results of its attempts, and is None when the list ends before
  the loop does. The worker's loop takes the list of its turns and reports whether it still runs when
  they are used up; the theorem that it ends says how many turns it takes.

  \<^bold>\<open>Not modelled.\<close> The demo, which prints the version of the SDK; the \<open>udp\<close> and \<open>udp6\<close> links, the SDK and the libraries,
  which are not in the repository; the patches for them; the tests; log messages. Timer signals are
  taken before the checks of a turn and during its sleep, not inside a function. The inputs of the
  rule engine are recorded as the code builds them; their meaning is RFC 8724's, since the engine
  itself is not in the repository.
\<close>

section \<open>Two peers\<close>

text \<open>The options of the other end of the link.\<close>

definition peer_config :: "main_config \<Rightarrow> main_config" where
  "peer_config c = c\<lparr>al_options := (al_options c)\<lparr>schc_peer_mode := True\<rparr>\<rparr>"

lemma setup_mirrored:
  assumes "\<not> schc_peer_mode (al_options c)"
    and "boot_pton b (IPv6_ADDRESS c) \<noteq> None" and "boot_pton b (IPv6_PEER_ADDRESS c) \<noteq> None"
  shows "mirrored (ext (main_setup c b w)) (ext (main_setup (peer_config c) b w'))"
  using assms
  by (auto simp: mirrored_def main_setup_def peer_config_def Let_def net_set_host_static_ip_def
      net_set_remote_static_ip_def net_set_host_static_port_def net_set_remote_static_port_def)

lemma setup_mode:
  "main_sdk_mode (main_setup c b w) = (if schc_peer_mode (al_options c) then SDK_APP_MODE else SDK_DEVICE_MODE)"
  by (simp add: main_setup_def Let_def)

text \<open>C38: A device and a peer built with the same addresses and ports agree on everything they must
  agree on: the static addresses and ports of each are the remote ones of the other, the OSCORE
  sender of each is the recipient of the other, and, in every fragmentation variant, what one
  sends under a rule identifier the other receives under it with the same parameters, whatever
  earlier calls left in the static profiles.\<close>

theorem peer_workers_agree:
  assumes "\<not> schc_peer_mode (al_options c)" and "up_id \<noteq> down_id"
    and "boot_pton b (IPv6_ADDRESS c) \<noteq> None" and "boot_pton b (IPv6_PEER_ADDRESS c) \<noteq> None"
  shows "mirrored (ext (main_setup c b w)) (ext (main_setup (peer_config c) b w'))
    \<and> SENDER_ID (schc_peer_mode (al_options c)) = RECIPIENT_ID (schc_peer_mode (al_options (peer_config c)))
    \<and> RECIPIENT_ID (schc_peer_mode (al_options c)) = SENDER_ID (schc_peer_mode (al_options (peer_config c)))
    \<and> peers_agree
      (fst (na_mgt_load_profiles [] (\<lambda>l p. l @ [p]) (main_sdk_mode (main_setup c b w)) (up_noack_profile i, down_noack_profile i)))
      (fst (na_mgt_load_profiles [] (\<lambda>l p. l @ [p]) (main_sdk_mode (main_setup (peer_config c) b w'))
        ((up_noack_profile i)\<lparr>direction := d\<rparr>, (down_noack_profile i)\<lparr>direction := e\<rparr>)))
    \<and> peers_agree
      (fst (ae_mgt_load_profiles [] (\<lambda>l p. l @ [p]) (main_sdk_mode (main_setup c b w)) (up_aoe_profile up_id, down_aoe_profile down_id)))
      (fst (ae_mgt_load_profiles [] (\<lambda>l p. l @ [p]) (main_sdk_mode (main_setup (peer_config c) b w'))
        ((up_aoe_profile up_id)\<lparr>direction := d\<rparr>, (down_aoe_profile down_id)\<lparr>direction := e\<rparr>)))
    \<and> peers_agree
      (fst (aa_mgt_load_profiles [] (\<lambda>l p. l @ [p]) (main_sdk_mode (main_setup c b w)) (aa_up_profile i, aa_down_profile i)))
      (fst (aa_mgt_load_profiles [] (\<lambda>l p. l @ [p]) (main_sdk_mode (main_setup (peer_config c) b w'))
        ((aa_up_profile i)\<lparr>direction := d\<rparr>, (aa_down_profile i)\<lparr>direction := e\<rparr>)))"
proof -
  have mode: "main_sdk_mode (main_setup c b w) = SDK_DEVICE_MODE"
    "main_sdk_mode (main_setup (peer_config c) b w') = SDK_APP_MODE"
    using assms(1) by (simp_all add: setup_mode peer_config_def)
  have ids: "SENDER_ID (schc_peer_mode (al_options c)) = RECIPIENT_ID (schc_peer_mode (al_options (peer_config c)))"
    "RECIPIENT_ID (schc_peer_mode (al_options c)) = SENDER_ID (schc_peer_mode (al_options (peer_config c)))"
    using assms(1) by (simp_all add: SENDER_ID_def RECIPIENT_ID_def peer_config_def)
  show ?thesis
    unfolding mode
    using setup_mirrored [OF assms(1,3,4)] ids frag_peers_agree [OF assms(2)] by (intro conjI) blast+
qed

theorem peer_workers_agree_witness:
  "mirrored (ext (main_setup (example_main_cfg\<lparr>al_options := example_cfg\<lparr>schc_peer_mode := False\<rparr>\<rparr>)
        (example_boot\<lparr>boot_pton := \<lambda>a. Some (replicate 16 7)\<rparr>) example_worker))
      (ext (main_setup (peer_config (example_main_cfg\<lparr>al_options := example_cfg\<lparr>schc_peer_mode := False\<rparr>\<rparr>))
        (example_boot\<lparr>boot_pton := \<lambda>a. Some (replicate 16 7)\<rparr>) example_worker))"
  using peer_workers_agree [of "example_main_cfg\<lparr>al_options := example_cfg\<lparr>schc_peer_mode := False\<rparr>\<rparr>" 20 21
      "example_boot\<lparr>boot_pton := \<lambda>a. Some (replicate 16 7)\<rparr>" example_worker example_worker]
  by (simp add: example_main_cfg_def)

end
